theory Spec2Isabelle
  imports Complex_Main
begin

section \<open>Numbers\<close>

text \<open>
  A \<^verbatim>\<open>number\<close> is an IEEE-754 binary64 value: a finite double, \<^verbatim>\<open>Infinity\<close>,
  \<^verbatim>\<open>-Infinity\<close> or \<^verbatim>\<open>NaN\<close>. Each of \<^verbatim>\<open>+\<close>, \<^verbatim>\<open>-\<close>, \<^verbatim>\<open>*\<close>, \<^verbatim>\<open>/\<close> and \<^verbatim>\<open>Math.sqrt\<close> on finite
  values returns the exact result rounded to the nearest value with 53 significant
  bits, a tie going to the even one. A nonzero \<open>x\<close> with \<open>2\<^sup>e \<le> \<bar>x\<bar> < 2\<^sup>e\<^sup>+\<^sup>1\<close> lies between
  multiples of \<open>2\<^sup>e\<^sup>-\<^sup>5\<^sup>2\<close>. This is the rounding of a result whose magnitude is in the
  normal range, from \<open>2\<^sup>-\<^sup>1\<^sup>0\<^sup>2\<^sup>2\<close> to the largest double. The machine rounds a result
  beyond the largest double to an infinity and a result below \<open>2\<^sup>-\<^sup>1\<^sup>0\<^sup>2\<^sup>2\<close> to a multiple of
  \<open>2\<^sup>-\<^sup>1\<^sup>0\<^sup>7\<^sup>4\<close>; \<open>round_to_double\<close> does neither, and the sign of zero is not modelled.
  Where a statement below depends on the rounding, it is made for inputs on which no
  operation of the code leaves the normal range.
\<close>

definition round_half_even :: "real \<Rightarrow> int" where
  "round_half_even y =
     (let f = \<lfloor>y\<rfloor>; r = y - of_int f
      in if r < 1 / 2 then f else if 1 / 2 < r then f + 1 else if even f then f else f + 1)"

definition round_to_double :: "real \<Rightarrow> real" where
  "round_to_double x =
     (if x = 0 then 0
      else let e = \<lfloor>log 2 \<bar>x\<bar>\<rfloor>; ulp = 2 powr (of_int e - 52)
           in ulp * of_int (round_half_even (x / ulp)))"

text \<open>
  The scorer reads one number that it does not compute, the readiness score of a review
  result, which comes from the JSON text of a language model. The operations that the
  scorer applies to it, with every value a \<^verbatim>\<open>number\<close> can have: \<^verbatim>\<open>x - c\<close>, \<^verbatim>\<open>x * c\<close> and
  \<^verbatim>\<open>c + x\<close> for a finite \<open>c\<close>, \<^verbatim>\<open>Math.round(x)\<close>, \<^verbatim>\<open>Math.min(c, x)\<close> and \<^verbatim>\<open>Math.max(c, x)\<close>.
  \<^verbatim>\<open>NaN\<close> goes through each of them. \<^verbatim>\<open>Math.round\<close> gives the nearest integer, a tie
  going towards \<open>+\<infinity>\<close>, which is \<^const>\<open>round\<close> (\<open>round x = \<lfloor>x + 1/2\<rfloor>\<close>); it is exact.
\<close>

datatype js_number = NaN | NegInfinity | Num real | Infinity

fun js_minus :: "js_number \<Rightarrow> real \<Rightarrow> js_number" where
  "js_minus (Num x) c = Num (round_to_double (x - c))"
| "js_minus x c = x"

fun js_times :: "js_number \<Rightarrow> real \<Rightarrow> js_number" where
  "js_times NaN c = NaN"
| "js_times (Num x) c = Num (round_to_double (x * c))"
| "js_times Infinity c = (if c = 0 then NaN else if 0 < c then Infinity else NegInfinity)"
| "js_times NegInfinity c = (if c = 0 then NaN else if 0 < c then NegInfinity else Infinity)"

fun js_plus :: "real \<Rightarrow> js_number \<Rightarrow> js_number" where
  "js_plus c (Num x) = Num (round_to_double (c + x))"
| "js_plus c x = x"

fun Math_round :: "js_number \<Rightarrow> js_number" where
  "Math_round (Num x) = Num (of_int (round x))"
| "Math_round x = x"

fun Math_min :: "real \<Rightarrow> js_number \<Rightarrow> js_number" where
  "Math_min c NaN = NaN"
| "Math_min c NegInfinity = NegInfinity"
| "Math_min c (Num x) = Num (min c x)"
| "Math_min c Infinity = Num c"

fun Math_max :: "real \<Rightarrow> js_number \<Rightarrow> js_number" where
  "Math_max c NaN = NaN"
| "Math_max c NegInfinity = Num c"
| "Math_max c (Num x) = Num (max c x)"
| "Math_max c Infinity = Infinity"


section \<open>Scorer (scoring.ts, the second part of src/src/index.ts)\<close>

subsection \<open>Data\<close>

text \<open>
  \<^verbatim>\<open>ScoringFactors\<close> as the interface declares it. A field marked \<^verbatim>\<open>?\<close> may be
  absent (\<^verbatim>\<open>undefined\<close>), which is \<open>None\<close> here; the code only ever tests such a field
  for truthiness. \<^verbatim>\<open>diffSize\<close> and \<^verbatim>\<open>descriptionLength\<close> are a line count and a
  string length; the code only compares them with constants.
\<close>

record ScoringFactors =
  ciPassing :: "bool option"
  testsAdded :: "bool option"
  diffSize :: int
  descriptionLength :: int
  highRiskModules :: "bool option"
  hasTests :: "bool option"

text \<open>
  Modelled from the spec: the declaration of \<^verbatim>\<open>PRReviewResult\<close> (review.ts) is not
  among the sources. The spec gives it a summary text, a risk level (low, medium or
  high), a list of missing elements, a design-alignment tag and a readiness score in
  \<open>[0,100]\<close>; the scorer reads the readiness score only. The readiness score is the
  \<^verbatim>\<open>number\<close> that \<^verbatim>\<open>reviewResult.readiness_score - 50\<close> computes with: the field itself
  when it holds a number, and \<^verbatim>\<open>NaN\<close> when the field is missing or holds a text that is
  no number. No bound on it is assumed below.
\<close>

datatype RiskLevel = Low | Medium | High

record PRReviewResult =
  review_summary :: string
  risk_level :: RiskLevel
  missing_elements :: "string list"
  design_alignment :: string
  readiness_score :: js_number

subsection \<open>calculateScore\<close>

definition truthy :: "bool option \<Rightarrow> bool" where
  "truthy b = (b = Some True)"

text \<open>
  \<^verbatim>\<open>Math.round((llmScore - 50) * 0.3)\<close>. The literal \<^verbatim>\<open>0.3\<close> is the double nearest to
  \<open>3/10\<close>. For a finite \<^verbatim>\<open>llmScore\<close> neither the difference nor the product leaves the
  normal range: the difference of a double and 50 is zero or at least \<open>2\<^sup>-\<^sup>4\<^sup>7\<close> in
  magnitude, and it rounds to the largest double at most.
\<close>

definition llmAdjustment :: "js_number \<Rightarrow> js_number" where
  "llmAdjustment llmScore =
     Math_round (js_times (js_minus llmScore 50) (round_to_double (3 / 10)))"

text \<open>
  The body of \<^verbatim>\<open>calculateScore\<close> in three parts. First the running \<^verbatim>\<open>score\<close> after each
  \<^verbatim>\<open>if\<close> on the factors, in the order of the source (lines 212 to 249): it is an integer
  between 5 and 105, and integers of this size are added and subtracted exactly. Then
  the adjustment by the review result, when there is one (lines 252 to 257). Then the
  clamp (line 260).
\<close>

definition scoreOfFactors :: "ScoringFactors \<Rightarrow> int" where
  "scoreOfFactors factors =
    (let score = 50;
         score = (if truthy (ciPassing factors) then score + 20 else score);
         score = (if truthy (testsAdded factors) then score + 15 else score);
         score = (if diffSize factors < 300 then score + 10 else score);
         score = (if descriptionLength factors > 300 then score + 10 else score);
         score = (if truthy (highRiskModules factors) then score - 15 else score);
         score = (if \<not> truthy (hasTests factors) then score - 20 else score);
         score = (if diffSize factors > 1000 then score - 10 else score)
     in score)"

definition scoreBeforeClamp :: "ScoringFactors \<Rightarrow> PRReviewResult option \<Rightarrow> js_number" where
  "scoreBeforeClamp factors reviewResult =
    (let score = of_int (scoreOfFactors factors)
     in case reviewResult of
          None \<Rightarrow> Num score
        | Some r \<Rightarrow>
            (let llmScore = readiness_score r;
                 adjustment = llmAdjustment llmScore
             in js_plus score adjustment))"

definition calculateScore :: "ScoringFactors \<Rightarrow> PRReviewResult option \<Rightarrow> js_number" where
  "calculateScore factors reviewResult =
     Math_max 0 (Math_min 100 (scoreBeforeClamp factors reviewResult))"


subsection \<open>Path patterns\<close>

text \<open>
  Every regular expression of \<^verbatim>\<open>detectHighRiskModules\<close> and \<^verbatim>\<open>detectTests\<close> is a
  literal without anchors, so \<^verbatim>\<open>pattern.test(file)\<close> searches the literal in the file
  name, from the left.
\<close>

fun starts_with :: "string \<Rightarrow> string \<Rightarrow> bool" where
  "starts_with [] s = True"
| "starts_with (p # ps) [] = False"
| "starts_with (p # ps) (c # cs) = (p = c \<and> starts_with ps cs)"

fun regex_test :: "string \<Rightarrow> string \<Rightarrow> bool" where
  "regex_test pat [] = starts_with pat []"
| "regex_test pat (c # cs) = (starts_with pat (c # cs) \<or> regex_test pat cs)"

text \<open>
  The flag \<^verbatim>\<open>i\<close>: without the flag \<^verbatim>\<open>u\<close>, a character outside ASCII never matches
  an ASCII letter, so folding the letters A to Z is all the flag does to these patterns.
\<close>

definition ascii_lower :: "char \<Rightarrow> char" where
  "ascii_lower c =
     (case map_of (zip ''ABCDEFGHIJKLMNOPQRSTUVWXYZ'' ''abcdefghijklmnopqrstuvwxyz'') c of
        None \<Rightarrow> c
      | Some l \<Rightarrow> l)"

definition regex_test_i :: "string \<Rightarrow> string \<Rightarrow> bool" where
  "regex_test_i pat s = regex_test (map ascii_lower pat) (map ascii_lower s)"

definition highRiskPatterns :: "string list" where
  "highRiskPatterns =
     [''auth'', ''security'', ''payment'', ''billing'', ''database'', ''migration'',
      ''schema'', ''config'', ''env'', ''deployment'', ''infra'']"

definition testPatterns :: "string list" where
  "testPatterns = [''.test.'', ''.spec.'', ''__tests__/'', ''test/'', ''tests/'', ''spec/'']"

text \<open>The inner loop over the patterns, leaving at the first match.\<close>

fun anyPattern :: "(string \<Rightarrow> string \<Rightarrow> bool) \<Rightarrow> string list \<Rightarrow> string \<Rightarrow> bool" where
  "anyPattern test [] file = False"
| "anyPattern test (pattern # patterns) file =
     (if test pattern file then True else anyPattern test patterns file)"

fun detectHighRiskModules :: "string list \<Rightarrow> bool" where
  "detectHighRiskModules [] = False"
| "detectHighRiskModules (file # files) =
     (if anyPattern regex_test_i highRiskPatterns file then True
      else detectHighRiskModules files)"

fun detectTests :: "string list \<Rightarrow> bool" where
  "detectTests [] = False"
| "detectTests (file # files) =
     (if anyPattern regex_test testPatterns file then True else detectTests files)"

subsection \<open>The factors that run() builds (index.ts, lines 146 to 157)\<close>

text \<open>
  \<^verbatim>\<open>run\<close> sets both \<^verbatim>\<open>testsAdded\<close> and \<^verbatim>\<open>hasTests\<close> to \<^verbatim>\<open>detectTests(fileNames)\<close> and
  leaves \<^verbatim>\<open>ciPassing\<close> out. The arguments are the file names of the pull request,
  \<^verbatim>\<open>pr.additions || 0\<close>, \<^verbatim>\<open>pr.deletions || 0\<close> and the length of \<^verbatim>\<open>pr.body || ""\<close>.
\<close>

definition run_factors :: "string list \<Rightarrow> int \<Rightarrow> int \<Rightarrow> int \<Rightarrow> ScoringFactors" where
  "run_factors fileNames additions deletions bodyLength =
     (let hasTests = detectTests fileNames;
          highRiskModules = detectHighRiskModules fileNames;
          diffSize = additions + deletions
      in \<lparr> ciPassing = None,
           testsAdded = Some hasTests,
           diffSize = diffSize,
           descriptionLength = bodyLength,
           highRiskModules = Some highRiskModules,
           hasTests = Some hasTests \<rparr>)"

subsection \<open>The test predicate in the words of the specification\<close>

text \<open>
  The specification describes a test-like path as one that matches \<^verbatim>\<open>.test.\<close>,
  \<^verbatim>\<open>.spec.\<close>, or has a directory segment named \<^verbatim>\<open>test\<close>, \<^verbatim>\<open>tests\<close> or \<^verbatim>\<open>spec\<close>.
  The directory segments of a path are its components between slashes, the last
  component (the file name) left out. These two definitions follow the specification,
  not the code; they are compared with \<^const>\<open>detectTests\<close> below.
\<close>

fun split_on :: "char \<Rightarrow> string \<Rightarrow> string list" where
  "split_on d [] = [[]]"
| "split_on d (c # cs) =
     (if c = d then [] # split_on d cs
      else (case split_on d cs of [] \<Rightarrow> [[c]] | w # ws \<Rightarrow> (c # w) # ws))"

definition directory_segments :: "string \<Rightarrow> string list" where
  "directory_segments path = butlast (split_on CHR ''/'' path)"

definition spec_testLike :: "string \<Rightarrow> bool" where
  "spec_testLike path =
     (regex_test ''.test.'' path \<or> regex_test ''.spec.'' path
      \<or> list_ex (\<lambda>seg. seg = ''test'' \<or> seg = ''tests'' \<or> seg = ''spec'')
            (directory_segments path))"

definition spec_detectTests :: "string list \<Rightarrow> bool" where
  "spec_detectTests files = list_ex spec_testLike files"

section \<open>The JavaScript runtime and the external services\<close>

subsection \<open>Values, errors and the primitives of the language\<close>

text \<open>
  The summarizer and the duplicate detector compute with \<^verbatim>\<open>number\<close>s that are
  IEEE-754 doubles (embeddings, similarities) and with whatever \<^verbatim>\<open>JSON.parse\<close> returns.
  The type of numbers is a parameter \<open>'n\<close>, and the primitives applied to numbers are
  the fields of a record \<open>js\<close>: the definitions below are the control flow of the
  source over these primitives, and a property is proved for every \<open>js\<close> or under the
  laws of the primitives that it names. Two arithmetics are defined further down: the
  exact one of the real numbers, and that of doubles.
\<close>

datatype 'n json =
    JNull
  | JBool bool
  | JNum 'n
  | JStr string
  | JArr "'n json list"
  | JObj "(string \<times> 'n json) list"

datatype error = Error string | TypeError | SyntaxError | ServiceError string

record 'n js =
  num_zero :: 'n                                  \<comment> \<open>the literal \<^verbatim>\<open>0\<close>\<close>
  num_add :: "'n \<Rightarrow> 'n \<Rightarrow> 'n"
  num_sub :: "'n \<Rightarrow> 'n \<Rightarrow> 'n"
  num_mul :: "'n \<Rightarrow> 'n \<Rightarrow> 'n"
  num_div :: "'n \<Rightarrow> 'n \<Rightarrow> 'n"
  num_sqrt :: "'n \<Rightarrow> 'n"                          \<comment> \<open>\<^verbatim>\<open>Math.sqrt\<close>\<close>
  num_eq :: "'n \<Rightarrow> 'n \<Rightarrow> bool"                    \<comment> \<open>\<^verbatim>\<open>===\<close> on numbers\<close>
  num_ge :: "'n \<Rightarrow> 'n \<Rightarrow> bool"                    \<comment> \<open>\<^verbatim>\<open>>=\<close>\<close>
  num_lt :: "'n \<Rightarrow> 'n \<Rightarrow> bool"                    \<comment> \<open>\<^verbatim>\<open><\<close>\<close>
  num_truthy :: "'n \<Rightarrow> bool"                      \<comment> \<open>neither zero nor NaN\<close>
  parseInt :: "string \<Rightarrow> 'n"
  JSON_parse :: "string \<Rightarrow> error + 'n json"
  ToString :: "'n json \<Rightarrow> string"                 \<comment> \<open>conversion of a value to a string\<close>

text \<open>
  Reading a property of a parsed value: \<^verbatim>\<open>null\<close> has none (a \<^verbatim>\<open>TypeError\<close>), an
  object has the ones it lists (the last of a repeated key), and any other value gives
  \<^verbatim>\<open>undefined\<close> (\<open>None\<close>) for the property names that the source reads.
\<close>

definition get_property :: "'n json \<Rightarrow> string \<Rightarrow> error + 'n json option" where
  "get_property v name =
     (case v of
        JNull \<Rightarrow> Inl TypeError
      | JObj members \<Rightarrow> Inr (map_of (rev members) name)
      | _ \<Rightarrow> Inr None)"

definition json_truthy :: "'n js \<Rightarrow> 'n json \<Rightarrow> bool" where
  "json_truthy js v =
     (case v of
        JNull \<Rightarrow> False
      | JBool b \<Rightarrow> b
      | JNum n \<Rightarrow> num_truthy js n
      | JStr s \<Rightarrow> s \<noteq> []
      | _ \<Rightarrow> True)"

text \<open>\<^verbatim>\<open>value || fallback\<close> where \<^verbatim>\<open>value\<close> was read from a parsed object.\<close>

definition or_default :: "'n js \<Rightarrow> 'n json option \<Rightarrow> 'n json \<Rightarrow> 'n json" where
  "or_default js v fallback =
     (case v of
        None \<Rightarrow> fallback
      | Some x \<Rightarrow> if json_truthy js x then x else fallback)"

text \<open>\<^verbatim>\<open>Array.isArray(value) ? value : []\<close>\<close>

definition array_or_empty :: "'n json option \<Rightarrow> 'n json list" where
  "array_or_empty v = (case v of Some (JArr xs) \<Rightarrow> xs | _ \<Rightarrow> [])"

text \<open>\<^verbatim>\<open>text || fallback\<close> for a string that may be \<^verbatim>\<open>null\<close>: the empty string is falsy.\<close>

definition string_or :: "string option \<Rightarrow> string \<Rightarrow> string" where
  "string_or s fallback =
     (case s of None \<Rightarrow> fallback | Some t \<Rightarrow> if t = [] then fallback else t)"

text \<open>\<^verbatim>\<open>if (text)\<close> for a string that may be absent.\<close>

definition string_truthy :: "string option \<Rightarrow> bool" where
  "string_truthy s = (case s of None \<Rightarrow> False | Some t \<Rightarrow> t \<noteq> [])"

text \<open>A value interpolated in a template literal.\<close>

definition template :: "'n js \<Rightarrow> 'n json \<Rightarrow> string" where
  "template js v = (case v of JStr s \<Rightarrow> s | _ \<Rightarrow> ToString js v)"

subsection \<open>External services\<close>

text \<open>
  The sources of this part are src/unnamed/part_003 (github.ts, db.ts) and
  src/unnamed/part_002 (prompts.ts). What the action calls and does not own: the chat and embedding endpoints, the tracker
  (the repository of the run, the lists of recent issues and pull requests) and the
  optional store. Each is a function from the request to a failure or a response; every
  call is appended to a log, so that the calls a run makes can be read off the result.
  The two prompt formatters (prompts.ts) are pure substitutions in fixed templates; no
  property below depends on the prompt text, and they are fields of the environment too.

  An item of the tracker carries more fields than the detector reads (state, dates,
  line counts); only the ones read are kept. \<open>item_is_pull_request\<close> is the truthiness
  of \<^verbatim>\<open>item.pull_request\<close> in the issue listing.
\<close>

datatype ItemType = Issue | PR

record 'n tracker_item =
  item_number :: 'n
  item_title :: string
  item_body :: "string option"
  item_is_pull_request :: bool

text \<open>A row of the \<^verbatim>\<open>SELECT\<close> of \<^verbatim>\<open>findSimilarItems\<close>.\<close>

record 'n db_row =
  row_repo :: string
  row_github_id :: string
  row_type :: ItemType
  row_title :: string
  row_summary :: string
  row_embedding :: "string + 'n list"       \<comment> \<open>pgvector returns text; otherwise an array\<close>
  row_closed :: bool
  row_similarity :: "'n option"             \<comment> \<open>may be \<^verbatim>\<open>null\<close>\<close>

text \<open>A \<^verbatim>\<open>SimilarityItem\<close>; each field carries the prefix \<open>si_\<close>, its name in the source
  being the name of a variable elsewhere. The summary and the embedding hold what the
  caller or the parser supplied.\<close>

record 'n SimilarityItem =
  si_repo :: string
  si_github_id :: string
  si_type :: ItemType
  si_title :: string
  si_summary :: "'n json"
  si_embedding :: "'n json"
  si_closed :: bool
  si_similarity :: "'n option"

datatype 'n request =
    ChatCompletion string string               \<comment> \<open>system message, user message\<close>
  | EmbeddingsCreate string
  | IssuesListForRepo string string 'n
  | PullsList string string 'n
  | DbUpsert "'n SimilarityItem" string        \<comment> \<open>the item and its embedding as text\<close>
  | DbSelect string string ItemType 'n

record 'n env =
  chat_completions_create :: "string \<Rightarrow> string \<Rightarrow> error + string option list"
  embeddings_create :: "string \<Rightarrow> error + 'n list list"
  context_repo :: "error + string \<times> string"
  issues_listForRepo :: "string \<Rightarrow> string \<Rightarrow> 'n \<Rightarrow> error + 'n tracker_item list"
  pulls_list :: "string \<Rightarrow> string \<Rightarrow> 'n \<Rightarrow> error + 'n tracker_item list"
  db_upsert :: "'n SimilarityItem \<Rightarrow> string \<Rightarrow> error + unit"
  db_select :: "string \<Rightarrow> string \<Rightarrow> ItemType \<Rightarrow> 'n \<Rightarrow> error + 'n db_row list"
  formatSummaryPrompt :: "string \<Rightarrow> string \<Rightarrow> string list option \<Rightarrow> string"
  formatDuplicatePrompt :: "string \<Rightarrow> 'n json \<Rightarrow> 'n \<Rightarrow> string \<Rightarrow> 'n json \<Rightarrow> string"

subsection \<open>Asynchronous code with exceptions\<close>

text \<open>
  An \<^verbatim>\<open>async\<close> function awaits its calls one after the other. It is a function from the
  log of the calls made so far to its outcome (\<open>Inl\<close> an exception thrown, \<open>Inr\<close> a value
  returned) and the log after it. The calls made before an exception stay in the log.
\<close>

type_synonym ('n, 'a) io = "'n request list \<Rightarrow> (error + 'a) \<times> 'n request list"

definition io_return :: "'a \<Rightarrow> ('n, 'a) io" where
  "io_return x = (\<lambda>calls. (Inr x, calls))"

definition io_throw :: "error \<Rightarrow> ('n, 'a) io" where
  "io_throw e = (\<lambda>calls. (Inl e, calls))"

definition io_lift :: "error + 'a \<Rightarrow> ('n, 'a) io" where
  "io_lift r = (\<lambda>calls. (r, calls))"

definition io_call :: "'n request \<Rightarrow> error + 'a \<Rightarrow> ('n, 'a) io" where
  "io_call request response = (\<lambda>calls. (response, calls @ [request]))"

definition io_bind :: "('n, 'a) io \<Rightarrow> ('a \<Rightarrow> ('n, 'b) io) \<Rightarrow> ('n, 'b) io" where
  "io_bind m f =
     (\<lambda>calls. case m calls of
        (Inl e, calls') \<Rightarrow> (Inl e, calls')
      | (Inr x, calls') \<Rightarrow> f x calls')"

text \<open>\<^verbatim>\<open>try { m } catch (error) { handler }\<close>\<close>

definition io_catch :: "('n, 'a) io \<Rightarrow> (error \<Rightarrow> ('n, 'a) io) \<Rightarrow> ('n, 'a) io" where
  "io_catch m handler =
     (\<lambda>calls. case m calls of
        (Inl e, calls') \<Rightarrow> handler e calls'
      | (Inr x, calls') \<Rightarrow> (Inr x, calls'))"

text \<open>\<^verbatim>\<open>response.choices[0].message.content\<close> and \<^verbatim>\<open>response.data[0].embedding\<close>: reading
  a field of the first element fails with a \<^verbatim>\<open>TypeError\<close> when there is none.\<close>

definition first_of :: "'a list \<Rightarrow> error + 'a" where
  "first_of xs = (case xs of [] \<Rightarrow> Inl TypeError | x # _ \<Rightarrow> Inr x)"

section \<open>Summarizer (src/src/summarizer.ts)\<close>

text \<open>
  The fields of an \<^verbatim>\<open>ItemSummary\<close> are declared as strings and arrays of strings, but
  the code copies what \<^verbatim>\<open>JSON.parse\<close> returned without checking its type, so a field
  holds a parsed value.
\<close>

record 'n ItemSummary =
  problem_statement :: "'n json"
  scope :: "'n json"
  key_entities :: "'n json list"
  affected_files :: "'n json list"

definition summarySystemMessage :: string where
  "summarySystemMessage =
     ''You are a helpful assistant that generates structured summaries in JSON format.''"

definition chat :: "'n env \<Rightarrow> string \<Rightarrow> string \<Rightarrow> ('n, string option list) io" where
  "chat env system user =
     io_call (ChatCompletion system user) (chat_completions_create env system user)"

text \<open>The block of the \<^verbatim>\<open>try\<close> of \<^verbatim>\<open>generateSummary\<close> (lines 19 to 46), then the function,
  whose \<^verbatim>\<open>catch\<close> returns the basic summary.\<close>

definition generateSummary_try ::
  "'n env \<Rightarrow> 'n js \<Rightarrow> string \<Rightarrow> string \<Rightarrow> string list option \<Rightarrow> ('n, 'n ItemSummary) io" where
  "generateSummary_try env js title body files =
     (let prompt = formatSummaryPrompt env title body files in
      io_bind (chat env summarySystemMessage prompt) (\<lambda>choices.
      io_bind (io_lift (first_of choices)) (\<lambda>message_content.
      let content = string_or message_content ''{}'' in
      io_bind (io_lift (JSON_parse js content)) (\<lambda>summary.
      io_bind (io_lift (get_property summary ''problem_statement'')) (\<lambda>ps.
      io_bind (io_lift (get_property summary ''scope'')) (\<lambda>sc.
      io_bind (io_lift (get_property summary ''key_entities'')) (\<lambda>ke.
      io_bind (io_lift (get_property summary ''affected_files'')) (\<lambda>af.
      io_return
        \<lparr> problem_statement = or_default js ps (JStr ''No problem statement''),
          scope = or_default js sc (JStr ''Unknown''),
          key_entities = array_or_empty ke,
          affected_files = array_or_empty af \<rparr>))))))))"

definition generateSummary ::
  "'n env \<Rightarrow> 'n js \<Rightarrow> string \<Rightarrow> string \<Rightarrow> string list option \<Rightarrow> ('n, 'n ItemSummary) io" where
  "generateSummary env js title body files =
     io_catch
       (generateSummary_try env js title body files)
       (\<lambda>error.
        io_return
          \<lparr> problem_statement = JStr title,
            scope = JStr ''Unknown'',
            key_entities = [],
            affected_files = (case files of None \<Rightarrow> [] | Some fs \<Rightarrow> map JStr fs) \<rparr>)"

definition generateEmbedding :: "'n env \<Rightarrow> string \<Rightarrow> ('n, 'n list) io" where
  "generateEmbedding env text =
     io_catch
       (io_bind (io_call (EmbeddingsCreate text) (embeddings_create env text)) (\<lambda>data.
        io_lift (first_of data)))
       (\<lambda>error. io_throw error)"

text \<open>
  The loop of \<^verbatim>\<open>calculateCosineSimilarity\<close> runs \<open>i\<close> from \<open>0\<close> to \<^verbatim>\<open>a.length\<close>; both
  arrays have that length once the first test has passed.
\<close>

definition calculateCosineSimilarity :: "'n js \<Rightarrow> 'n list \<Rightarrow> 'n list \<Rightarrow> error + 'n" where
  "calculateCosineSimilarity js a b =
     (if length a \<noteq> length b then Inl (Error ''Vectors must have the same length'')
      else
        let (dotProduct, normA, normB) =
              fold (\<lambda>i (dotProduct, normA, normB).
                      (num_add js dotProduct (num_mul js (a ! i) (b ! i)),
                       num_add js normA (num_mul js (a ! i) (a ! i)),
                       num_add js normB (num_mul js (b ! i) (b ! i))))
                   [0..<length a] (num_zero js, num_zero js, num_zero js);
            normA = num_sqrt js normA;
            normB = num_sqrt js normB
        in if num_eq js normA (num_zero js) \<or> num_eq js normB (num_zero js)
           then Inr (num_zero js)
           else Inr (num_div js dotProduct (num_mul js normA normB)))"

section \<open>Tracker and store (github.ts, db.ts: src/unnamed/part_003)\<close>

definition getRecentIssues :: "'n env \<Rightarrow> 'n \<Rightarrow> ('n, 'n tracker_item list) io" where
  "getRecentIssues env maxResults =
     io_catch
       (io_bind (io_lift (context_repo env)) (\<lambda>(owner, repo_name).
        io_bind (io_call (IssuesListForRepo owner repo_name maxResults)
                   (issues_listForRepo env owner repo_name maxResults)) (\<lambda>data.
        io_return
          (map (\<lambda>item. item\<lparr>item_body := (if item_body item = Some [] then None else item_body item)\<rparr>)
             (filter (\<lambda>item. \<not> item_is_pull_request item) data)))))
       (\<lambda>error. io_return [])"

definition getRecentPullRequests :: "'n env \<Rightarrow> 'n \<Rightarrow> ('n, 'n tracker_item list) io" where
  "getRecentPullRequests env maxResults =
     io_catch
       (io_bind (io_lift (context_repo env)) (\<lambda>(owner, repo_name).
        io_bind (io_call (PullsList owner repo_name maxResults)
                   (pulls_list env owner repo_name maxResults)) (\<lambda>data.
        io_return
          (map (\<lambda>pr. pr\<lparr>item_body := (if item_body pr = Some [] then None else item_body pr)\<rparr>)
             data))))
       (\<lambda>error. io_return [])"

fun join_strings :: "string \<Rightarrow> string list \<Rightarrow> string" where
  "join_strings sep [] = []"
| "join_strings sep [x] = x"
| "join_strings sep (x # y # ys) = x @ sep @ join_strings sep (y # ys)"

text \<open>\<^verbatim>\<open>`[${embedding.join(',')}]`\<close>; \<^verbatim>\<open>join\<close> is not a function of a value that is no array,
  and writes \<^verbatim>\<open>null\<close> as the empty string.\<close>

definition embedding_text :: "'n js \<Rightarrow> 'n json \<Rightarrow> error + string" where
  "embedding_text js v =
     (case v of
        JArr xs \<Rightarrow>
          Inr (''['' @ join_strings '','' (map (\<lambda>x. case x of JNull \<Rightarrow> [] | _ \<Rightarrow> template js x) xs)
                 @ '']'')
      | _ \<Rightarrow> Inl TypeError)"

definition storeSimilarityItem :: "'n env \<Rightarrow> 'n js \<Rightarrow> 'n SimilarityItem \<Rightarrow> ('n, unit) io" where
  "storeSimilarityItem env js item =
     io_catch
       (io_bind (io_lift (embedding_text js (si_embedding item))) (\<lambda>embeddingStr.
        io_call (DbUpsert item embeddingStr) (db_upsert env item embeddingStr)))
       (\<lambda>error. io_return ())"

definition parseEmbedding :: "'n js \<Rightarrow> string + 'n list \<Rightarrow> error + 'n json" where
  "parseEmbedding js embeddingStr =
     (case embeddingStr of
        Inl s \<Rightarrow> JSON_parse js s
      | Inr xs \<Rightarrow> Inr (JArr (map JNum xs)))"

text \<open>\<^verbatim>\<open>result.rows.map(...)\<close>: the first row whose embedding does not parse ends the map.\<close>

fun rows_to_items :: "'n js \<Rightarrow> 'n db_row list \<Rightarrow> error + 'n SimilarityItem list" where
  "rows_to_items js [] = Inr []"
| "rows_to_items js (row # rows) =
     (case parseEmbedding js (row_embedding row) of
        Inl e \<Rightarrow> Inl e
      | Inr parsed \<Rightarrow>
          (case rows_to_items js rows of
             Inl e \<Rightarrow> Inl e
           | Inr items \<Rightarrow>
               Inr (\<lparr> si_repo = row_repo row,
                      si_github_id = row_github_id row,
                      si_type = row_type row,
                      si_title = row_title row,
                      si_summary = JStr (row_summary row),
                      si_embedding = parsed,
                      si_closed = row_closed row,
                      si_similarity = row_similarity row \<rparr> # items)))"

definition findSimilarItems ::
  "'n env \<Rightarrow> 'n js \<Rightarrow> 'n list \<Rightarrow> string \<Rightarrow> ItemType \<Rightarrow> 'n \<Rightarrow> ('n, 'n SimilarityItem list) io" where
  "findSimilarItems env js embedding repo type limit =
     io_catch
       (io_bind (io_lift (embedding_text js (JArr (map JNum embedding)))) (\<lambda>embeddingStr.
        io_bind (io_call (DbSelect embeddingStr repo type limit)
                   (db_select env embeddingStr repo type limit)) (\<lambda>rows.
        io_lift (rows_to_items js rows))))
       (\<lambda>error. io_return [])"

section \<open>Duplicate detector (dedupe.ts: src/unnamed/part_004)\<close>

text \<open>
  As for \<^verbatim>\<open>ItemSummary\<close>, the fields of a \<^verbatim>\<open>DuplicateResult\<close> hold what the model's JSON
  held: \<^verbatim>\<open>classifyDuplicate\<close> replaces a falsy field by its default and checks nothing
  else.
\<close>

record 'n DuplicateResult =
  classification :: "'n json"
  confidence :: "'n json"
  canonical_item :: "'n json"
  reasoning :: "'n json"

text \<open>An element of \<^verbatim>\<open>candidates\<close>: \<^verbatim>\<open>{ number, title, summary, similarity }\<close>.\<close>

record 'n candidate =
  cand_number :: 'n
  cand_title :: string
  cand_summary :: "'n json"
  cand_similarity :: 'n

definition duplicateSystemMessage :: string where
  "duplicateSystemMessage =
     ''You are a helpful assistant that identifies duplicate issues and pull requests.''"

text \<open>The block of the \<^verbatim>\<open>try\<close> of \<^verbatim>\<open>classifyDuplicate\<close> (lines 146 to 179), then the
  function, whose \<^verbatim>\<open>catch\<close> returns the result \<^verbatim>\<open>distinct\<close>.\<close>

definition classifyDuplicate_try ::
  "'n env \<Rightarrow> 'n js \<Rightarrow> string \<Rightarrow> 'n json \<Rightarrow> 'n \<Rightarrow> string \<Rightarrow> 'n json
     \<Rightarrow> ('n, 'n DuplicateResult) io" where
  "classifyDuplicate_try env js currentTitle currentSummary candidateNumber candidateTitle
       candidateSummary =
     (let prompt = formatDuplicatePrompt env currentTitle currentSummary candidateNumber
                     candidateTitle candidateSummary in
      io_bind (chat env duplicateSystemMessage prompt) (\<lambda>choices.
      io_bind (io_lift (first_of choices)) (\<lambda>message_content.
      let content = string_or message_content ''{}'' in
      io_bind (io_lift (JSON_parse js content)) (\<lambda>result.
      io_bind (io_lift (get_property result ''classification'')) (\<lambda>cl.
      io_bind (io_lift (get_property result ''confidence'')) (\<lambda>co.
      io_bind (io_lift (get_property result ''canonical_item'')) (\<lambda>ca.
      io_bind (io_lift (get_property result ''reasoning'')) (\<lambda>re.
      io_return
        \<lparr> classification = or_default js cl (JStr ''distinct''),
          confidence = or_default js co (JNum (num_zero js)),
          canonical_item = or_default js ca JNull,
          reasoning = or_default js re (JStr ''No reasoning provided'') \<rparr>))))))))"

definition classifyDuplicate ::
  "'n env \<Rightarrow> 'n js \<Rightarrow> string \<Rightarrow> 'n json \<Rightarrow> 'n \<Rightarrow> string \<Rightarrow> 'n json
     \<Rightarrow> ('n, 'n DuplicateResult) io" where
  "classifyDuplicate env js currentTitle currentSummary candidateNumber candidateTitle
       candidateSummary =
     io_catch
       (classifyDuplicate_try env js currentTitle currentSummary candidateNumber candidateTitle
          candidateSummary)
       (\<lambda>error.
        io_return
          \<lparr> classification = JStr ''distinct'',
            confidence = JNum (num_zero js),
            canonical_item = JNull,
            reasoning = JStr ''Classification failed'' \<rparr>)"

text \<open>
  \<^verbatim>\<open>candidates.sort((a, b) => b.similarity - a.similarity)\<close>. The sort of an array is
  stable, and \<^verbatim>\<open>a\<close> goes behind \<^verbatim>\<open>b\<close> when the comparison is positive: each element is
  inserted in front of the sorted elements that followed it, and moves behind the ones
  it compares positive with.
\<close>

fun insert_candidate :: "'n js \<Rightarrow> 'n candidate \<Rightarrow> 'n candidate list \<Rightarrow> 'n candidate list" where
  "insert_candidate js a [] = [a]"
| "insert_candidate js a (b # bs) =
     (if num_lt js (num_zero js) (num_sub js (cand_similarity b) (cand_similarity a))
      then b # insert_candidate js a bs
      else a # b # bs)"

definition sort_candidates :: "'n js \<Rightarrow> 'n candidate list \<Rightarrow> 'n candidate list" where
  "sort_candidates js candidates = foldr (insert_candidate js) candidates []"

text \<open>
  The body of the stateless loop up to the comparison with the threshold (lines 88 to
  97): the summary of the candidate, its embedding, and its similarity to the current
  item.
\<close>

definition candidateSimilarity ::
  "'n env \<Rightarrow> 'n js \<Rightarrow> 'n list \<Rightarrow> 'n tracker_item \<Rightarrow> ('n, 'n ItemSummary \<times> 'n) io" where
  "candidateSimilarity env js currentEmbedding item =
     io_bind (generateSummary env js (item_title item) (string_or (item_body item) [])
                (Some [])) (\<lambda>candidateSummary.
     let candidateText = item_title item @ '' '' @ template js (problem_statement candidateSummary) in
     io_bind (generateEmbedding env candidateText) (\<lambda>candidateEmbedding.
     io_bind (io_lift (calculateCosineSimilarity js currentEmbedding candidateEmbedding))
       (\<lambda>similarity.
     io_return (candidateSummary, similarity))))"

text \<open>The loop \<^verbatim>\<open>for (const item of items)\<close>; \<open>candidates\<close> is the array built so far.\<close>

fun scanItems ::
  "'n env \<Rightarrow> 'n js \<Rightarrow> 'n \<Rightarrow> 'n list \<Rightarrow> 'n \<Rightarrow> 'n tracker_item list \<Rightarrow> 'n candidate list
     \<Rightarrow> ('n, 'n candidate list) io" where
  "scanItems env js itemNumber currentEmbedding similarityThreshold [] candidates =
     io_return candidates"
| "scanItems env js itemNumber currentEmbedding similarityThreshold (item # items) candidates =
     (if num_eq js (item_number item) itemNumber
      then scanItems env js itemNumber currentEmbedding similarityThreshold items candidates
      else
        io_bind (candidateSimilarity env js currentEmbedding item)
          (\<lambda>(candidateSummary, similarity).
        scanItems env js itemNumber currentEmbedding similarityThreshold items
          (if num_ge js similarity similarityThreshold
           then candidates @
                  [\<lparr> cand_number = item_number item,
                     cand_title = item_title item,
                     cand_summary = problem_statement candidateSummary,
                     cand_similarity = similarity \<rparr>]
           else candidates)))"

text \<open>The two ways to find candidates: the store when a connection string is given
  (\<^verbatim>\<open>if (databaseUrl)\<close>, false for the empty string too), the tracker otherwise.\<close>

definition statefulCandidates ::
  "'n env \<Rightarrow> 'n js \<Rightarrow> 'n \<Rightarrow> string \<Rightarrow> ItemType \<Rightarrow> 'n ItemSummary \<Rightarrow> 'n list \<Rightarrow> 'n
     \<Rightarrow> ('n, 'n candidate list) io" where
  "statefulCandidates env js itemNumber itemTitle itemType currentSummary currentEmbedding
       maxCandidates =
     io_bind (io_lift (context_repo env)) (\<lambda>(owner, repo_name).
     io_bind (storeSimilarityItem env js
                \<lparr> si_repo = owner @ ''/'' @ repo_name,
                  si_github_id = ToString js (JNum itemNumber),
                  si_type = itemType,
                  si_title = itemTitle,
                  si_summary = problem_statement currentSummary,
                  si_embedding = JArr (map JNum currentEmbedding),
                  si_closed = False,
                  si_similarity = None \<rparr>) (\<lambda>_.
     io_bind (findSimilarItems env js currentEmbedding (owner @ ''/'' @ repo_name) itemType
                maxCandidates) (\<lambda>similarItems.
     io_return
       (map (\<lambda>item.
               \<lparr> cand_number = parseInt js (si_github_id item),
                 cand_title = si_title item,
                 cand_summary = si_summary item,
                 cand_similarity =
                   (case si_similarity item of
                      None \<Rightarrow> num_zero js
                    | Some s \<Rightarrow> if num_truthy js s then s else num_zero js) \<rparr>)
          (filter (\<lambda>item. si_github_id item \<noteq> ToString js (JNum itemNumber)) similarItems)))))"

definition statelessCandidates ::
  "'n env \<Rightarrow> 'n js \<Rightarrow> 'n \<Rightarrow> ItemType \<Rightarrow> 'n list \<Rightarrow> 'n \<Rightarrow> 'n \<Rightarrow> ('n, 'n candidate list) io" where
  "statelessCandidates env js itemNumber itemType currentEmbedding maxCandidates
       similarityThreshold =
     io_bind (case itemType of
                Issue \<Rightarrow> getRecentIssues env maxCandidates
              | PR \<Rightarrow> getRecentPullRequests env maxCandidates) (\<lambda>items.
     scanItems env js itemNumber currentEmbedding similarityThreshold items [])"

text \<open>The block of the \<^verbatim>\<open>try\<close> of \<^verbatim>\<open>detectDuplicates\<close> (lines 28 to 130), then the function:
  the block, with its \<^verbatim>\<open>catch\<close> that returns \<^verbatim>\<open>null\<close>. \<^verbatim>\<open>getDatabase\<close> only keeps the pool
  of connections and has no part in the result.\<close>

definition detectDuplicates_try ::
  "'n env \<Rightarrow> 'n js \<Rightarrow> 'n \<Rightarrow> string \<Rightarrow> string \<Rightarrow> ItemType \<Rightarrow> string list \<Rightarrow> 'n \<Rightarrow> 'n
     \<Rightarrow> string option \<Rightarrow> ('n, 'n DuplicateResult option) io" where
  "detectDuplicates_try env js itemNumber itemTitle itemBody itemType files maxCandidates
       similarityThreshold databaseUrl =
     io_bind (generateSummary env js itemTitle itemBody (Some files)) (\<lambda>currentSummary.
     let summaryText = itemTitle @ '' '' @ template js (problem_statement currentSummary) in
     io_bind (generateEmbedding env summaryText) (\<lambda>currentEmbedding.
     io_bind (if string_truthy databaseUrl
              then statefulCandidates env js itemNumber itemTitle itemType currentSummary
                     currentEmbedding maxCandidates
              else statelessCandidates env js itemNumber itemType currentEmbedding
                     maxCandidates similarityThreshold) (\<lambda>candidates.
     let candidates = sort_candidates js candidates in
     (case candidates of
        [] \<Rightarrow> io_return None
      | topCandidate # _ \<Rightarrow>
          io_bind (classifyDuplicate env js itemTitle (problem_statement currentSummary)
                     (cand_number topCandidate) (cand_title topCandidate)
                     (cand_summary topCandidate)) (\<lambda>result.
          io_return (Some result))))))"

definition detectDuplicates ::
  "'n env \<Rightarrow> 'n js \<Rightarrow> 'n \<Rightarrow> string \<Rightarrow> string \<Rightarrow> ItemType \<Rightarrow> string list \<Rightarrow> 'n \<Rightarrow> 'n
     \<Rightarrow> string option \<Rightarrow> ('n, 'n DuplicateResult option) io" where
  "detectDuplicates env js itemNumber itemTitle itemBody itemType files maxCandidates
       similarityThreshold databaseUrl =
     io_catch
       (detectDuplicates_try env js itemNumber itemTitle itemBody itemType files maxCandidates
          similarityThreshold databaseUrl)
       (\<lambda>error. io_return None)"

section \<open>Notions used in the statements\<close>

text \<open>A call of the chat endpoint made by \<^verbatim>\<open>classifyDuplicate\<close>: the only one with its
  system message.\<close>

definition is_classify_call :: "'n request \<Rightarrow> bool" where
  "is_classify_call request =
     (case request of
        ChatCompletion system user \<Rightarrow> system = duplicateSystemMessage
      | _ \<Rightarrow> False)"

text \<open>A call of the embedding endpoint that fails.\<close>

definition embedding_failed :: "'n env \<Rightarrow> 'n request \<Rightarrow> bool" where
  "embedding_failed env request =
     (case request of
        EmbeddingsCreate input \<Rightarrow>
          (case embeddings_create env input of Inl e \<Rightarrow> True | Inr data \<Rightarrow> False)
      | _ \<Rightarrow> False)"

text \<open>A computation that adds no call with the property \<open>P\<close> to the log, and one that
  has added none when it returns a value.\<close>

definition silent :: "('n request \<Rightarrow> bool) \<Rightarrow> ('n, 'a) io \<Rightarrow> bool" where
  "silent P m = (\<forall>calls. \<forall>request \<in> set (snd (m calls)). P request \<longrightarrow> request \<in> set calls)"

definition silent_on_return :: "('n request \<Rightarrow> bool) \<Rightarrow> ('n, 'a) io \<Rightarrow> bool" where
  "silent_on_return P m =
     (\<forall>calls x calls'. m calls = (Inr x, calls') \<longrightarrow>
        (\<forall>request \<in> set calls'. P request \<longrightarrow> request \<in> set calls))"

section \<open>Two arithmetics\<close>

text \<open>
  The exact arithmetic of the real numbers, as a property of a runtime, and the laws of
  zero that the exact arithmetic and the arithmetic of doubles share.
\<close>

definition exact_arithmetic :: "real js \<Rightarrow> bool" where
  "exact_arithmetic js =
     (num_zero js = 0 \<and> num_add js = (+) \<and> num_mul js = (*) \<and> num_div js = (/)
      \<and> num_sqrt js = sqrt \<and> num_eq js = (=))"

definition zero_laws :: "'n js \<Rightarrow> bool" where
  "zero_laws js =
     (num_mul js (num_zero js) (num_zero js) = num_zero js
      \<and> num_add js (num_zero js) (num_zero js) = num_zero js
      \<and> num_sqrt js (num_zero js) = num_zero js
      \<and> num_eq js (num_zero js) (num_zero js))"

text \<open>
  The arithmetic of the code, on finite values: every operation returns the exact result
  rounded by \<open>round_to_double\<close>.
\<close>

definition double_js :: "real js" where
  "double_js =
     \<lparr> num_zero = 0,
       num_add = (\<lambda>x y. round_to_double (x + y)),
       num_sub = (\<lambda>x y. round_to_double (x - y)),
       num_mul = (\<lambda>x y. round_to_double (x * y)),
       num_div = (\<lambda>x y. round_to_double (x / y)),
       num_sqrt = (\<lambda>x. round_to_double (sqrt x)),
       num_eq = (=), num_ge = (\<ge>), num_lt = (<),
       num_truthy = (\<lambda>x. x \<noteq> 0), parseInt = (\<lambda>s. 0),
       JSON_parse = (\<lambda>s. Inl SyntaxError), ToString = (\<lambda>v. []) \<rparr>"

text \<open>
  The vectors for which the tolerance of the similarity is stated: at most \<open>2\<^sup>2\<^sup>0\<close>
  doubles, each zero or of magnitude between \<open>2\<^sup>-\<^sup>2\<^sup>0\<^sup>0\<close> and \<open>2\<^sup>2\<^sup>0\<^sup>0\<close>. On two such
  vectors no operation of \<^verbatim>\<open>calculateCosineSimilarity\<close> leaves the normal range, so that
  \<open>double_js\<close> computes what the machine computes: a product that is not zero has a
  magnitude between \<open>2\<^sup>-\<^sup>4\<^sup>0\<^sup>0\<close> and \<open>2\<^sup>4\<^sup>0\<^sup>0\<close> and is, once rounded, a multiple of
  \<open>2\<^sup>-\<^sup>4\<^sup>5\<^sup>2\<close>; a partial sum is then a multiple of \<open>2\<^sup>-\<^sup>4\<^sup>5\<^sup>2\<close> below \<open>2\<^sup>4\<^sup>2\<^sup>1\<close>, zero or at
  least \<open>2\<^sup>-\<^sup>4\<^sup>5\<^sup>2\<close> in magnitude; a norm that is not zero lies between \<open>2\<^sup>-\<^sup>2\<^sup>0\<^sup>0\<close> and
  \<open>2\<^sup>2\<^sup>1\<^sup>1\<close>; and a quotient that is not zero is at least \<open>2\<^sup>-\<^sup>8\<^sup>7\<^sup>5\<close> in magnitude. Outside
  these bounds the machine leaves the normal range: for the vector \<open>[10\<^sup>2\<^sup>0\<^sup>0]\<close> the
  squares overflow and the result is \<^verbatim>\<open>NaN\<close>, for \<open>[10\<^sup>-\<^sup>2\<^sup>0\<^sup>0]\<close> they underflow to zero
  and the result is 0.
\<close>

definition normal_range :: "real list \<Rightarrow> bool" where
  "normal_range v =
     (length v \<le> 2 ^ 20
      \<and> list_all (\<lambda>x. round_to_double x = x \<and> (x = 0 \<or> (1 / 2 ^ 200 \<le> \<bar>x\<bar> \<and> \<bar>x\<bar> \<le> 2 ^ 200))) v)"

section \<open>A concrete runtime and four environments, to run the definitions\<close>

text \<open>
  In \<open>example_js\<close> numbers are real numbers with exact arithmetic; as in \<open>double_js\<close>,
  the parser rejects every text and converting a value to a string gives the empty
  string. In \<open>unreachable_env\<close> every
  service fails; \<open>garbled_env\<close> differs in the chat endpoint, which answers with one
  choice whose content is the text \<^verbatim>\<open>not json\<close>. In \<open>example_env\<close> the chat endpoint fails (so each summary is the one
  built from the title), the embedding of the text \<^verbatim>\<open>Login fails Login fails\<close> is the
  vector \<open>[1]\<close> and that of any other text is \<open>[-1]\<close>, and the tracker lists one issue,
  number 12. \<open>flaky_env\<close> is \<open>example_env\<close> with an embedding endpoint that fails for
  every text but \<^verbatim>\<open>Login fails Login fails\<close>.
\<close>

definition example_js :: "real js" where
  "example_js =
     \<lparr> num_zero = 0, num_add = (+), num_sub = (-), num_mul = (*), num_div = (/),
       num_sqrt = sqrt, num_eq = (=), num_ge = (\<ge>), num_lt = (<),
       num_truthy = (\<lambda>x. x \<noteq> 0), parseInt = (\<lambda>s. 0),
       JSON_parse = (\<lambda>s. Inl SyntaxError), ToString = (\<lambda>v. []) \<rparr>"

definition unreachable_env :: "real env" where
  "unreachable_env =
     \<lparr> chat_completions_create = (\<lambda>system user. Inl (ServiceError ''unreachable'')),
       embeddings_create = (\<lambda>text. Inl (ServiceError ''unreachable'')),
       context_repo = Inr (''owner'', ''repo''),
       issues_listForRepo = (\<lambda>owner repo_name n. Inl (ServiceError ''unreachable'')),
       pulls_list = (\<lambda>owner repo_name n. Inl (ServiceError ''unreachable'')),
       db_upsert = (\<lambda>item text. Inl (ServiceError ''unreachable'')),
       db_select = (\<lambda>text repo_name t n. Inl (ServiceError ''unreachable'')),
       formatSummaryPrompt = (\<lambda>title body files. title),
       formatDuplicatePrompt = (\<lambda>currentTitle currentSummary n candidateTitle candidateSummary.
                                  currentTitle) \<rparr>"

definition garbled_env :: "real env" where
  "garbled_env =
     unreachable_env \<lparr> chat_completions_create := (\<lambda>system user. Inr [Some ''not json'']) \<rparr>"

definition example_env :: "real env" where
  "example_env =
     unreachable_env
       \<lparr> embeddings_create :=
           (\<lambda>text. if text = ''Login fails Login fails'' then Inr [[1]] else Inr [[- 1]]),
         issues_listForRepo :=
           (\<lambda>owner repo_name n.
              Inr [\<lparr> item_number = 12, item_title = ''Dark mode'', item_body = None,
                     item_is_pull_request = False \<rparr>]) \<rparr>"

definition flaky_env :: "real env" where
  "flaky_env =
     example_env
       \<lparr> embeddings_create :=
           (\<lambda>text. if text = ''Login fails Login fails'' then Inr [[1]]
                   else Inl (ServiceError ''unreachable'')) \<rparr>"



section \<open>Properties of the rounding\<close>

text \<open>
  Rounding to the nearest integer and to the nearest double: the error, the order, the
  sign, and the values that are not changed.
\<close>

lemma round_half_even_error: "\<bar>of_int (round_half_even y) - y\<bar> \<le> 1 / 2"
  unfolding round_half_even_def Let_def by (auto simp: abs_le_iff)

lemma round_half_even_of_int: "round_half_even (of_int k) = k"
  by (simp add: round_half_even_def)

lemma round_half_even_mono:
  assumes "y \<le> z"
  shows "round_half_even y \<le> round_half_even z"
proof -
  have fl: "\<lfloor>y\<rfloor> \<le> \<lfloor>z\<rfloor>" using assms by (rule floor_mono)
  have up: "round_half_even y \<le> \<lfloor>y\<rfloor> + 1"
    by (simp add: round_half_even_def Let_def)
  have lo: "\<lfloor>z\<rfloor> \<le> round_half_even z"
    by (simp add: round_half_even_def Let_def)
  show ?thesis
  proof (cases "\<lfloor>y\<rfloor> = \<lfloor>z\<rfloor>")
    case True
    then show ?thesis using assms unfolding round_half_even_def Let_def by auto
  next
    case False
    with fl have "\<lfloor>y\<rfloor> + 1 \<le> \<lfloor>z\<rfloor>" by simp
    with up lo show ?thesis by linarith
  qed
qed

lemma round_half_even_minus: "round_half_even (- y) = - round_half_even y"
proof (cases "y = of_int \<lfloor>y\<rfloor>")
  case True
  then obtain k where "y = of_int k" ..
  then have "- y = of_int (- k)" by simp
  then show ?thesis using \<open>y = of_int k\<close> by (simp only: round_half_even_of_int)
next
  case False
  then have lt: "of_int \<lfloor>y\<rfloor> < y" using of_int_floor_le [of y] by (auto simp: less_le)
  have "\<lfloor>- y\<rfloor> = - \<lfloor>y\<rfloor> - 1"
    using lt by (simp add: floor_eq_iff) linarith
  then show ?thesis using lt unfolding round_half_even_def Let_def by auto
qed

lemma round_to_double_binade:
  assumes "x \<noteq> 0"
  shows "2 powr of_int \<lfloor>log 2 \<bar>x\<bar>\<rfloor> \<le> \<bar>x\<bar>"
    and "\<bar>x\<bar> < 2 powr of_int (\<lfloor>log 2 \<bar>x\<bar>\<rfloor> + 1)"
proof -
  have "0 < \<bar>x\<bar>" using assms by simp
  then have "2 powr of_int \<lfloor>log 2 \<bar>x\<bar>\<rfloor> \<le> \<bar>x\<bar>
      \<and> \<bar>x\<bar> < 2 powr of_int (\<lfloor>log 2 \<bar>x\<bar>\<rfloor> + 1)"
    using floor_log_eq_powr_iff [of "\<bar>x\<bar>" 2 "\<lfloor>log 2 \<bar>x\<bar>\<rfloor>"] by simp
  then show "2 powr of_int \<lfloor>log 2 \<bar>x\<bar>\<rfloor> \<le> \<bar>x\<bar>"
    and "\<bar>x\<bar> < 2 powr of_int (\<lfloor>log 2 \<bar>x\<bar>\<rfloor> + 1)" by blast+
qed

lemma round_to_double_error: "\<bar>round_to_double x - x\<bar> \<le> \<bar>x\<bar> / 2 ^ 53"
proof (cases "x = 0")
  case True
  then show ?thesis by (simp add: round_to_double_def)
next
  case False
  define e where "e = \<lfloor>log 2 \<bar>x\<bar>\<rfloor>"
  define ulp :: real where "ulp = 2 powr (of_int e - 52)"
  have pos: "0 < ulp" by (simp add: ulp_def)
  have r: "round_to_double x = ulp * of_int (round_half_even (x / ulp))"
    using False by (simp add: round_to_double_def Let_def e_def ulp_def)
  have "round_to_double x - x = ulp * (of_int (round_half_even (x / ulp)) - x / ulp)"
    using pos by (simp add: r algebra_simps)
  then have "\<bar>round_to_double x - x\<bar> = ulp * \<bar>of_int (round_half_even (x / ulp)) - x / ulp\<bar>"
    using pos by (simp add: abs_mult)
  also have "\<dots> \<le> ulp * (1 / 2)"
    using pos round_half_even_error by (intro mult_left_mono) simp_all
  also have "ulp * (1 / 2) = 2 powr of_int e / 2 ^ 53"
    by (simp add: ulp_def powr_diff)
  also have "\<dots> \<le> \<bar>x\<bar> / 2 ^ 53"
    using round_to_double_binade(1) [OF False] by (simp add: e_def divide_right_mono)
  finally show ?thesis .
qed

lemma round_to_double_minus: "round_to_double (- x) = - round_to_double x"
  by (simp add: round_to_double_def Let_def round_half_even_minus)

lemma round_to_double_lower:
  assumes "0 \<le> x"
  shows "x * (1 - 1 / 2 ^ 53) \<le> round_to_double x"
proof -
  have "\<bar>round_to_double x - x\<bar> \<le> x / 2 ^ 53"
    using round_to_double_error [of x] assms by simp
  then have "x - x / 2 ^ 53 \<le> round_to_double x" by linarith
  then show ?thesis by (simp add: algebra_simps)
qed

lemma round_to_double_upper:
  assumes "0 \<le> x"
  shows "round_to_double x \<le> x * (1 + 1 / 2 ^ 53)"
proof -
  have "\<bar>round_to_double x - x\<bar> \<le> x / 2 ^ 53"
    using round_to_double_error [of x] assms by simp
  then have "round_to_double x \<le> x + x / 2 ^ 53" by linarith
  then show ?thesis by (simp add: algebra_simps)
qed

lemma round_to_double_nonneg: "0 \<le> x \<Longrightarrow> 0 \<le> round_to_double x"
  using round_to_double_lower [of x] by (simp add: zero_le_mult_iff order_trans [rotated])

lemma round_to_double_pos:
  assumes "0 < x"
  shows "0 < round_to_double x"
proof -
  have "0 < x * (1 - 1 / 2 ^ 53)" using assms by simp
  also have "\<dots> \<le> round_to_double x" using assms by (intro round_to_double_lower) simp
  finally show ?thesis .
qed

lemma round_to_double_pos_bounds:
  assumes "0 < x"
  shows "2 powr of_int \<lfloor>log 2 x\<rfloor> \<le> round_to_double x"
    and "round_to_double x \<le> 2 powr of_int (\<lfloor>log 2 x\<rfloor> + 1)"
proof -
  define e where "e = \<lfloor>log 2 x\<rfloor>"
  define ulp :: real where "ulp = 2 powr (of_int e - 52)"
  have pos: "0 < ulp" by (simp add: ulp_def)
  have nz: "x \<noteq> 0" and ax: "\<bar>x\<bar> = x" using assms by simp_all
  have r: "round_to_double x = ulp * of_int (round_half_even (x / ulp))"
    using nz ax by (simp add: round_to_double_def Let_def e_def ulp_def)
  have lo: "2 powr of_int e = ulp * 2 ^ 52" and hi: "2 powr of_int (e + 1) = ulp * 2 ^ 53"
    by (simp_all add: ulp_def powr_diff powr_add)
  from round_to_double_binade [OF nz] have "ulp * 2 ^ 52 \<le> x" "x < ulp * 2 ^ 53"
    unfolding ax lo [symmetric] hi [symmetric] e_def by simp_all
  then have "of_int (2 ^ 52) \<le> x / ulp" "x / ulp \<le> of_int (2 ^ 53)"
    using pos by (simp_all add: field_simps)
  then have "round_half_even (of_int (2 ^ 52)) \<le> round_half_even (x / ulp)"
    "round_half_even (x / ulp) \<le> round_half_even (of_int (2 ^ 53))"
    by (simp_all only: round_half_even_mono)
  then have "2 ^ 52 \<le> round_half_even (x / ulp)" "round_half_even (x / ulp) \<le> 2 ^ 53"
    unfolding round_half_even_of_int by simp_all
  then have "(of_int (2 ^ 52) :: real) \<le> of_int (round_half_even (x / ulp))"
    "of_int (round_half_even (x / ulp)) \<le> (of_int (2 ^ 53) :: real)"
    by (simp_all only: of_int_le_iff)
  then have "(2::real) ^ 52 \<le> of_int (round_half_even (x / ulp))"
    "of_int (round_half_even (x / ulp)) \<le> (2::real) ^ 53"
    by simp_all
  then have "ulp * 2 ^ 52 \<le> round_to_double x" "round_to_double x \<le> ulp * 2 ^ 53"
    unfolding r using pos by simp_all
  then show "2 powr of_int \<lfloor>log 2 x\<rfloor> \<le> round_to_double x"
    and "round_to_double x \<le> 2 powr of_int (\<lfloor>log 2 x\<rfloor> + 1)"
    unfolding lo [symmetric] hi [symmetric] e_def by simp_all
qed

lemma round_to_double_mono_pos:
  assumes "0 < x" and "x \<le> y"
  shows "round_to_double x \<le> round_to_double y"
proof -
  have y: "0 < y" using assms by simp
  have le: "\<lfloor>log 2 x\<rfloor> \<le> \<lfloor>log 2 y\<rfloor>"
    using assms by (intro floor_mono) simp
  show ?thesis
  proof (cases "\<lfloor>log 2 x\<rfloor> = \<lfloor>log 2 y\<rfloor>")
    case True
    define ulp :: real where "ulp = 2 powr (of_int \<lfloor>log 2 y\<rfloor> - 52)"
    have pos: "0 < ulp" by (simp add: ulp_def)
    have "x / ulp \<le> y / ulp" using assms pos by (simp add: divide_right_mono)
    then have "round_half_even (x / ulp) \<le> round_half_even (y / ulp)"
      by (rule round_half_even_mono)
    then have "ulp * of_int (round_half_even (x / ulp)) \<le> ulp * of_int (round_half_even (y / ulp))"
      using pos by simp
    then show ?thesis
      using assms y True by (simp add: round_to_double_def Let_def ulp_def)
  next
    case False
    with le have "\<lfloor>log 2 x\<rfloor> + 1 \<le> \<lfloor>log 2 y\<rfloor>" by simp
    then have "(2::real) powr of_int (\<lfloor>log 2 x\<rfloor> + 1) \<le> 2 powr of_int \<lfloor>log 2 y\<rfloor>"
      by (intro powr_mono) simp_all
    with round_to_double_pos_bounds(2) [OF assms(1)] round_to_double_pos_bounds(1) [OF y]
    show ?thesis by linarith
  qed
qed

lemma round_to_double_mono:
  assumes "x \<le> y"
  shows "round_to_double x \<le> round_to_double y"
proof -
  consider "0 < x" | "x \<le> 0" "0 \<le> y" | "y < 0" by linarith
  then show ?thesis
  proof cases
    case 1
    then show ?thesis using assms by (rule round_to_double_mono_pos)
  next
    case 2
    from 2(1) have "0 \<le> round_to_double (- x)" by (intro round_to_double_nonneg) simp
    then have "round_to_double x \<le> 0" by (simp add: round_to_double_minus)
    also have "0 \<le> round_to_double y" using 2(2) by (rule round_to_double_nonneg)
    finally show ?thesis .
  next
    case 3
    then have "0 < - y" "- y \<le> - x" using assms by simp_all
    then have "round_to_double (- y) \<le> round_to_double (- x)" by (rule round_to_double_mono_pos)
    then show ?thesis by (simp add: round_to_double_minus)
  qed
qed

lemma round_to_double_of_int:
  assumes "\<bar>k\<bar> < 2 ^ 53"
  shows "round_to_double (of_int k) = of_int k"
proof (cases "k = 0")
  case True
  then show ?thesis by (simp add: round_to_double_def)
next
  case False
  define x :: real where "x = of_int k"
  define e where "e = \<lfloor>log 2 \<bar>x\<bar>\<rfloor>"
  have nz: "x \<noteq> 0" using False by (simp add: x_def)
  have ax: "\<bar>x\<bar> = of_int \<bar>k\<bar>" by (simp add: x_def)
  have "2 powr of_int e \<le> \<bar>x\<bar>" using round_to_double_binade(1) [OF nz] by (simp add: e_def)
  also have "\<bar>x\<bar> < of_int (2 ^ 53)" unfolding ax using assms by (simp only: of_int_less_iff)
  also have "(of_int (2 ^ 53) :: real) = 2 powr of_int 53" by simp
  finally have "(2::real) powr of_int e < 2 powr of_int 53" .
  then have "of_int e < (of_int 53 :: real)" by (simp only: powr_less_cancel_iff one_less_numeral_iff semiring_norm)
  then have e53: "e \<le> 52" by simp
  have "1 \<le> \<bar>k\<bar>" using False by simp
  then have "(1::real) \<le> \<bar>x\<bar>" unfolding ax by (simp only: of_int_1_le_iff)
  then have "0 \<le> log 2 \<bar>x\<bar>" by simp
  then have e0: "0 \<le> e" by (simp add: e_def)
  define n where "n = nat (52 - e)"
  have en: "real_of_int e - 52 = - real n" using e53 by (simp add: n_def)
  have ulp: "(2::real) powr (real_of_int e - 52) = 1 / 2 ^ n"
    unfolding en by (simp add: powr_minus powr_realpow field_simps)
  have q: "x / (1 / 2 ^ n) = of_int (k * 2 ^ n)" by (simp add: x_def)
  have "round_to_double x = 1 / 2 ^ n * of_int (round_half_even (x / (1 / 2 ^ n)))"
    using nz by (simp add: round_to_double_def Let_def e_def [symmetric] ulp)
  also have "\<dots> = x" unfolding q round_half_even_of_int by (simp add: x_def)
  finally show ?thesis by (simp add: x_def)
qed

lemma round_half_even_eq:
  assumes "of_int m - 1 / 2 < y" and "y < of_int m + 1 / 2"
  shows "round_half_even y = m"
proof (cases "y < of_int m")
  case True
  with assms have "\<lfloor>y\<rfloor> = m - 1" by (simp add: floor_eq_iff)
  with assms show ?thesis by (simp add: round_half_even_def)
next
  case False
  with assms have "\<lfloor>y\<rfloor> = m" by (simp add: floor_eq_iff)
  with assms show ?thesis by (simp add: round_half_even_def)
qed

lemma round_to_double_eq:
  assumes "2 powr of_int e \<le> \<bar>x\<bar>" and "\<bar>x\<bar> < 2 powr of_int (e + 1)"
    and "of_int m - 1 / 2 < x / 2 powr (of_int e - 52)"
    and "x / 2 powr (of_int e - 52) < of_int m + 1 / 2"
  shows "round_to_double x = 2 powr (of_int e - 52) * of_int m"
proof -
  have "0 < (2::real) powr of_int e" by simp
  with assms(1) have nz: "x \<noteq> 0" by auto
  then have "0 < \<bar>x\<bar>" by simp
  then have "\<lfloor>log 2 \<bar>x\<bar>\<rfloor> = e"
    using assms(1,2) by (simp add: floor_log_eq_powr_iff)
  then show ?thesis
    using nz round_half_even_eq [OF assms(3,4)] by (simp add: round_to_double_def Let_def)
qed

section \<open>Properties of the scorer\<close>

text \<open>The running score is the sum of the terms that apply.\<close>

lemma scoreOfFactors_sum:
  "scoreOfFactors f =
     50 + (if truthy (ciPassing f) then 20 else 0) + (if truthy (testsAdded f) then 15 else 0)
        + (if diffSize f < 300 then 10 else 0) + (if descriptionLength f > 300 then 10 else 0)
        - (if truthy (highRiskModules f) then 15 else 0) - (if truthy (hasTests f) then 0 else 20)
        - (if diffSize f > 1000 then 10 else 0)"
  unfolding scoreOfFactors_def Let_def by simp

lemma scoreOfFactors_bounds: "5 \<le> scoreOfFactors f \<and> scoreOfFactors f \<le> 105"
  by (simp add: scoreOfFactors_sum)

text \<open>The literal \<^verbatim>\<open>0.3\<close>.\<close>

lemma double_3_10: "round_to_double (3 / 10) = 5404319552844595 / 2 ^ 54"
proof -
  have u: "(2::real) powr (of_int (- 2) - 52) = 1 / 2 ^ 54"
    by (simp add: powr_minus_divide)
  have v: "(2::real) powr of_int (- 2) = 1 / 4" "(2::real) powr of_int (- 2 + 1) = 1 / 2"
    by (simp_all add: powr_minus_divide)
  show ?thesis
    using round_to_double_eq [of "- 2" "3 / 10" 5404319552844595] unfolding u v by simp
qed

lemma double_3_10_bounds: "0 < round_to_double (3 / 10)" "round_to_double (3 / 10) \<le> 1"
  by (simp_all add: double_3_10)























text \<open>
  C2. With \<^verbatim>\<open>diffSize = 0\<close>, \<^verbatim>\<open>descriptionLength = 0\<close>, every boolean factor false and
  no review result, the claim expects 30. The code returns 40: a diff of 0 lines is a
  small diff (\<^verbatim>\<open>diffSize < 300\<close>) and earns 10 points, so the score is
  \<open>50 + 10 - 20\<close>.
\<close>

theorem calculateScore_all_false_counterexample:
  "calculateScore \<lparr> ciPassing = Some False, testsAdded = Some False, diffSize = 0,
       descriptionLength = 0, highRiskModules = Some False, hasTests = Some False \<rparr> None
     \<noteq> Num 30"
  by (simp add: calculateScore_def scoreBeforeClamp_def scoreOfFactors_def truthy_def)

text \<open>
  C2, amended. With \<^verbatim>\<open>diffSize = 0\<close>, \<^verbatim>\<open>descriptionLength = 0\<close>, every boolean factor
  false (or absent) and no review result, \<^verbatim>\<open>calculateScore\<close> returns 40:
  50, plus 10 for the small diff, minus 20 for the missing tests.
\<close>

theorem calculateScore_all_false:
  "calculateScore \<lparr> ciPassing = Some False, testsAdded = Some False, diffSize = 0,
       descriptionLength = 0, highRiskModules = Some False, hasTests = Some False \<rparr> None
     = Num 40
   \<and> calculateScore \<lparr> ciPassing = None, testsAdded = None, diffSize = 0,
       descriptionLength = 0, highRiskModules = None, hasTests = None \<rparr> None
     = Num 40"
  by (simp add: calculateScore_def scoreBeforeClamp_def scoreOfFactors_def truthy_def)




subsection \<open>Test detection\<close>

lemma starts_with_iff: "starts_with p s \<longleftrightarrow> (\<exists>v. s = p @ v)"
  by (induction p s rule: starts_with.induct) auto

lemma regex_test_iff: "regex_test p s \<longleftrightarrow> (\<exists>u v. s = u @ p @ v)"
proof (induction s)
  case Nil
  then show ?case by (simp add: starts_with_iff)
next
  case (Cons c cs)
  show ?case
  proof
    assume "regex_test p (c # cs)"
    then consider "starts_with p (c # cs)" | "regex_test p cs" by auto
    then show "\<exists>u v. c # cs = u @ p @ v"
    proof cases
      case 1
      then obtain v where "c # cs = p @ v" by (auto simp: starts_with_iff)
      then have "c # cs = [] @ p @ v" by simp
      then show ?thesis by blast
    next
      case 2
      then obtain u v where "cs = u @ p @ v" using Cons.IH by blast
      then have "c # cs = (c # u) @ p @ v" by simp
      then show ?thesis by blast
    qed
  next
    assume "\<exists>u v. c # cs = u @ p @ v"
    then obtain u v where uv: "c # cs = u @ p @ v" by blast
    show "regex_test p (c # cs)"
    proof (cases u)
      case Nil
      with uv have "starts_with p (c # cs)" by (auto simp: starts_with_iff)
      then show ?thesis by simp
    next
      case (Cons a u')
      with uv have "cs = u' @ p @ v" by simp
      then have "regex_test p cs" using Cons.IH by blast
      then show ?thesis by simp
    qed
  qed
qed

lemma anyPattern_iff: "anyPattern test ps file \<longleftrightarrow> (\<exists>p \<in> set ps. test p file)"
  by (induction ps) auto

lemma detectTests_iff:
  "detectTests files \<longleftrightarrow> (\<exists>file \<in> set files. anyPattern regex_test testPatterns file)"
  by (induction files) auto

lemma split_on_not_Nil: "split_on d s \<noteq> []"
  by (induction s) (auto split: list.splits)

text \<open>The first component of a path with more than one component ends at a separator.\<close>

lemma split_on_head: "split_on d s = w # ws \<Longrightarrow> ws \<noteq> [] \<Longrightarrow> \<exists>v. s = w @ d # v"
proof (induction s arbitrary: w ws)
  case Nil
  then show ?case by simp
next
  case (Cons c cs)
  show ?case
  proof (cases "c = d")
    case True
    with Cons.prems show ?thesis by auto
  next
    case False
    obtain w' ws' where s: "split_on d cs = w' # ws'"
      using split_on_not_Nil by (cases "split_on d cs") auto
    with False Cons.prems have "w = c # w'" "ws = ws'" by auto
    with Cons.IH [OF s] Cons.prems(2) obtain v where "cs = w' @ d # v" by blast
    with \<open>w = c # w'\<close> show ?thesis by simp
  qed
qed

text \<open>Every component but the last is in the path, followed by a separator.\<close>

lemma directory_segment_substring:
  "seg \<in> set (butlast (split_on d s)) \<Longrightarrow> \<exists>u v. s = u @ seg @ d # v"
proof (induction s arbitrary: seg)
  case Nil
  then show ?case by simp
next
  case (Cons c cs)
  obtain w ws where s: "split_on d cs = w # ws"
    using split_on_not_Nil by (cases "split_on d cs") auto
  show ?case
  proof (cases "c = d")
    case True
    with Cons.prems s have "seg = [] \<or> seg \<in> set (butlast (split_on d cs))" by auto
    then show ?thesis
    proof
      assume "seg = []"
      with True have "c # cs = [] @ seg @ d # cs" by simp
      then show ?thesis by blast
    next
      assume "seg \<in> set (butlast (split_on d cs))"
      then obtain u v where "cs = u @ seg @ d # v" using Cons.IH by blast
      then have "c # cs = (c # u) @ seg @ d # v" by simp
      then show ?thesis by blast
    qed
  next
    case False
    with Cons.prems s have m: "seg \<in> set (butlast ((c # w) # ws))" by simp
    then have ne: "ws \<noteq> []" by auto
    with m have "seg = c # w \<or> seg \<in> set (butlast ws)" by auto
    then show ?thesis
    proof
      assume "seg = c # w"
      moreover obtain v where "cs = w @ d # v" using split_on_head [OF s ne] by blast
      ultimately have "c # cs = [] @ seg @ d # v" by simp
      then show ?thesis by blast
    next
      assume "seg \<in> set (butlast ws)"
      with s ne have "seg \<in> set (butlast (split_on d cs))" by simp
      then obtain u v where "cs = u @ seg @ d # v" using Cons.IH by blast
      then have "c # cs = (c # u) @ seg @ d # v" by simp
      then show ?thesis by blast
    qed
  qed
qed

lemma spec_testLike_matches:
  assumes "spec_testLike path"
  shows "anyPattern regex_test testPatterns path"
proof -
  have dir: "regex_test (seg @ ''/'') path" if "seg \<in> set (directory_segments path)" for seg
  proof -
    from that obtain u v where "path = u @ seg @ CHR ''/'' # v"
      unfolding directory_segments_def using directory_segment_substring by blast
    then have "path = u @ (seg @ ''/'') @ v" by simp
    then show ?thesis unfolding regex_test_iff by blast
  qed
  from assms consider "regex_test ''.test.'' path" | "regex_test ''.spec.'' path"
    | seg where "seg \<in> set (directory_segments path)"
        "seg = ''test'' \<or> seg = ''tests'' \<or> seg = ''spec''"
    unfolding spec_testLike_def list_ex_iff by blast
  then show ?thesis
  proof cases
    case 1
    then show ?thesis by (simp add: testPatterns_def)
  next
    case 2
    then show ?thesis by (simp add: testPatterns_def)
  next
    case 3
    from dir [OF 3(1)] 3(2) show ?thesis by (auto simp: testPatterns_def)
  qed
qed

text \<open>
  A readiness score of magnitude up to \<open>2\<^sup>5\<^sup>0\<close> gives an integer adjustment that is added
  to the running score exactly.
\<close>

lemma round_to_double_bounded:
  assumes "\<bar>y\<bar> \<le> of_int b" and "\<bar>b\<bar> < 2 ^ 53"
  shows "\<bar>round_to_double y\<bar> \<le> of_int b"
proof -
  have "round_to_double (of_int (- b)) \<le> round_to_double y"
    using assms(1) by (intro round_to_double_mono) simp
  moreover have "round_to_double y \<le> round_to_double (of_int b)"
    using assms(1) by (intro round_to_double_mono) simp
  moreover have "round_to_double (of_int (- b)) = of_int (- b)"
    using assms(2) by (intro round_to_double_of_int) simp
  moreover have "round_to_double (of_int b) = of_int b"
    using assms(2) by (rule round_to_double_of_int)
  ultimately show ?thesis by simp
qed

lemma llmAdjustment_moderate:
  assumes "\<bar>x\<bar> \<le> 2 ^ 50"
  shows "\<exists>m. llmAdjustment (Num x) = Num (of_int m) \<and> \<bar>m\<bar> \<le> 2 ^ 50 + 50"
proof -
  define b :: int where "b = 2 ^ 50 + 50"
  define c where "c = round_to_double (3 / 10)"
  define y where "y = round_to_double (x - 50)"
  define z where "z = round_to_double (y * c)"
  have b: "\<bar>b\<bar> < 2 ^ 53" by (simp add: b_def)
  have c: "0 < c" "c \<le> 1" unfolding c_def by (rule double_3_10_bounds)+
  have "\<bar>x - 50\<bar> \<le> of_int b" using assms by (simp add: b_def)
  then have y: "\<bar>y\<bar> \<le> of_int b" unfolding y_def using b by (rule round_to_double_bounded)
  have "\<bar>y * c\<bar> = \<bar>y\<bar> * c" using c by (simp add: abs_mult)
  also have "\<dots> \<le> \<bar>y\<bar> * 1" using c by (intro mult_left_mono) simp_all
  finally have "\<bar>y * c\<bar> \<le> of_int b" using y by simp
  then have z: "\<bar>z\<bar> \<le> of_int b" unfolding z_def using b by (rule round_to_double_bounded)
  then have "of_int (- b) \<le> z" "z \<le> of_int b" by simp_all
  then have "round (of_int (- b) :: real) \<le> round z" "round z \<le> round (of_int b :: real)"
    by (simp_all only: round_mono)
  then have "\<bar>round z\<bar> \<le> b" unfolding round_of_int by simp
  moreover have "llmAdjustment (Num x) = Num (of_int (round z))"
    by (simp add: llmAdjustment_def z_def y_def c_def)
  ultimately show ?thesis unfolding b_def by blast
qed

lemma scoreBeforeClamp_moderate:
  assumes "\<forall>r. reviewResult = Some r \<longrightarrow> (\<exists>x. readiness_score r = Num x \<and> \<bar>x\<bar> \<le> 2 ^ 50)"
  shows "\<exists>m. \<forall>f. scoreBeforeClamp f reviewResult = Num (of_int (scoreOfFactors f + m))"
proof (cases reviewResult)
  case None
  then have "\<forall>f. scoreBeforeClamp f reviewResult = Num (of_int (scoreOfFactors f + 0))"
    by (simp add: scoreBeforeClamp_def)
  then show ?thesis ..
next
  case (Some r)
  with assms obtain x where x: "readiness_score r = Num x" "\<bar>x\<bar> \<le> 2 ^ 50" by blast
  from llmAdjustment_moderate [OF x(2)] obtain m
    where m: "llmAdjustment (Num x) = Num (of_int m)" "\<bar>m\<bar> \<le> 2 ^ 50 + 50" by blast
  have "scoreBeforeClamp f reviewResult = Num (of_int (scoreOfFactors f + m))" for f
  proof -
    have "\<bar>scoreOfFactors f + m\<bar> < 2 ^ 53"
      using scoreOfFactors_bounds [of f] m(2) by (simp add: abs_le_iff abs_less_iff)
    then have "round_to_double (of_int (scoreOfFactors f + m)) = of_int (scoreOfFactors f + m)"
      by (rule round_to_double_of_int)
    then show ?thesis
      using Some x(1) m(1) by (simp add: scoreBeforeClamp_def)
  qed
  then show ?thesis by blast
qed

lemma scoreOfFactors_hasTests:
  "scoreOfFactors factors =
     scoreOfFactors (factors\<lparr>hasTests := Some True\<rparr>)
       - (if truthy (hasTests factors) then 0 else 20)"
  by (simp add: scoreOfFactors_sum truthy_def)

lemma scoreBeforeClamp_hasTests:
  assumes "\<forall>r. reviewResult = Some r \<longrightarrow> (\<exists>x. readiness_score r = Num x \<and> \<bar>x\<bar> \<le> 2 ^ 50)"
  shows "\<exists>t. scoreBeforeClamp (factors\<lparr>hasTests := Some True\<rparr>) reviewResult = Num t
           \<and> scoreBeforeClamp factors reviewResult
               = Num (t - (if truthy (hasTests factors) then 0 else 20))"
proof -
  from scoreBeforeClamp_moderate [OF assms] obtain m
    where m: "\<And>f. scoreBeforeClamp f reviewResult = Num (of_int (scoreOfFactors f + m))"
    by blast
  have "scoreBeforeClamp factors reviewResult
      = Num (of_int (scoreOfFactors (factors\<lparr>hasTests := Some True\<rparr>) + m)
             - (if truthy (hasTests factors) then 0 else 20))"
    unfolding m by (subst scoreOfFactors_hasTests) simp
  with m [of "factors\<lparr>hasTests := Some True\<rparr>"] show ?thesis by blast
qed

text \<open>
  C4. The claim says that \<^verbatim>\<open>detectTests\<close> is true exactly for the paths that contain
  \<^verbatim>\<open>.test.\<close> or \<^verbatim>\<open>.spec.\<close> or have a directory segment named \<^verbatim>\<open>test\<close>, \<^verbatim>\<open>tests\<close> or
  \<^verbatim>\<open>spec\<close>. The code has a pattern for the directory \<^verbatim>\<open>__tests__\<close> too:
  \<^verbatim>\<open>src/__tests__/foo.js\<close> is detected, and is no test-like path in the words of the
  specification.
\<close>

theorem detectTests_segments_counterexample:
  "detectTests [''src/__tests__/foo.js''] \<and> \<not> spec_detectTests [''src/__tests__/foo.js'']"
  by (simp add: testPatterns_def spec_detectTests_def spec_testLike_def directory_segments_def)

text \<open>
  C4, amended. \<^verbatim>\<open>detectTests(files)\<close> is true if and only if some path in \<^verbatim>\<open>files\<close>
  contains one of the six patterns \<^verbatim>\<open>.test.\<close>, \<^verbatim>\<open>.spec.\<close>, \<^verbatim>\<open>__tests__/\<close>, \<^verbatim>\<open>test/\<close>,
  \<^verbatim>\<open>tests/\<close>, \<^verbatim>\<open>spec/\<close> as a substring; a path that is test-like in the words of the
  specification is detected. \<^verbatim>\<open>calculateScore\<close> subtracts 20 from the running score
  exactly when its factor \<^verbatim>\<open>hasTests\<close> is not true, and \<^verbatim>\<open>run\<close> sets that factor to
  \<^verbatim>\<open>detectTests(fileNames)\<close>. The score before the clamp is lower by 20 as well, when
  there is no review result or its readiness score is a finite number of magnitude up
  to \<open>2\<^sup>5\<^sup>0\<close> (the adjustment is then added exactly).
\<close>

theorem detectTests_substring:
  "(detectTests files \<longleftrightarrow>
      (\<exists>file \<in> set files. \<exists>pattern \<in> set testPatterns. \<exists>u v. file = u @ pattern @ v))
   \<and> (spec_detectTests files \<longrightarrow> detectTests files)
   \<and> scoreOfFactors factors =
       scoreOfFactors (factors\<lparr>hasTests := Some True\<rparr>)
         - (if truthy (hasTests factors) then 0 else 20)
   \<and> ((\<forall>r. reviewResult = Some r \<longrightarrow> (\<exists>x. readiness_score r = Num x \<and> \<bar>x\<bar> \<le> 2 ^ 50)) \<longrightarrow>
        (\<exists>t. scoreBeforeClamp (factors\<lparr>hasTests := Some True\<rparr>) reviewResult = Num t
           \<and> scoreBeforeClamp factors reviewResult
               = Num (t - (if truthy (hasTests factors) then 0 else 20))))
   \<and> hasTests (run_factors files additions deletions bodyLength) = Some (detectTests files)"
proof (intro conjI)
  show "detectTests files \<longleftrightarrow>
      (\<exists>file \<in> set files. \<exists>pattern \<in> set testPatterns. \<exists>u v. file = u @ pattern @ v)"
    by (simp add: detectTests_iff anyPattern_iff regex_test_iff)
  show "spec_detectTests files \<longrightarrow> detectTests files"
    unfolding spec_detectTests_def list_ex_iff detectTests_iff
    using spec_testLike_matches by blast
  show "scoreOfFactors factors =
       scoreOfFactors (factors\<lparr>hasTests := Some True\<rparr>)
         - (if truthy (hasTests factors) then 0 else 20)"
    by (rule scoreOfFactors_hasTests)
  show "(\<forall>r. reviewResult = Some r \<longrightarrow> (\<exists>x. readiness_score r = Num x \<and> \<bar>x\<bar> \<le> 2 ^ 50)) \<longrightarrow>
        (\<exists>t. scoreBeforeClamp (factors\<lparr>hasTests := Some True\<rparr>) reviewResult = Num t
           \<and> scoreBeforeClamp factors reviewResult
               = Num (t - (if truthy (hasTests factors) then 0 else 20)))"
    using scoreBeforeClamp_hasTests by blast
  show "hasTests (run_factors files additions deletions bodyLength) = Some (detectTests files)"
    by (simp add: run_factors_def Let_def)
qed

theorem detectTests_substring_witness:
  "spec_detectTests [''tests/session.test.ts'']
   \<and> detectTests [''tests/session.test.ts'']
   \<and> ''tests/session.test.ts'' = ''tests/session'' @ ''.test.'' @ ''ts''
   \<and> hasTests (run_factors [''tests/session.test.ts''] 50 10 400) = Some True"
proof -
  note w = detectTests_substring
    [where files = "[''tests/session.test.ts'']" and additions = 50 and deletions = 10
       and bodyLength = 400 and factors = "run_factors [''tests/session.test.ts''] 50 10 400"
       and reviewResult = None]
  have a: "spec_detectTests [''tests/session.test.ts'']"
    by (simp add: spec_detectTests_def spec_testLike_def)
  from w a have d: "detectTests [''tests/session.test.ts'']" by blast
  from w [THEN conjunct2, THEN conjunct2, THEN conjunct2, THEN conjunct2] d
  have h: "hasTests (run_factors [''tests/session.test.ts''] 50 10 400) = Some True"
    by (simp only:)
  have e: "''tests/session.test.ts'' = ''tests/session'' @ ''.test.'' @ ''ts''" by simp
  from a d e h show ?thesis by blast
qed

text \<open>
  C5. A pull request whose files include a high-risk path and a test file, with 60
  changed lines, a description of 400 characters and no review result, scores 70:
  50, plus 15 for the tests, 10 for the small diff and 10 for the description, minus 15
  for the high-risk path. The witness is the scenario of the specification:
  \<^verbatim>\<open>src/auth/session.ts\<close> and \<^verbatim>\<open>tests/session.test.ts\<close>, 50 additions and 10 deletions.
\<close>

theorem calculateScore_scenario:
  assumes "detectHighRiskModules files" and "detectTests files"
    and "additions + deletions = 60"
  shows "calculateScore (run_factors files additions deletions 400) None = Num 70"
  using assms
  by (simp add: calculateScore_def scoreBeforeClamp_def scoreOfFactors_sum run_factors_def
      truthy_def)

theorem calculateScore_scenario_witness:
  "detectHighRiskModules [''src/auth/session.ts'', ''tests/session.test.ts'']
   \<and> detectTests [''src/auth/session.ts'', ''tests/session.test.ts'']
   \<and> (50::int) + 10 = 60
   \<and> calculateScore (run_factors [''src/auth/session.ts'', ''tests/session.test.ts''] 50 10 400)
        None = Num 70"
proof -
  have h: "detectHighRiskModules [''src/auth/session.ts'', ''tests/session.test.ts'']"
    by (simp add: highRiskPatterns_def regex_test_i_def ascii_lower_def)
  have t: "detectTests [''src/auth/session.ts'', ''tests/session.test.ts'']"
    by (simp add: testPatterns_def)
  have s: "(50::int) + 10 = 60" by simp
  from calculateScore_scenario [OF h t s] h t show ?thesis by simp
qed

section \<open>Properties of the summarizer and of the duplicate detector\<close>

subsection \<open>Sequencing and the log\<close>

lemma io_bind_return [simp]: "io_bind (io_return x) f = f x"
  by (simp add: io_bind_def io_return_def)

lemma io_bind_throw [simp]: "io_bind (io_throw e) f = io_throw e"
  by (simp add: io_bind_def io_throw_def)

lemma io_bind_lift_Inr [simp]: "io_bind (io_lift (Inr x)) f = f x"
  by (simp add: io_bind_def io_lift_def)

lemma io_bind_lift_Inl [simp]: "io_bind (io_lift (Inl e)) f = io_throw e"
  by (simp add: io_bind_def io_lift_def io_throw_def)

lemma io_bind_call_Inl [simp]:
  "io_bind (io_call request (Inl e)) f calls = (Inl e, calls @ [request])"
  by (simp add: io_bind_def io_call_def)

lemma io_bind_call_Inr [simp]:
  "io_bind (io_call request (Inr x)) f calls = f x (calls @ [request])"
  by (simp add: io_bind_def io_call_def)

lemma io_return_apply [simp]: "io_return x calls = (Inr x, calls)"
  by (simp add: io_return_def)

lemma io_throw_apply [simp]: "io_throw e calls = (Inl e, calls)"
  by (simp add: io_throw_def)

lemma io_lift_apply [simp]: "io_lift r calls = (r, calls)"
  by (simp add: io_lift_def)

lemma io_bind_apply:
  "io_bind m f calls =
     (case m calls of (Inl e, c) \<Rightarrow> (Inl e, c) | (Inr x, c) \<Rightarrow> f x c)"
  by (simp add: io_bind_def)

lemma io_catch_apply:
  "io_catch m h calls =
     (case m calls of (Inl e, c) \<Rightarrow> h e c | (Inr x, c) \<Rightarrow> (Inr x, c))"
  by (simp add: io_catch_def)

text \<open>A \<^verbatim>\<open>try\<close> whose handler returns a value never throws.\<close>

lemma io_catch_returns:
  "\<exists>x. fst (io_catch m (\<lambda>e. io_return (d e)) calls) = Inr x"
  by (auto simp: io_catch_def io_return_def split: sum.splits prod.splits)

lemma silentD:
  assumes "silent P m" and "m calls = (r, calls')" and "P q" and "q \<in> set calls'"
  shows "q \<in> set calls"
proof -
  from assms(2) have "snd (m calls) = calls'" by simp
  with assms(1,3,4) show ?thesis unfolding silent_def by blast
qed

lemma silent_return [simp]: "silent P (io_return x)"
  by (simp add: silent_def)

lemma silent_throw [simp]: "silent P (io_throw e)"
  by (simp add: silent_def)

lemma silent_lift [simp]: "silent P (io_lift r)"
  by (simp add: silent_def)

lemma silent_call: "\<not> P request \<Longrightarrow> silent P (io_call request response)"
  by (auto simp: silent_def io_call_def)

lemma silent_bind:
  assumes "silent P m" and "\<And>x. silent P (f x)"
  shows "silent P (io_bind m f)"
  unfolding silent_def
proof (intro allI ballI impI)
  fix calls q
  assume q: "q \<in> set (snd (io_bind m f calls))" "P q"
  obtain r c where m: "m calls = (r, c)" by (cases "m calls")
  have earlier: "q \<in> set c \<Longrightarrow> q \<in> set calls"
    using silentD [OF assms(1) m q(2)] .
  show "q \<in> set calls"
  proof (cases r)
    case (Inl e)
    with m q(1) have "q \<in> set c" by (simp add: io_bind_apply)
    then show ?thesis by (rule earlier)
  next
    case (Inr x)
    obtain r' c' where f: "f x c = (r', c')" by (cases "f x c")
    with Inr m q(1) have "q \<in> set c'" by (simp add: io_bind_apply)
    then have "q \<in> set c" using silentD [OF assms(2) f q(2)] by simp
    then show ?thesis by (rule earlier)
  qed
qed

lemma silent_catch:
  assumes "silent P m" and "\<And>e. silent P (h e)"
  shows "silent P (io_catch m h)"
  unfolding silent_def
proof (intro allI ballI impI)
  fix calls q
  assume q: "q \<in> set (snd (io_catch m h calls))" "P q"
  obtain r c where m: "m calls = (r, c)" by (cases "m calls")
  have earlier: "q \<in> set c \<Longrightarrow> q \<in> set calls"
    using silentD [OF assms(1) m q(2)] .
  show "q \<in> set calls"
  proof (cases r)
    case (Inr x)
    with m q(1) have "q \<in> set c" by (simp add: io_catch_apply)
    then show ?thesis by (rule earlier)
  next
    case (Inl e)
    obtain r' c' where f: "h e c = (r', c')" by (cases "h e c")
    with Inl m q(1) have "q \<in> set c'" by (simp add: io_catch_apply)
    then have "q \<in> set c" using silentD [OF assms(2) f q(2)] by simp
    then show ?thesis by (rule earlier)
  qed
qed

lemma silent_case_prod:
  "(\<And>a b. silent P (f a b)) \<Longrightarrow> silent P (case p of (a, b) \<Rightarrow> f a b)"
  by (cases p) simp

lemma silent_on_returnD:
  assumes "silent_on_return P m" and "m calls = (Inr x, calls')" and "P q" and "q \<in> set calls'"
  shows "q \<in> set calls"
  using assms unfolding silent_on_return_def by blast

lemma silent_on_return_silent: "silent P m \<Longrightarrow> silent_on_return P m"
  unfolding silent_on_return_def using silentD by fastforce

lemma silent_on_return_bind:
  assumes "silent_on_return P m" and "\<And>x. silent_on_return P (f x)"
  shows "silent_on_return P (io_bind m f)"
  unfolding silent_on_return_def
proof (intro allI ballI impI)
  fix calls y calls' q
  assume b: "io_bind m f calls = (Inr y, calls')" and q: "q \<in> set calls'" "P q"
  obtain r c where m: "m calls = (r, c)" by (cases "m calls")
  show "q \<in> set calls"
  proof (cases r)
    case (Inl e)
    with m b show ?thesis by (simp add: io_bind_apply)
  next
    case (Inr x)
    with m b have f: "f x c = (Inr y, calls')" by (simp add: io_bind_apply)
    have "q \<in> set c" using silent_on_returnD [OF assms(2) f q(2,1)] .
    with m Inr show ?thesis using silent_on_returnD [OF assms(1) _ q(2)] by blast
  qed
qed

subsection \<open>generateSummary\<close>

lemma generateSummary_returns:
  "\<exists>s. fst (generateSummary env js title body files calls) = Inr s"
  unfolding generateSummary_def generateSummary_try_def by (rule io_catch_returns)

lemma generateSummary_try_fails:
  "fst (generateSummary_try env js title body files calls) = Inl e
   \<Longrightarrow> fst (generateSummary env js title body files calls) =
      Inr \<lparr> problem_statement = JStr title, scope = JStr ''Unknown'', key_entities = [],
            affected_files = (case files of None \<Rightarrow> [] | Some fs \<Rightarrow> map JStr fs) \<rparr>"
  by (cases "generateSummary_try env js title body files calls")
     (simp add: generateSummary_def io_catch_apply)

lemma generateSummary_call_fails:
  "chat_completions_create env summarySystemMessage (formatSummaryPrompt env title body files)
     = Inl e
   \<Longrightarrow> fst (generateSummary env js title body files calls) =
      Inr \<lparr> problem_statement = JStr title, scope = JStr ''Unknown'', key_entities = [],
            affected_files = (case files of None \<Rightarrow> [] | Some fs \<Rightarrow> map JStr fs) \<rparr>"
  by (simp add: generateSummary_def generateSummary_try_def chat_def io_catch_def Let_def)

lemma generateSummary_parse_fails:
  "chat_completions_create env summarySystemMessage (formatSummaryPrompt env title body files)
     = Inr choices
   \<Longrightarrow> first_of choices = Inr content \<Longrightarrow> JSON_parse js (string_or content ''{}'') = Inl e
   \<Longrightarrow> fst (generateSummary env js title body files calls) =
      Inr \<lparr> problem_statement = JStr title, scope = JStr ''Unknown'', key_entities = [],
            affected_files = (case files of None \<Rightarrow> [] | Some fs \<Rightarrow> map JStr fs) \<rparr>"
  by (simp add: generateSummary_def generateSummary_try_def chat_def io_catch_def Let_def)

lemma summary_not_classify [simp]:
  "\<not> is_classify_call (ChatCompletion summarySystemMessage user)"
  by (simp add: is_classify_call_def summarySystemMessage_def duplicateSystemMessage_def)

lemma quiet_generateSummary: "silent is_classify_call (generateSummary env js title body files)"
  unfolding generateSummary_def generateSummary_try_def chat_def Let_def
  by (intro silent_catch silent_bind silent_call silent_lift silent_return summary_not_classify)

text \<open>
  C8. The claim says that the summary returned on a failure has the title as its
  problem statement and every other field empty or absent. When the chat endpoint is
  unreachable and the caller passed the file \<^verbatim>\<open>src/a.ts\<close>, the summary returned lists
  that file as affected, and its scope is the text \<^verbatim>\<open>Unknown\<close>.
\<close>

theorem generateSummary_fallback_counterexample:
  "fst (generateSummary unreachable_env example_js ''Title'' ''Body'' (Some [''src/a.ts'']) []) =
      Inr \<lparr> problem_statement = JStr ''Title'', scope = JStr ''Unknown'', key_entities = [],
            affected_files = [JStr ''src/a.ts''] \<rparr>"
  by (simp add: generateSummary_def generateSummary_try_def chat_def io_catch_def Let_def unreachable_env_def)

text \<open>
  C8, amended. \<^verbatim>\<open>generateSummary\<close> never propagates an error. When anything in its
  \<^verbatim>\<open>try\<close> block fails, as when the chat call fails or the content of its first choice
  does not parse, it returns the summary whose problem statement is the raw title, whose
  scope is \<^verbatim>\<open>Unknown\<close>, whose key entities are empty and whose affected files are the
  \<^verbatim>\<open>files\<close> it was given (empty when none were given).
\<close>

theorem generateSummary_fallback:
  "(\<exists>s. fst (generateSummary env js title body files calls) = Inr s)
   \<and> (fst (generateSummary_try env js title body files calls) = Inl e
       \<longrightarrow> fst (generateSummary env js title body files calls) =
             Inr \<lparr> problem_statement = JStr title, scope = JStr ''Unknown'', key_entities = [],
                   affected_files = (case files of None \<Rightarrow> [] | Some fs \<Rightarrow> map JStr fs) \<rparr>)
   \<and> ((chat_completions_create env summarySystemMessage
          (formatSummaryPrompt env title body files) = Inl e
        \<or> (\<exists>choices content.
              chat_completions_create env summarySystemMessage
                (formatSummaryPrompt env title body files) = Inr choices
              \<and> first_of choices = Inr content
              \<and> JSON_parse js (string_or content ''{}'') = Inl e))
       \<longrightarrow> fst (generateSummary env js title body files calls) =
             Inr \<lparr> problem_statement = JStr title, scope = JStr ''Unknown'', key_entities = [],
                   affected_files = (case files of None \<Rightarrow> [] | Some fs \<Rightarrow> map JStr fs) \<rparr>)"
proof (intro conjI impI)
  show "\<exists>s. fst (generateSummary env js title body files calls) = Inr s"
    by (rule generateSummary_returns)
next
  assume "fst (generateSummary_try env js title body files calls) = Inl e"
  then show "fst (generateSummary env js title body files calls) =
             Inr \<lparr> problem_statement = JStr title, scope = JStr ''Unknown'', key_entities = [],
                   affected_files = (case files of None \<Rightarrow> [] | Some fs \<Rightarrow> map JStr fs) \<rparr>"
    by (rule generateSummary_try_fails)
next
  assume "chat_completions_create env summarySystemMessage
            (formatSummaryPrompt env title body files) = Inl e
          \<or> (\<exists>choices content.
                chat_completions_create env summarySystemMessage
                  (formatSummaryPrompt env title body files) = Inr choices
                \<and> first_of choices = Inr content
                \<and> JSON_parse js (string_or content ''{}'') = Inl e)"
  then show "fst (generateSummary env js title body files calls) =
             Inr \<lparr> problem_statement = JStr title, scope = JStr ''Unknown'', key_entities = [],
                   affected_files = (case files of None \<Rightarrow> [] | Some fs \<Rightarrow> map JStr fs) \<rparr>"
  proof (elim disjE exE conjE)
    assume "chat_completions_create env summarySystemMessage
              (formatSummaryPrompt env title body files) = Inl e"
    then show ?thesis by (rule generateSummary_call_fails)
  next
    fix choices content
    assume "chat_completions_create env summarySystemMessage
              (formatSummaryPrompt env title body files) = Inr choices"
      and "first_of choices = Inr content"
      and "JSON_parse js (string_or content ''{}'') = Inl e"
    then show ?thesis by (rule generateSummary_parse_fails)
  qed
qed

theorem generateSummary_fallback_witness:
  "chat_completions_create unreachable_env summarySystemMessage
       (formatSummaryPrompt unreachable_env ''Title'' ''Body'' None) = Inl (ServiceError ''unreachable'')
   \<and> fst (generateSummary unreachable_env example_js ''Title'' ''Body'' None []) =
        Inr \<lparr> problem_statement = JStr ''Title'', scope = JStr ''Unknown'', key_entities = [],
              affected_files = [] \<rparr>
   \<and> chat_completions_create garbled_env summarySystemMessage
       (formatSummaryPrompt garbled_env ''Title'' ''Body'' (Some [''src/a.ts''])) = Inr [Some ''not json'']
   \<and> JSON_parse example_js (string_or (Some ''not json'') ''{}'') = Inl SyntaxError
   \<and> fst (generateSummary garbled_env example_js ''Title'' ''Body'' (Some [''src/a.ts'']) []) =
        Inr \<lparr> problem_statement = JStr ''Title'', scope = JStr ''Unknown'', key_entities = [],
              affected_files = [JStr ''src/a.ts''] \<rparr>"
proof -
  have f: "chat_completions_create unreachable_env summarySystemMessage
       (formatSummaryPrompt unreachable_env ''Title'' ''Body'' None) = Inl (ServiceError ''unreachable'')"
    by (simp add: unreachable_env_def)
  have g: "chat_completions_create garbled_env summarySystemMessage
       (formatSummaryPrompt garbled_env ''Title'' ''Body'' (Some [''src/a.ts''])) = Inr [Some ''not json'']"
    by (simp add: garbled_env_def)
  have c: "first_of [Some ''not json''] = Inr (Some ''not json'')"
    by (simp add: first_of_def)
  have p: "JSON_parse example_js (string_or (Some ''not json'') ''{}'') = Inl SyntaxError"
    by (simp add: example_js_def)
  from generateSummary_fallback
    [where env = unreachable_env and js = example_js and title = "''Title''"
       and body = "''Body''" and files = None and calls = "[]"
       and e = "ServiceError ''unreachable''"] f
  have 1: "fst (generateSummary unreachable_env example_js ''Title'' ''Body'' None []) =
        Inr \<lparr> problem_statement = JStr ''Title'', scope = JStr ''Unknown'', key_entities = [],
              affected_files = [] \<rparr>"
    by simp
  from generateSummary_fallback
    [where env = garbled_env and js = example_js and title = "''Title''"
       and body = "''Body''" and files = "Some [''src/a.ts'']" and calls = "[]"
       and e = SyntaxError] g c p
  have 2: "fst (generateSummary garbled_env example_js ''Title'' ''Body'' (Some [''src/a.ts'']) []) =
        Inr \<lparr> problem_statement = JStr ''Title'', scope = JStr ''Unknown'', key_entities = [],
              affected_files = [JStr ''src/a.ts''] \<rparr>"
    by simp
  from f g p 1 2 show ?thesis by blast
qed

subsection \<open>generateEmbedding\<close>

lemma generateEmbedding_fails:
  "embeddings_create env text = Inl e
   \<Longrightarrow> generateEmbedding env text calls = (Inl e, calls @ [EmbeddingsCreate text])"
  by (simp add: generateEmbedding_def io_catch_def)

lemma quiet_generateEmbedding: "silent is_classify_call (generateEmbedding env text)"
  unfolding generateEmbedding_def
  by (intro silent_catch silent_bind silent_call silent_lift silent_throw)
     (simp add: is_classify_call_def)

subsection \<open>calculateCosineSimilarity\<close>

text \<open>What holds of the function for every arithmetic: it throws exactly when the two
  lengths differ, and it returns the literal zero when a norm compares equal to zero.\<close>

lemma calculateCosineSimilarity_throws_iff:
  "(\<exists>e. calculateCosineSimilarity js a b = Inl e) \<longleftrightarrow> length a \<noteq> length b"
  by (auto simp: calculateCosineSimilarity_def Let_def split: prod.splits)

lemma calculateCosineSimilarity_zero_norm:
  assumes "length a = length b"
    and "fold (\<lambda>i (dotProduct, normA, normB).
                 (num_add js dotProduct (num_mul js (a ! i) (b ! i)),
                  num_add js normA (num_mul js (a ! i) (a ! i)),
                  num_add js normB (num_mul js (b ! i) (b ! i)))) [0..<length a]
              (num_zero js, num_zero js, num_zero js) = (d, na, nb)"
    and "num_eq js (num_sqrt js na) (num_zero js) \<or> num_eq js (num_sqrt js nb) (num_zero js)"
  shows "calculateCosineSimilarity js a b = Inr (num_zero js)"
  using assms by (auto simp: calculateCosineSimilarity_def Let_def)

text \<open>Swapping the two vectors swaps the two sums of squares and keeps the dot product,
  at every step of the loop.\<close>

lemma cosine_loop_swap:
  assumes "\<forall>x y. num_mul js x y = num_mul js y x"
  shows "fold (\<lambda>i (dotProduct, normA, normB).
                 (num_add js dotProduct (num_mul js (b ! i) (a ! i)),
                  num_add js normA (num_mul js (b ! i) (b ! i)),
                  num_add js normB (num_mul js (a ! i) (a ! i)))) is (d, nb, na)
         = (case fold (\<lambda>i (dotProduct, normA, normB).
                 (num_add js dotProduct (num_mul js (a ! i) (b ! i)),
                  num_add js normA (num_mul js (a ! i) (a ! i)),
                  num_add js normB (num_mul js (b ! i) (b ! i)))) is (d, na, nb)
            of (d', na', nb') \<Rightarrow> (d', nb', na'))"
proof (induction "is" arbitrary: d na nb)
  case Nil
  show ?case by simp
next
  case (Cons i "is")
  have "num_mul js (b ! i) (a ! i) = num_mul js (a ! i) (b ! i)"
    using assms by blast
  then show ?case by (simp add: Cons.IH)
qed

text \<open>
  C10. \<^verbatim>\<open>calculateCosineSimilarity\<close> is symmetric in its two arguments, in every
  arithmetic whose multiplication is commutative, as the multiplication of IEEE-754
  doubles is; the sums, the square roots, the test for zero and the division are the
  same operations on the same operands in both orders. Two vectors of different
  lengths raise the same error in both orders.
\<close>

theorem calculateCosineSimilarity_symmetric:
  assumes "\<forall>x y. num_mul js x y = num_mul js y x"
  shows "calculateCosineSimilarity js a b = calculateCosineSimilarity js b a"
proof (cases "length a = length b")
  case False
  then show ?thesis by (auto simp: calculateCosineSimilarity_def)
next
  case True
  obtain d na nb where l: "fold (\<lambda>i (dotProduct, normA, normB).
                 (num_add js dotProduct (num_mul js (a ! i) (b ! i)),
                  num_add js normA (num_mul js (a ! i) (a ! i)),
                  num_add js normB (num_mul js (b ! i) (b ! i)))) [0..<length a]
              (num_zero js, num_zero js, num_zero js) = (d, na, nb)"
    by (rule prod_cases3)
  have r: "fold (\<lambda>i (dotProduct, normA, normB).
                 (num_add js dotProduct (num_mul js (b ! i) (a ! i)),
                  num_add js normA (num_mul js (b ! i) (b ! i)),
                  num_add js normB (num_mul js (a ! i) (a ! i)))) [0..<length b]
              (num_zero js, num_zero js, num_zero js) = (d, nb, na)"
    using cosine_loop_swap [OF assms, of b a "[0..<length a]" "num_zero js" "num_zero js" "num_zero js"]
      l True by simp
  have m: "num_mul js (num_sqrt js nb) (num_sqrt js na) = num_mul js (num_sqrt js na) (num_sqrt js nb)"
    using assms by blast
  show ?thesis
    using True l r m by (auto simp: calculateCosineSimilarity_def Let_def)
qed

theorem calculateCosineSimilarity_symmetric_witness:
  "calculateCosineSimilarity example_js [1, 2] [3, 4] = calculateCosineSimilarity example_js [3, 4] [1, 2]
   \<and> calculateCosineSimilarity double_js [1, 2] [3, 4] = calculateCosineSimilarity double_js [3, 4] [1, 2]"
proof -
  have c: "\<forall>x y. num_mul example_js x y = num_mul example_js y x"
    by (simp add: example_js_def mult.commute)
  have d: "\<forall>x y. num_mul double_js x y = num_mul double_js y x"
    by (simp add: double_js_def mult.commute)
  from calculateCosineSimilarity_symmetric [OF c, of "[1, 2]" "[3, 4]"]
    calculateCosineSimilarity_symmetric [OF d, of "[1, 2]" "[3, 4]"]
  show ?thesis by (rule conjI)
qed

subsection \<open>calculateCosineSimilarity in exact arithmetic\<close>

text \<open>
  In the exact arithmetic of the real numbers the similarity of a nonzero vector to
  itself is 1 and every result lies in \<open>[-1, 1]\<close>, by the inequality of Cauchy and
  Schwarz. The code does not compute in this arithmetic; the statements on the
  arithmetic of doubles come after.
\<close>

lemma exact_loop:
  assumes "exact_arithmetic js"
  shows "fold (\<lambda>i (dotProduct, normA, normB).
                 (num_add js dotProduct (num_mul js (a ! i) (b ! i)),
                  num_add js normA (num_mul js (a ! i) (a ! i)),
                  num_add js normB (num_mul js (b ! i) (b ! i)))) is (d, na, nb)
         = (d + (\<Sum>i\<leftarrow>is. a ! i * b ! i), na + (\<Sum>i\<leftarrow>is. a ! i * a ! i),
            nb + (\<Sum>i\<leftarrow>is. b ! i * b ! i))"
  using assms by (induction "is" arbitrary: d na nb) (simp_all add: exact_arithmetic_def algebra_simps)

lemma exact_cosine:
  assumes "exact_arithmetic js" and "length a = length b"
  shows "calculateCosineSimilarity js a b =
     Inr (if sqrt (\<Sum>i\<leftarrow>[0..<length a]. a ! i * a ! i) = 0
             \<or> sqrt (\<Sum>i\<leftarrow>[0..<length a]. b ! i * b ! i) = 0 then 0
          else (\<Sum>i\<leftarrow>[0..<length a]. a ! i * b ! i)
               / (sqrt (\<Sum>i\<leftarrow>[0..<length a]. a ! i * a ! i)
                  * sqrt (\<Sum>i\<leftarrow>[0..<length a]. b ! i * b ! i)))"
proof -
  have z: "num_zero js = 0" using assms(1) by (simp add: exact_arithmetic_def)
  show ?thesis
    unfolding calculateCosineSimilarity_def Let_def z exact_loop [OF assms(1)]
    using assms by (simp add: exact_arithmetic_def)
qed

lemma sum_list_squares_nonneg: "0 \<le> (\<Sum>i\<leftarrow>is. f i * f i)" for f :: "nat \<Rightarrow> real"
  by (induction "is") simp_all

lemma sum_list_squares_zero_iff:
  "(\<Sum>i\<leftarrow>is. f i * f i) = 0 \<longleftrightarrow> (\<forall>i \<in> set is. f i = 0)" for f :: "nat \<Rightarrow> real"
proof (induction "is")
  case Nil
  show ?case by simp
next
  case (Cons i "is")
  have "0 \<le> f i * f i" by simp
  moreover have "0 \<le> (\<Sum>i\<leftarrow>is. f i * f i)" by (rule sum_list_squares_nonneg)
  ultimately have "f i * f i + (\<Sum>i\<leftarrow>is. f i * f i) = 0 \<longleftrightarrow> f i * f i = 0 \<and> (\<Sum>i\<leftarrow>is. f i * f i) = 0"
    by (rule add_nonneg_eq_0_iff)
  then show ?case using Cons.IH by simp
qed

lemma Cauchy_Schwarz_list:
  "(\<Sum>i\<leftarrow>is. f i * g i)\<^sup>2 \<le> (\<Sum>i\<leftarrow>is. f i * f i) * (\<Sum>i\<leftarrow>is. g i * g i)"
  for f g :: "nat \<Rightarrow> real"
proof (induction "is")
  case Nil
  show ?case by simp
next
  case (Cons i "is")
  define s where "s = (\<Sum>i\<leftarrow>is. f i * g i)"
  define A where "A = (\<Sum>i\<leftarrow>is. f i * f i)"
  define B where "B = (\<Sum>i\<leftarrow>is. g i * g i)"
  define x where "x = f i"
  define y where "y = g i"
  have A: "0 \<le> A" unfolding A_def by (rule sum_list_squares_nonneg)
  have B: "0 \<le> B" unfolding B_def by (rule sum_list_squares_nonneg)
  have IH: "s\<^sup>2 \<le> A * B" using Cons.IH by (simp add: s_def A_def B_def)
  have "(2 * s * x * y)\<^sup>2 = 4 * s\<^sup>2 * (x * y)\<^sup>2"
    by (simp add: power2_eq_square algebra_simps)
  also have "\<dots> \<le> 4 * (A * B) * (x * y)\<^sup>2"
    using IH by (intro mult_right_mono mult_left_mono) simp_all
  also have "\<dots> \<le> 4 * (A * B) * (x * y)\<^sup>2 + (A * y\<^sup>2 - B * x\<^sup>2)\<^sup>2"
    by simp
  also have "\<dots> = (A * y\<^sup>2 + B * x\<^sup>2)\<^sup>2"
    by (simp add: power2_eq_square algebra_simps)
  finally have "(2 * s * x * y)\<^sup>2 \<le> (A * y\<^sup>2 + B * x\<^sup>2)\<^sup>2" .
  moreover have "0 \<le> A * y\<^sup>2 + B * x\<^sup>2" using A B by simp
  ultimately have m: "2 * s * x * y \<le> A * y\<^sup>2 + B * x\<^sup>2"
    by (rule power2_le_imp_le)
  have "(x * y + s)\<^sup>2 = s\<^sup>2 + 2 * s * x * y + x\<^sup>2 * y\<^sup>2"
    by (simp add: power2_eq_square algebra_simps)
  also have "\<dots> \<le> A * B + (A * y\<^sup>2 + B * x\<^sup>2) + x\<^sup>2 * y\<^sup>2"
    using IH m by simp
  also have "\<dots> = (x * x + A) * (y * y + B)"
    by (simp add: power2_eq_square algebra_simps)
  finally show ?case by (simp add: s_def A_def B_def x_def y_def)
qed

lemma exact_cosine_self:
  assumes "exact_arithmetic js" and "\<exists>x \<in> set v. x \<noteq> 0"
  shows "calculateCosineSimilarity js v v = Inr 1"
proof -
  let ?S = "\<Sum>i\<leftarrow>[0..<length v]. v ! i * v ! i"
  from assms(2) obtain k where "k < length v" "v ! k \<noteq> 0"
    by (auto simp: in_set_conv_nth)
  then have "?S \<noteq> 0" by (auto simp: sum_list_squares_zero_iff)
  moreover have "0 \<le> ?S" by (rule sum_list_squares_nonneg)
  ultimately have pos: "0 < ?S" by simp
  then have "sqrt ?S \<noteq> 0" by simp
  moreover have "sqrt ?S * sqrt ?S = ?S" using pos by simp
  ultimately show ?thesis
    using pos by (simp add: exact_cosine [OF assms(1)])
qed

lemma exact_cosine_zero:
  assumes "exact_arithmetic js" and "length a = length b"
    and "(\<forall>x \<in> set a. x = 0) \<or> (\<forall>x \<in> set b. x = 0)"
  shows "calculateCosineSimilarity js a b = Inr 0"
proof -
  have "(\<Sum>i\<leftarrow>[0..<length a]. a ! i * a ! i) = 0 \<or> (\<Sum>i\<leftarrow>[0..<length a]. b ! i * b ! i) = 0"
    using assms(2,3) by (auto simp: sum_list_squares_zero_iff)
  then show ?thesis
    by (auto simp: exact_cosine [OF assms(1,2)])
qed

lemma exact_cosine_bounds:
  assumes "exact_arithmetic js" and "length a = length b"
  shows "\<exists>s. calculateCosineSimilarity js a b = Inr s \<and> - 1 \<le> s \<and> s \<le> 1"
proof -
  let ?A = "\<Sum>i\<leftarrow>[0..<length a]. a ! i * a ! i"
  let ?B = "\<Sum>i\<leftarrow>[0..<length a]. b ! i * b ! i"
  let ?s = "\<Sum>i\<leftarrow>[0..<length a]. a ! i * b ! i"
  have A: "0 \<le> ?A" and B: "0 \<le> ?B" by (rule sum_list_squares_nonneg)+
  show ?thesis
  proof (cases "sqrt ?A = 0 \<or> sqrt ?B = 0")
    case True
    then show ?thesis by (simp add: exact_cosine [OF assms])
  next
    case False
    then have pos: "0 < sqrt ?A * sqrt ?B" using A B by (simp add: zero_less_mult_iff less_le)
    have "?s\<^sup>2 \<le> ?A * ?B" by (rule Cauchy_Schwarz_list)
    also have "\<dots> = (sqrt ?A * sqrt ?B)\<^sup>2" using A B by (simp add: power_mult_distrib)
    finally have "\<bar>?s\<bar> \<le> sqrt ?A * sqrt ?B"
      using pos by (simp add: abs_le_square_iff [symmetric] del: real_sqrt_mult)
    then have q: "\<bar>?s / (sqrt ?A * sqrt ?B)\<bar> \<le> 1" using pos by simp
    have "?s / (sqrt ?A * sqrt ?B) \<le> 1" using q by (rule abs_le_D1)
    moreover have "- (?s / (sqrt ?A * sqrt ?B)) \<le> 1" using q by (rule abs_le_D2)
    ultimately have "- 1 \<le> ?s / (sqrt ?A * sqrt ?B) \<and> ?s / (sqrt ?A * sqrt ?B) \<le> 1"
      by linarith
    with False show ?thesis by (simp add: exact_cosine [OF assms])
  qed
qed

subsection \<open>calculateCosineSimilarity in doubles: the accumulated rounding error\<close>

text \<open>
  With \<open>u = 2\<^sup>-\<^sup>5\<^sup>3\<close>, a rounded result lies within the factors \<open>1 - u\<close> and \<open>1 + u\<close> of
  the exact one. A sum of \<open>n\<close> rounded products, accumulated from the left, is at most
  \<open>(1 + u)\<^sup>n\<^sup>+\<^sup>1\<close> times the sum of the magnitudes, and at least \<open>(1 - u)\<^sup>n\<^sup>+\<^sup>1\<close> times the
  exact sum when no term is negative.
\<close>

lemma round_to_double_abs_upper: "\<bar>round_to_double x\<bar> \<le> \<bar>x\<bar> * (1 + 1 / 2 ^ 53)"
proof -
  have "\<bar>round_to_double x\<bar> \<le> \<bar>x\<bar> + \<bar>round_to_double x - x\<bar>" by linarith
  also have "\<dots> \<le> \<bar>x\<bar> + \<bar>x\<bar> / 2 ^ 53" using round_to_double_error [of x] by simp
  finally show ?thesis by (simp add: algebra_simps)
qed

lemma double_loop:
  "fold (\<lambda>i (dotProduct, normA, normB).
           (num_add double_js dotProduct (num_mul double_js (a ! i) (b ! i)),
            num_add double_js normA (num_mul double_js (a ! i) (a ! i)),
            num_add double_js normB (num_mul double_js (b ! i) (b ! i)))) is (d, na, nb)
   = (fold (\<lambda>i s. round_to_double (s + round_to_double (a ! i * b ! i))) is d,
      fold (\<lambda>i s. round_to_double (s + round_to_double (a ! i * a ! i))) is na,
      fold (\<lambda>i s. round_to_double (s + round_to_double (b ! i * b ! i))) is nb)"
  by (induction "is" arbitrary: d na nb) (simp_all add: double_js_def)

lemma double_sum_upper:
  fixes p :: "nat \<Rightarrow> real"
  shows "\<bar>fold (\<lambda>i s. round_to_double (s + round_to_double (p i))) is 0\<bar>
           \<le> (1 + 1 / 2 ^ 53) ^ (length is + 1) * (\<Sum>i\<leftarrow>is. \<bar>p i\<bar>)"
proof (induction "is" rule: rev_induct)
  case Nil
  show ?case by simp
next
  case (snoc i "is")
  define u :: real where "u = 1 / 2 ^ 53"
  define S where "S = fold (\<lambda>i s. round_to_double (s + round_to_double (p i))) is 0"
  define T where "T = (\<Sum>i\<leftarrow>is. \<bar>p i\<bar>)"
  define n where "n = length is"
  have u: "0 \<le> u" by (simp add: u_def)
  have IH: "\<bar>S\<bar> \<le> (1 + u) ^ (n + 1) * T"
    using snoc.IH by (simp add: S_def T_def u_def n_def)
  have T: "0 \<le> T" unfolding T_def by (rule sum_list_nonneg) auto
  have pw: "1 + u \<le> (1 + u) ^ (n + 1)"
    using u power_increasing [of 1 "n + 1" "1 + u"] by simp
  have "\<bar>round_to_double (S + round_to_double (p i))\<bar> \<le> \<bar>S + round_to_double (p i)\<bar> * (1 + u)"
    unfolding u_def by (rule round_to_double_abs_upper)
  also have "\<dots> \<le> (\<bar>S\<bar> + \<bar>round_to_double (p i)\<bar>) * (1 + u)"
    using u by (intro mult_right_mono) simp_all
  also have "\<dots> \<le> (\<bar>S\<bar> + \<bar>p i\<bar> * (1 + u)) * (1 + u)"
    using u round_to_double_abs_upper [of "p i"]
    by (intro mult_right_mono add_left_mono) (simp_all add: u_def)
  also have "\<dots> \<le> ((1 + u) ^ (n + 1) * T + \<bar>p i\<bar> * (1 + u) ^ (n + 1)) * (1 + u)"
    using u IH pw by (intro mult_right_mono add_mono mult_left_mono) simp_all
  also have "\<dots> = (1 + u) ^ (n + 2) * (T + \<bar>p i\<bar>)"
    by (simp add: algebra_simps)
  finally show ?case
    by (simp add: S_def T_def u_def n_def)
qed

lemma double_sum_lower:
  fixes q :: "nat \<Rightarrow> real"
  assumes "\<And>i. 0 \<le> q i"
  shows "(1 - 1 / 2 ^ 53) ^ (length is + 1) * (\<Sum>i\<leftarrow>is. q i)
           \<le> fold (\<lambda>i s. round_to_double (s + round_to_double (q i))) is 0"
proof (induction "is" rule: rev_induct)
  case Nil
  show ?case by simp
next
  case (snoc i "is")
  define u :: real where "u = 1 / 2 ^ 53"
  define S where "S = fold (\<lambda>i s. round_to_double (s + round_to_double (q i))) is 0"
  define T where "T = (\<Sum>i\<leftarrow>is. q i)"
  define n where "n = length is"
  have u: "0 \<le> 1 - u" "1 - u \<le> 1" by (simp_all add: u_def)
  have IH: "(1 - u) ^ (n + 1) * T \<le> S"
    using snoc.IH by (simp add: S_def T_def u_def n_def)
  have T: "0 \<le> T" unfolding T_def using assms by (intro sum_list_nonneg) auto
  have q: "0 \<le> q i" by (rule assms)
  have S: "0 \<le> S"
  proof -
    have "0 \<le> (1 - u) ^ (n + 1) * T" using u T by simp
    with IH show ?thesis by linarith
  qed
  have pw: "(1 - u) ^ (n + 1) \<le> 1 - u"
    using u power_decreasing [of 1 "n + 1" "1 - u"] by simp
  have r: "q i * (1 - u) \<le> round_to_double (q i)"
    unfolding u_def using q by (rule round_to_double_lower)
  then have r0: "0 \<le> round_to_double (q i)" using q by (simp add: round_to_double_nonneg)
  have "(1 - u) ^ (n + 2) * (T + q i) = ((1 - u) ^ (n + 1) * T + q i * (1 - u) ^ (n + 1)) * (1 - u)"
    by (simp add: algebra_simps)
  also have "\<dots> \<le> (S + q i * (1 - u)) * (1 - u)"
    using u IH pw q by (intro mult_right_mono add_mono mult_left_mono) simp_all
  also have "\<dots> \<le> (S + round_to_double (q i)) * (1 - u)"
    using u r by (intro mult_right_mono add_left_mono) simp_all
  also have "\<dots> \<le> round_to_double (S + round_to_double (q i))"
    unfolding u_def using S r0 by (intro round_to_double_lower) simp
  finally show ?case
    by (simp add: S_def T_def u_def n_def)
qed

lemma double_cosine:
  assumes "length a = length b"
  shows "calculateCosineSimilarity double_js a b =
     Inr (let D = fold (\<lambda>i s. round_to_double (s + round_to_double (a ! i * b ! i))) [0..<length a] 0;
              A = fold (\<lambda>i s. round_to_double (s + round_to_double (a ! i * a ! i))) [0..<length a] 0;
              B = fold (\<lambda>i s. round_to_double (s + round_to_double (b ! i * b ! i))) [0..<length a] 0;
              NA = round_to_double (sqrt A);
              NB = round_to_double (sqrt B)
          in if NA = 0 \<or> NB = 0 then 0 else round_to_double (D / round_to_double (NA * NB)))"
proof -
  have z: "num_zero double_js = 0" by (simp add: double_js_def)
  show ?thesis
    unfolding calculateCosineSimilarity_def Let_def z double_loop
    using assms by (simp add: double_js_def)
qed

text \<open>The two constants of the tolerance for the similarity of a vector to itself.\<close>

lemma self_tolerance:
  "1 - 1 / (2 ^ 50 :: real) \<le> (1 - 1 / 2 ^ 53) / (1 + 1 / 2 ^ 53) ^ 3"
  "(1 + 1 / 2 ^ 53) / (1 - 1 / 2 ^ 53) ^ 3 \<le> 1 + 1 / (2 ^ 50 :: real)"
  by (simp_all add: field_simps power3_eq_cube)

lemma double_cosine_self:
  assumes "\<exists>x \<in> set v. x \<noteq> 0"
  shows "\<exists>s. calculateCosineSimilarity double_js v v = Inr s \<and> \<bar>s - 1\<bar> \<le> 1 / 2 ^ 50"
proof -
  define u :: real where "u = 1 / 2 ^ 53"
  define S where
    "S = fold (\<lambda>i s. round_to_double (s + round_to_double (v ! i * v ! i))) [0..<length v] 0"
  define N where "N = round_to_double (sqrt S)"
  define P where "P = round_to_double (N * N)"
  define Q where "Q = round_to_double (S / P)"
  have u: "0 < 1 - u" "0 < 1 + u" by (simp_all add: u_def)
  let ?T = "\<Sum>i\<leftarrow>[0..<length v]. v ! i * v ! i"
  from assms obtain k where "k < length v" "v ! k \<noteq> 0"
    by (auto simp: in_set_conv_nth)
  then have "?T \<noteq> 0" by (auto simp: sum_list_squares_zero_iff)
  moreover have "0 \<le> ?T" by (rule sum_list_squares_nonneg)
  ultimately have T: "0 < ?T" by simp
  have "(1 - u) ^ (length [0..<length v] + 1) * ?T \<le> S"
    unfolding S_def u_def by (rule double_sum_lower) simp
  moreover have "0 < (1 - u) ^ (length [0..<length v] + 1) * ?T"
    using u T by simp
  ultimately have S: "0 < S" by linarith
  then have r: "0 < sqrt S" by simp
  have N1: "sqrt S * (1 - u) \<le> N" unfolding N_def u_def using r
    by (intro round_to_double_lower) simp
  have N2: "N \<le> sqrt S * (1 + u)" unfolding N_def u_def using r
    by (intro round_to_double_upper) simp
  have N0: "0 < N"
  proof -
    have "0 < sqrt S * (1 - u)" using r u by simp
    with N1 show ?thesis by linarith
  qed
  have "(sqrt S * (1 - u)) * (sqrt S * (1 - u)) \<le> N * N"
    using N1 N0 r u by (intro mult_mono) simp_all
  moreover have "(sqrt S * (1 - u)) * (sqrt S * (1 - u)) = S * (1 - u) ^ 2"
    using S by (simp add: power2_eq_square algebra_simps)
  ultimately have NN1: "S * (1 - u) ^ 2 \<le> N * N" by simp
  have "N * N \<le> (sqrt S * (1 + u)) * (sqrt S * (1 + u))"
    using N2 N0 by (intro mult_mono) simp_all
  moreover have "(sqrt S * (1 + u)) * (sqrt S * (1 + u)) = S * (1 + u) ^ 2"
    using S by (simp add: power2_eq_square algebra_simps)
  ultimately have NN2: "N * N \<le> S * (1 + u) ^ 2" by simp
  have NN0: "0 < N * N" using N0 by simp
  have "N * N * (1 - u) \<le> P" unfolding P_def u_def using NN0
    by (intro round_to_double_lower) simp
  moreover have "S * (1 - u) ^ 2 * (1 - u) \<le> N * N * (1 - u)"
    using NN1 u by (intro mult_right_mono) simp_all
  ultimately have P1: "S * (1 - u) ^ 3 \<le> P" by (simp add: power3_eq_cube power2_eq_square)
  have "P \<le> N * N * (1 + u)" unfolding P_def u_def using NN0
    by (intro round_to_double_upper) simp
  moreover have "N * N * (1 + u) \<le> S * (1 + u) ^ 2 * (1 + u)"
    using NN2 u by (intro mult_right_mono) simp_all
  ultimately have P2: "P \<le> S * (1 + u) ^ 3" by (simp add: power3_eq_cube power2_eq_square)
  have P0: "0 < P"
  proof -
    have "0 < S * (1 - u) ^ 3" using S u by simp
    with P1 show ?thesis by linarith
  qed
  have q1: "1 / (1 + u) ^ 3 \<le> S / P"
  proof -
    have "1 / (1 + u) ^ 3 = S / (S * (1 + u) ^ 3)" using S by simp
    also have "\<dots> \<le> S / P" using P2 P0 S by (intro divide_left_mono) simp_all
    finally show ?thesis .
  qed
  have q2: "S / P \<le> 1 / (1 - u) ^ 3"
  proof -
    have "S / P \<le> S / (S * (1 - u) ^ 3)" using P1 P0 S u by (intro divide_left_mono) simp_all
    also have "\<dots> = 1 / (1 - u) ^ 3" using S by simp
    finally show ?thesis .
  qed
  have q0: "0 < S / P" using S P0 by simp
  have "S / P * (1 - u) \<le> Q" unfolding Q_def u_def using q0
    by (intro round_to_double_lower) simp
  moreover have "1 / (1 + u) ^ 3 * (1 - u) \<le> S / P * (1 - u)"
    using q1 u by (intro mult_right_mono) simp_all
  ultimately have "(1 - u) / (1 + u) ^ 3 \<le> Q" by simp
  then have Q1: "1 - 1 / 2 ^ 50 \<le> Q" using self_tolerance(1) unfolding u_def by linarith
  have "Q \<le> S / P * (1 + u)" unfolding Q_def u_def using q0
    by (intro round_to_double_upper) simp
  moreover have "S / P * (1 + u) \<le> 1 / (1 - u) ^ 3 * (1 + u)"
    using q2 u by (intro mult_right_mono) simp_all
  ultimately have "Q \<le> (1 + u) / (1 - u) ^ 3" by simp
  then have Q2: "Q \<le> 1 + 1 / 2 ^ 50" using self_tolerance(2) unfolding u_def by linarith
  have "calculateCosineSimilarity double_js v v = Inr Q"
    using N0 by (simp add: double_cosine Let_def S_def [symmetric] N_def [symmetric]
        P_def [symmetric] Q_def [symmetric])
  moreover have "\<bar>Q - 1\<bar> \<le> 1 / 2 ^ 50" using Q1 Q2 by linarith
  ultimately show ?thesis by blast
qed

lemma range_tolerance:
  assumes "real n + 3 \<le> 2 ^ 51"
  shows "(1 + 1 / 2 ^ 53) ^ (n + 2) / (1 - 1 / 2 ^ 53) ^ (n + 4) \<le> 1 + (real n + 3) / 2 ^ 51"
proof -
  define u :: real where "u = 1 / 2 ^ 53"
  define w where "w = 1 - u"
  define k where "k = (n + 2) + (n + 4)"
  define m where "m = real k * u"
  have u: "0 < w" "0 < 1 + u" "0 \<le> u" by (simp_all add: u_def w_def)
  have "real k = 2 * (real n + 3)" by (simp add: k_def)
  then have "m = 2 * (real n + 3) * (1 / 2 ^ 53)" by (simp only: m_def u_def)
  then have mk: "2 * m = (real n + 3) / 2 ^ 51" by simp
  have "(real n + 3) / 2 ^ 51 \<le> 2 ^ 51 / (2 ^ 51 :: real)"
    using assms by (intro divide_right_mono) simp_all
  then have "2 * m \<le> 1" unfolding mk by simp
  then have m: "m \<le> 1 / 2" by simp
  have "0 \<le> real k * u" using u by (intro mult_nonneg_nonneg) simp_all
  then have m0: "0 \<le> m" by (simp only: m_def)
  have "(1 + u) * w = 1 - u * u" by (simp add: w_def algebra_simps)
  also have "\<dots> \<le> 1" by simp
  finally have "(1 + u) * w \<le> 1" .
  then have a: "1 + u \<le> 1 / w" using u by (simp add: pos_le_divide_eq)
  have "(1 + u) ^ (n + 2) \<le> (1 / w) ^ (n + 2)" using a u by (intro power_mono) simp_all
  then have "(1 + u) ^ (n + 2) / w ^ (n + 4) \<le> (1 / w) ^ (n + 2) / w ^ (n + 4)"
    using u by (intro divide_right_mono) simp_all
  also have "(1 / w) ^ (n + 2) / w ^ (n + 4) = 1 / (w ^ (n + 2) * w ^ (n + 4))"
    by (simp add: power_one_over)
  also have "w ^ (n + 2) * w ^ (n + 4) = w ^ k"
    unfolding k_def by (rule power_add [symmetric])
  also have "1 / w ^ k \<le> 1 / (1 - m)"
  proof -
    have "1 + real k * (- u) \<le> (1 + (- u)) ^ k"
      using u by (intro Bernoulli_inequality) (simp add: u_def)
    then have "1 - m \<le> w ^ k" by (simp add: m_def w_def)
    moreover have "0 < 1 - m" using m by simp
    ultimately show ?thesis by (intro divide_left_mono) simp_all
  qed
  also have "\<dots> \<le> 1 + 2 * m"
  proof -
    have "0 \<le> m * (1 - 2 * m)" using m m0 by (intro mult_nonneg_nonneg) simp_all
    then have "1 \<le> (1 + 2 * m) * (1 - m)" by (simp add: algebra_simps)
    moreover have "0 < 1 - m" using m by simp
    ultimately show ?thesis by (simp add: pos_divide_le_eq)
  qed
  finally have "(1 + u) ^ (n + 2) / w ^ (n + 4) \<le> 1 + 2 * m" .
  then show ?thesis unfolding mk by (simp only: u_def w_def)
qed

lemma sum_list_abs_products:
  "(\<Sum>i\<leftarrow>is. \<bar>a ! i * b ! i\<bar>)\<^sup>2 \<le> (\<Sum>i\<leftarrow>is. a ! i * a ! i) * (\<Sum>i\<leftarrow>is. b ! i * b ! i)"
  for a b :: "real list"
  using Cauchy_Schwarz_list [of "\<lambda>i. \<bar>a ! i\<bar>" "\<lambda>i. \<bar>b ! i\<bar>" "is"]
  by (simp add: abs_mult)

lemma double_cosine_bound:
  assumes "length a = length b"
  shows "\<exists>s. calculateCosineSimilarity double_js a b = Inr s
           \<and> \<bar>s\<bar> \<le> (1 + 1 / 2 ^ 53) ^ (length a + 2) / (1 - 1 / 2 ^ 53) ^ (length a + 4)"
proof -
  define u :: real where "u = 1 / 2 ^ 53"
  define n where "n = length a"
  define D where
    "D = fold (\<lambda>i s. round_to_double (s + round_to_double (a ! i * b ! i))) [0..<length a] 0"
  define A where
    "A = fold (\<lambda>i s. round_to_double (s + round_to_double (a ! i * a ! i))) [0..<length a] 0"
  define B where
    "B = fold (\<lambda>i s. round_to_double (s + round_to_double (b ! i * b ! i))) [0..<length a] 0"
  define NA where "NA = round_to_double (sqrt A)"
  define NB where "NB = round_to_double (sqrt B)"
  define P where "P = round_to_double (NA * NB)"
  define Q where "Q = round_to_double (D / P)"
  define TA where "TA = (\<Sum>i\<leftarrow>[0..<length a]. a ! i * a ! i)"
  define TB where "TB = (\<Sum>i\<leftarrow>[0..<length a]. b ! i * b ! i)"
  define TD where "TD = (\<Sum>i\<leftarrow>[0..<length a]. \<bar>a ! i * b ! i\<bar>)"
  define c where "c = (1 - u) ^ (n + 1)"
  have u: "0 < 1 - u" "0 < 1 + u" by (simp_all add: u_def)
  have c: "0 < c" unfolding c_def using u by simp
  have res: "calculateCosineSimilarity double_js a b = Inr (if NA = 0 \<or> NB = 0 then 0 else Q)"
    by (simp add: double_cosine [OF assms] Let_def D_def [symmetric] A_def [symmetric]
        B_def [symmetric] NA_def [symmetric] NB_def [symmetric] P_def [symmetric]
        Q_def [symmetric])
  have bound0: "0 \<le> (1 + u) ^ (n + 2) / (1 - u) ^ (n + 4)" using u by simp
  show ?thesis
  proof (cases "NA = 0 \<or> NB = 0")
    case True
    with res bound0 show ?thesis by (simp add: u_def n_def)
  next
    case False
    have TA: "0 \<le> TA" and TB: "0 \<le> TB" and TD: "0 \<le> TD"
      unfolding TA_def TB_def TD_def
      by (rule sum_list_squares_nonneg, rule sum_list_squares_nonneg, rule sum_list_nonneg) auto
    have A1: "c * TA \<le> A" unfolding c_def A_def TA_def u_def n_def
      using double_sum_lower [of "\<lambda>i. a ! i * a ! i" "[0..<length a]"] by simp
    have B1: "c * TB \<le> B" unfolding c_def B_def TB_def u_def n_def
      using double_sum_lower [of "\<lambda>i. b ! i * b ! i" "[0..<length a]"] by simp
    have D1: "\<bar>D\<bar> \<le> (1 + u) ^ (n + 1) * TD" unfolding D_def TD_def u_def n_def
      using double_sum_upper [of "\<lambda>i. a ! i * b ! i" "[0..<length a]"] by simp
    have "0 \<le> c * TA" "0 \<le> c * TB" using c TA TB by simp_all
    with A1 B1 have A0: "0 \<le> A" and B0: "0 \<le> B" by linarith+
    have TA1: "TA \<le> A / c" using A1 c by (simp add: pos_le_divide_eq mult.commute)
    have TB1: "TB \<le> B / c" using B1 c by (simp add: pos_le_divide_eq mult.commute)
    from False have "sqrt A \<noteq> 0" "sqrt B \<noteq> 0"
      by (auto simp: NA_def NB_def round_to_double_def)
    with A0 B0 have rA: "0 < sqrt A" and rB: "0 < sqrt B" by simp_all
    define X where "X = sqrt A * sqrt B"
    have X: "0 < X" unfolding X_def using rA rB by simp
    have NA1: "sqrt A * (1 - u) \<le> NA" unfolding NA_def u_def using rA
      by (intro round_to_double_lower) simp
    have NB1: "sqrt B * (1 - u) \<le> NB" unfolding NB_def u_def using rB
      by (intro round_to_double_lower) simp
    have NA0: "0 < NA" using False rA by (simp add: NA_def round_to_double_pos)
    have NB0: "0 < NB" using False rB by (simp add: NB_def round_to_double_pos)
    have "(sqrt A * (1 - u)) * (sqrt B * (1 - u)) \<le> NA * NB"
      using NA1 NB1 NA0 rB u by (intro mult_mono) simp_all
    then have NN: "X * (1 - u) ^ 2 \<le> NA * NB"
      by (simp add: X_def power2_eq_square algebra_simps)
    have "NA * NB * (1 - u) \<le> P" unfolding P_def u_def using NA0 NB0
      by (intro round_to_double_lower) simp
    moreover have "X * (1 - u) ^ 2 * (1 - u) \<le> NA * NB * (1 - u)"
      using NN u by (intro mult_right_mono) simp_all
    ultimately have P1: "X * (1 - u) ^ 3 \<le> P" by (simp add: power3_eq_cube power2_eq_square)
    have P0: "0 < P"
    proof -
      have "0 < X * (1 - u) ^ 3" using X u by simp
      with P1 show ?thesis by linarith
    qed
    have "TD\<^sup>2 \<le> TA * TB" unfolding TD_def TA_def TB_def by (rule sum_list_abs_products)
    also have "TA * TB \<le> (A / c) * (B / c)"
      using TA1 TB1 A0 c TB by (intro mult_mono) simp_all
    also have "\<dots> = (X / c)\<^sup>2"
    proof -
      have "X * X = A * B" using A0 B0 by (simp add: X_def mult.assoc mult.left_commute)
      then have "(X / c)\<^sup>2 = A * B / (c * c)" by (simp add: power2_eq_square)
      then show ?thesis by simp
    qed
    finally have "TD\<^sup>2 \<le> (X / c)\<^sup>2" .
    moreover have "0 \<le> X / c" using X c by simp
    ultimately have TD1: "TD \<le> X / c" by (rule power2_le_imp_le)
    have "\<bar>D / P\<bar> = \<bar>D\<bar> / P" using P0 by simp
    also have "\<dots> \<le> ((1 + u) ^ (n + 1) * (X / c)) / P"
    proof -
      have "(1 + u) ^ (n + 1) * TD \<le> (1 + u) ^ (n + 1) * (X / c)"
        using TD1 u by (intro mult_left_mono) simp_all
      with D1 have "\<bar>D\<bar> \<le> (1 + u) ^ (n + 1) * (X / c)" by linarith
      then show ?thesis using P0 by (intro divide_right_mono) simp_all
    qed
    also have "\<dots> \<le> ((1 + u) ^ (n + 1) * (X / c)) / (X * (1 - u) ^ 3)"
      using P1 P0 X u c by (intro divide_left_mono) simp_all
    also have "\<dots> = (1 + u) ^ (n + 1) / (c * (1 - u) ^ 3)"
      using X by simp
    also have "c * (1 - u) ^ 3 = (1 - u) ^ (n + 4)"
    proof -
      have "n + 4 = (n + 1) + 3" by simp
      then show ?thesis unfolding c_def by (simp only: power_add)
    qed
    finally have q: "\<bar>D / P\<bar> \<le> (1 + u) ^ (n + 1) / (1 - u) ^ (n + 4)" .
    have "\<bar>Q\<bar> \<le> \<bar>D / P\<bar> * (1 + u)" unfolding Q_def u_def by (rule round_to_double_abs_upper)
    also have "\<dots> \<le> (1 + u) ^ (n + 1) / (1 - u) ^ (n + 4) * (1 + u)"
      using q u by (intro mult_right_mono) simp_all
    also have "\<dots> = (1 + u) ^ (n + 2) / (1 - u) ^ (n + 4)" by simp
    finally have "\<bar>Q\<bar> \<le> (1 + u) ^ (n + 2) / (1 - u) ^ (n + 4)" .
    with res False show ?thesis by (simp add: u_def n_def)
  qed
qed

subsection \<open>calculateCosineSimilarity in doubles: three evaluations\<close>

lemma double_binade0:
  assumes "1 \<le> \<bar>x\<bar>" and "\<bar>x\<bar> < 2"
    and "of_int m - 1 / 2 < x * 2 ^ 52" and "x * 2 ^ 52 < of_int m + 1 / 2"
  shows "round_to_double x = of_int m / 2 ^ 52"
proof -
  have u: "(2::real) powr (of_int 0 - 52) = 1 / 2 ^ 52"
    by (simp add: powr_minus_divide)
  show ?thesis
    using round_to_double_eq [of 0 x m] assms unfolding u by simp
qed

lemma double_binade1:
  assumes "2 \<le> \<bar>x\<bar>" and "\<bar>x\<bar> < 4"
    and "of_int m - 1 / 2 < x * 2 ^ 51" and "x * 2 ^ 51 < of_int m + 1 / 2"
  shows "round_to_double x = of_int m / 2 ^ 51"
proof -
  have u: "(2::real) powr (of_int 1 - 52) = 1 / 2 ^ 51"
    by (simp add: powr_minus_divide)
  have v: "(2::real) powr of_int (1 + 1) = 4" by simp
  show ?thesis
    using round_to_double_eq [of 1 x m] assms unfolding u v by simp
qed

lemma double_1: "round_to_double 1 = 1"
  using double_binade0 [of 1 "2 ^ 52"] by simp

lemma double_2: "round_to_double 2 = 2"
  using double_binade1 [of 2 "2 ^ 52"] by simp

lemma double_3: "round_to_double 3 = 3"
  using double_binade1 [of 3 "3 * 2 ^ 51"] by simp

lemma double_sqrt_3: "round_to_double (sqrt 3) = 7800463371553962 / 2 ^ 52"
proof -
  have "1 \<le> sqrt 3" by (rule real_le_rsqrt) simp
  then have a: "1 \<le> \<bar>sqrt 3\<bar>" by simp
  have "sqrt 3 < 2" by (rule real_less_lsqrt) simp_all
  then have b: "\<bar>sqrt 3\<bar> < 2" by simp
  have "(15600926743107923 / 2 ^ 53)\<^sup>2 < (3::real)" by (simp add: power2_eq_square)
  then have "15600926743107923 / 2 ^ 53 < sqrt 3" by (rule real_less_rsqrt)
  then have c: "of_int 7800463371553962 - 1 / 2 < sqrt 3 * 2 ^ 52" by simp
  have "(3::real) < (15600926743107925 / 2 ^ 53)\<^sup>2" by (simp add: power2_eq_square)
  then have "sqrt 3 < 15600926743107925 / 2 ^ 53" by (intro real_less_lsqrt) simp_all
  then have d: "sqrt 3 * 2 ^ 52 < of_int 7800463371553962 + 1 / 2" by simp
  from double_binade0 [OF a b c d] show ?thesis by simp
qed

lemma double_square:
  "round_to_double (7800463371553962 / 2 ^ 52 * (7800463371553962 / 2 ^ 52))
     = 6755399441055743 / 2 ^ 51"
  using double_binade1
    [of "7800463371553962 / 2 ^ 52 * (7800463371553962 / 2 ^ 52)" 6755399441055743]
  by simp

lemma double_quotient:
  "round_to_double (3 / (6755399441055743 / 2 ^ 51)) = 1 + 1 / 2 ^ 52"
  using double_binade0 [of "3 / (6755399441055743 / 2 ^ 51)" 4503599627370497]
  by simp

lemma double_cosine_ones:
  "calculateCosineSimilarity double_js [1, 1, 1] [1, 1, 1] = Inr (1 + 1 / 2 ^ 52)"
proof -
  define r :: real where "r = 7800463371553962 / 2 ^ 52"
  define d :: real where "d = 6755399441055743 / 2 ^ 51"
  have 1: "round_to_double (sqrt 3) = r" unfolding r_def by (rule double_sqrt_3)
  have 2: "round_to_double (r * r) = d" unfolding r_def d_def by (rule double_square)
  have 3: "round_to_double (3 / d) = 1 + 1 / 2 ^ 52" unfolding d_def by (rule double_quotient)
  have nz: "r \<noteq> 0" unfolding r_def by simp
  show ?thesis
    by (simp add: calculateCosineSimilarity_def double_js_def Let_def upt_rec
        double_1 double_2 double_3 1 2 3 nz)
qed

lemma double_cosine_3_4:
  "calculateCosineSimilarity double_js [3, 4] [4, 3] = Inr (8646911284551352 / 2 ^ 53)"
proof -
  have i: "round_to_double 9 = 9" "round_to_double 12 = 12" "round_to_double 16 = 16"
    "round_to_double 24 = 24" "round_to_double 25 = 25" "round_to_double 5 = 5"
    using round_to_double_of_int [of 9] round_to_double_of_int [of 12]
      round_to_double_of_int [of 16] round_to_double_of_int [of 24]
      round_to_double_of_int [of 25] round_to_double_of_int [of 5]
    by simp_all
  have s: "sqrt 25 = 5" using real_sqrt_abs2 [of 5] by simp
  have u: "(2::real) powr (of_int (- 1) - 52) = 1 / 2 ^ 53"
    by (simp add: powr_minus_divide)
  have v: "(2::real) powr of_int (- 1) = 1 / 2" "(2::real) powr of_int (- 1 + 1) = 1"
    by (simp_all add: powr_minus_divide)
  have q: "round_to_double (24 / 25) = 8646911284551352 / 2 ^ 53"
    using round_to_double_eq [of "- 1" "24 / 25" 8646911284551352] unfolding u v by simp
  show ?thesis
    by (simp add: calculateCosineSimilarity_def double_js_def Let_def upt_rec i s q)
qed

lemma normal_range_examples: "normal_range [1, 1, 1]" "normal_range [3, 4]" "normal_range [4, 3]"
  using round_to_double_of_int [of 1] round_to_double_of_int [of 3] round_to_double_of_int [of 4]
  by (simp_all add: normal_range_def)

text \<open>
  C6. The claim says that the similarity of a nonzero vector to itself is 1 and that
  every result lies in \<open>[-1, 1]\<close>. In the arithmetic of doubles the similarity of
  \<open>[1, 1, 1]\<close> to itself is \<open>1 + 2\<^sup>-\<^sup>5\<^sup>2\<close> (printed \<^verbatim>\<open>1.0000000000000002\<close>): the norm is the
  square root of 3 rounded, whose square rounds to a double below 3.
\<close>

theorem calculateCosineSimilarity_double_counterexample:
  "calculateCosineSimilarity double_js [1, 1, 1] [1, 1, 1] = Inr (1 + 1 / 2 ^ 52)
   \<and> calculateCosineSimilarity double_js [1, 1, 1] [1, 1, 1] \<noteq> Inr 1
   \<and> \<not> (1 + 1 / 2 ^ 52 :: real) \<le> 1"
  using double_cosine_ones by simp

lemma zero_loop:
  assumes "zero_laws js" and "\<forall>i \<in> set is. a ! i = num_zero js"
  shows "fst (snd (fold (\<lambda>i (dotProduct, normA, normB).
                 (num_add js dotProduct (num_mul js (a ! i) (b ! i)),
                  num_add js normA (num_mul js (a ! i) (a ! i)),
                  num_add js normB (num_mul js (b ! i) (b ! i)))) is (d, num_zero js, nb)))
         = num_zero js"
    and "snd (snd (fold (\<lambda>i (dotProduct, normA, normB).
                 (num_add js dotProduct (num_mul js (b ! i) (a ! i)),
                  num_add js normA (num_mul js (b ! i) (b ! i)),
                  num_add js normB (num_mul js (a ! i) (a ! i)))) is (d, nb, num_zero js)))
         = num_zero js"
  using assms by (induction "is" arbitrary: d nb) (simp_all add: zero_laws_def)

lemma zero_cosine:
  assumes "zero_laws js" and "length a = length b"
    and "(\<forall>x \<in> set a. x = num_zero js) \<or> (\<forall>x \<in> set b. x = num_zero js)"
  shows "calculateCosineSimilarity js a b = Inr (num_zero js)"
proof -
  obtain d na nb where l: "fold (\<lambda>i (dotProduct, normA, normB).
                 (num_add js dotProduct (num_mul js (a ! i) (b ! i)),
                  num_add js normA (num_mul js (a ! i) (a ! i)),
                  num_add js normB (num_mul js (b ! i) (b ! i)))) [0..<length a]
              (num_zero js, num_zero js, num_zero js) = (d, na, nb)"
    by (rule prod_cases3)
  from assms(3) have "na = num_zero js \<or> nb = num_zero js"
  proof
    assume "\<forall>x \<in> set a. x = num_zero js"
    then have "\<forall>i \<in> set [0..<length a]. a ! i = num_zero js" by simp
    from zero_loop(1) [OF assms(1) this, of b "num_zero js" "num_zero js"] l
    show ?thesis by simp
  next
    assume "\<forall>x \<in> set b. x = num_zero js"
    then have "\<forall>i \<in> set [0..<length a]. b ! i = num_zero js" using assms(2) by simp
    from zero_loop(2) [OF assms(1) this, of a "num_zero js" "num_zero js"] l
    show ?thesis by simp
  qed
  then have "num_eq js (num_sqrt js na) (num_zero js) \<or> num_eq js (num_sqrt js nb) (num_zero js)"
    using assms(1) by (auto simp: zero_laws_def)
  with assms(2) l show ?thesis by (rule calculateCosineSimilarity_zero_norm)
qed

text \<open>
  C6, amended. \<^verbatim>\<open>calculateCosineSimilarity(a, b)\<close> throws exactly when \<^verbatim>\<open>a\<close> and \<^verbatim>\<open>b\<close>
  differ in length, in every arithmetic. For vectors of equal length it returns 0
  whenever either vector is all zeros, in every arithmetic with the laws of zero
  (\<open>0 * 0 = 0\<close>, \<open>0 + 0 = 0\<close>, \<open>sqrt 0 = 0\<close>), that of doubles included. In the arithmetic
  of doubles, for vectors of at most \<open>2\<^sup>2\<^sup>0\<close> doubles that are zero or of magnitude
  between \<open>2\<^sup>-\<^sup>2\<^sup>0\<^sup>0\<close> and \<open>2\<^sup>2\<^sup>0\<^sup>0\<close>: the similarity of a nonzero vector to itself is
  within \<open>2\<^sup>-\<^sup>5\<^sup>0\<close> of 1, and the result for two vectors of length \<open>n\<close> lies between
  \<open>-1 - (n + 3) / 2\<^sup>5\<^sup>1\<close> and \<open>1 + (n + 3) / 2\<^sup>5\<^sup>1\<close>.
\<close>

theorem calculateCosineSimilarity_tolerance:
  "((\<exists>e. calculateCosineSimilarity js a b = Inl e) \<longleftrightarrow> length a \<noteq> length b)
   \<and> (zero_laws js \<longrightarrow> length a = length b
        \<longrightarrow> (\<forall>x \<in> set a. x = num_zero js) \<or> (\<forall>x \<in> set b. x = num_zero js)
        \<longrightarrow> calculateCosineSimilarity js a b = Inr (num_zero js))
   \<and> (normal_range v \<longrightarrow> (\<exists>x \<in> set v. x \<noteq> 0)
        \<longrightarrow> (\<exists>s. calculateCosineSimilarity double_js v v = Inr s \<and> \<bar>s - 1\<bar> \<le> 1 / 2 ^ 50))
   \<and> (normal_range u \<longrightarrow> normal_range w \<longrightarrow> length u = length w
        \<longrightarrow> (\<exists>s. calculateCosineSimilarity double_js u w = Inr s
              \<and> - 1 - (real (length u) + 3) / 2 ^ 51 \<le> s
              \<and> s \<le> 1 + (real (length u) + 3) / 2 ^ 51))"
proof (intro conjI impI)
  show "(\<exists>e. calculateCosineSimilarity js a b = Inl e) \<longleftrightarrow> length a \<noteq> length b"
    by (rule calculateCosineSimilarity_throws_iff)
next
  assume "zero_laws js" and "length a = length b"
    and "(\<forall>x \<in> set a. x = num_zero js) \<or> (\<forall>x \<in> set b. x = num_zero js)"
  then show "calculateCosineSimilarity js a b = Inr (num_zero js)" by (rule zero_cosine)
next
  assume "\<exists>x \<in> set v. x \<noteq> 0"
  then show "\<exists>s. calculateCosineSimilarity double_js v v = Inr s \<and> \<bar>s - 1\<bar> \<le> 1 / 2 ^ 50"
    by (rule double_cosine_self)
next
  assume r: "normal_range u" and l: "length u = length w"
  define t where "t = (real (length u) + 3) / 2 ^ 51"
  from r have "length u \<le> 2 ^ 20" by (simp add: normal_range_def)
  then have "real (length u) \<le> real (2 ^ 20)" by (simp only: of_nat_le_iff)
  then have "real (length u) + 3 \<le> 2 ^ 51" by simp
  from range_tolerance [OF this] double_cosine_bound [OF l]
  obtain s where s: "calculateCosineSimilarity double_js u w = Inr s" "\<bar>s\<bar> \<le> 1 + t"
    unfolding t_def by fastforce
  from s(2) have "- 1 - t \<le> s" "s \<le> 1 + t" by linarith+
  with s(1) show "\<exists>s. calculateCosineSimilarity double_js u w = Inr s
              \<and> - 1 - (real (length u) + 3) / 2 ^ 51 \<le> s
              \<and> s \<le> 1 + (real (length u) + 3) / 2 ^ 51"
    unfolding t_def by blast
qed

theorem calculateCosineSimilarity_tolerance_witness:
  "length [3, 4 :: real] \<noteq> length [1 :: real]
   \<and> calculateCosineSimilarity example_js [3, 4] [1] = Inl (Error ''Vectors must have the same length'')
   \<and> zero_laws double_js
   \<and> calculateCosineSimilarity double_js [0, 0] [3, 4] = Inr 0
   \<and> normal_range [1, 1, 1]
   \<and> calculateCosineSimilarity double_js [1, 1, 1] [1, 1, 1] = Inr (1 + 1 / 2 ^ 52)
   \<and> \<bar>(1 + 1 / 2 ^ 52) - 1\<bar> \<le> (1 / 2 ^ 50 :: real)
   \<and> normal_range [3, 4]
   \<and> normal_range [4, 3]
   \<and> calculateCosineSimilarity double_js [3, 4] [4, 3] = Inr (8646911284551352 / 2 ^ 53)
   \<and> - 1 - (real (length [3, 4 :: real]) + 3) / 2 ^ 51 \<le> (8646911284551352 / 2 ^ 53 :: real)
   \<and> (8646911284551352 / 2 ^ 53 :: real) \<le> 1 + (real (length [3, 4 :: real]) + 3) / 2 ^ 51"
proof -
  have z: "zero_laws double_js"
    by (simp add: zero_laws_def double_js_def round_to_double_def)
  have t: "calculateCosineSimilarity example_js [3, 4] [1] = Inl (Error ''Vectors must have the same length'')"
    by (simp add: calculateCosineSimilarity_def)
  have l: "length [3, 4 :: real] \<noteq> length [1 :: real]" by simp
  note w = calculateCosineSimilarity_tolerance
    [where js = double_js and a = "[0, 0]" and b = "[3, 4]" and v = "[1, 1, 1]"
       and u = "[3, 4]" and w = "[4, 3]"]
  from w z have 1: "calculateCosineSimilarity double_js [0, 0] [3, 4] = Inr 0"
    by (simp add: double_js_def)
  from w normal_range_examples(1)
  have "\<exists>s. calculateCosineSimilarity double_js [1, 1, 1] [1, 1, 1] = Inr s \<and> \<bar>s - 1\<bar> \<le> 1 / 2 ^ 50"
    by simp
  then have 2: "\<bar>(1 + 1 / 2 ^ 52) - 1\<bar> \<le> (1 / 2 ^ 50 :: real)"
    unfolding double_cosine_ones by blast
  from w normal_range_examples(2,3)
  have "\<exists>s. calculateCosineSimilarity double_js [3, 4] [4, 3] = Inr s
          \<and> - 1 - (real (length [3, 4 :: real]) + 3) / 2 ^ 51 \<le> s
          \<and> s \<le> 1 + (real (length [3, 4 :: real]) + 3) / 2 ^ 51"
    by simp
  then have 3: "- 1 - (real (length [3, 4 :: real]) + 3) / 2 ^ 51 \<le> (8646911284551352 / 2 ^ 53 :: real)"
    "(8646911284551352 / 2 ^ 53 :: real) \<le> 1 + (real (length [3, 4 :: real]) + 3) / 2 ^ 51"
    unfolding double_cosine_3_4 by blast+
  from l t z 1 normal_range_examples double_cosine_ones 2 double_cosine_3_4 3
  show ?thesis by blast
qed
subsection \<open>classifyDuplicate\<close>

lemma classifyDuplicate_returns:
  "\<exists>result. fst (classifyDuplicate env js currentTitle currentSummary candidateNumber
                   candidateTitle candidateSummary calls) = Inr result"
  unfolding classifyDuplicate_def classifyDuplicate_try_def by (rule io_catch_returns)

lemma classifyDuplicate_try_fails:
  "fst (classifyDuplicate_try env js currentTitle currentSummary candidateNumber candidateTitle
          candidateSummary calls) = Inl e
   \<Longrightarrow> fst (classifyDuplicate env js currentTitle currentSummary candidateNumber candidateTitle
             candidateSummary calls) =
      Inr \<lparr> classification = JStr ''distinct'', confidence = JNum (num_zero js),
            canonical_item = JNull, reasoning = JStr ''Classification failed'' \<rparr>"
  by (cases "classifyDuplicate_try env js currentTitle currentSummary candidateNumber
               candidateTitle candidateSummary calls")
     (simp add: classifyDuplicate_def io_catch_apply)

lemma classifyDuplicate_call_fails:
  "chat_completions_create env duplicateSystemMessage
     (formatDuplicatePrompt env currentTitle currentSummary candidateNumber candidateTitle
        candidateSummary) = Inl e
   \<Longrightarrow> fst (classifyDuplicate env js currentTitle currentSummary candidateNumber candidateTitle
             candidateSummary calls) =
      Inr \<lparr> classification = JStr ''distinct'', confidence = JNum (num_zero js),
            canonical_item = JNull, reasoning = JStr ''Classification failed'' \<rparr>"
  by (simp add: classifyDuplicate_def classifyDuplicate_try_def chat_def io_catch_def Let_def)

lemma classifyDuplicate_parse_fails:
  "chat_completions_create env duplicateSystemMessage
     (formatDuplicatePrompt env currentTitle currentSummary candidateNumber candidateTitle
        candidateSummary) = Inr choices
   \<Longrightarrow> first_of choices = Inr content \<Longrightarrow> JSON_parse js (string_or content ''{}'') = Inl e
   \<Longrightarrow> fst (classifyDuplicate env js currentTitle currentSummary candidateNumber candidateTitle
             candidateSummary calls) =
      Inr \<lparr> classification = JStr ''distinct'', confidence = JNum (num_zero js),
            canonical_item = JNull, reasoning = JStr ''Classification failed'' \<rparr>"
  by (simp add: classifyDuplicate_def classifyDuplicate_try_def chat_def io_catch_def Let_def)

text \<open>
  C9. \<^verbatim>\<open>classifyDuplicate\<close> always returns a \<^verbatim>\<open>DuplicateResult\<close> and never raises. When
  anything in its \<^verbatim>\<open>try\<close> block fails, as when the chat call fails or the content of
  its first choice does not parse as JSON, the result has the classification
  \<^verbatim>\<open>distinct\<close>, the confidence 0 and no canonical item (\<^verbatim>\<open>null\<close>).
\<close>

theorem classifyDuplicate_defaults:
  "(\<exists>result. fst (classifyDuplicate env js currentTitle currentSummary candidateNumber
                    candidateTitle candidateSummary calls) = Inr result)
   \<and> (fst (classifyDuplicate_try env js currentTitle currentSummary candidateNumber
               candidateTitle candidateSummary calls) = Inl e
       \<longrightarrow> fst (classifyDuplicate env js currentTitle currentSummary candidateNumber
                 candidateTitle candidateSummary calls) =
             Inr \<lparr> classification = JStr ''distinct'', confidence = JNum (num_zero js),
                   canonical_item = JNull, reasoning = JStr ''Classification failed'' \<rparr>)
   \<and> ((chat_completions_create env duplicateSystemMessage
          (formatDuplicatePrompt env currentTitle currentSummary candidateNumber candidateTitle
             candidateSummary) = Inl e
        \<or> (\<exists>choices content.
              chat_completions_create env duplicateSystemMessage
                (formatDuplicatePrompt env currentTitle currentSummary candidateNumber
                   candidateTitle candidateSummary) = Inr choices
              \<and> first_of choices = Inr content
              \<and> JSON_parse js (string_or content ''{}'') = Inl e))
       \<longrightarrow> fst (classifyDuplicate env js currentTitle currentSummary candidateNumber
                 candidateTitle candidateSummary calls) =
             Inr \<lparr> classification = JStr ''distinct'', confidence = JNum (num_zero js),
                   canonical_item = JNull, reasoning = JStr ''Classification failed'' \<rparr>)"
proof (intro conjI impI)
  show "\<exists>result. fst (classifyDuplicate env js currentTitle currentSummary candidateNumber
                    candidateTitle candidateSummary calls) = Inr result"
    by (rule classifyDuplicate_returns)
next
  assume "fst (classifyDuplicate_try env js currentTitle currentSummary candidateNumber
               candidateTitle candidateSummary calls) = Inl e"
  then show "fst (classifyDuplicate env js currentTitle currentSummary candidateNumber
                 candidateTitle candidateSummary calls) =
             Inr \<lparr> classification = JStr ''distinct'', confidence = JNum (num_zero js),
                   canonical_item = JNull, reasoning = JStr ''Classification failed'' \<rparr>"
    by (rule classifyDuplicate_try_fails)
next
  assume "chat_completions_create env duplicateSystemMessage
          (formatDuplicatePrompt env currentTitle currentSummary candidateNumber candidateTitle
             candidateSummary) = Inl e
        \<or> (\<exists>choices content.
              chat_completions_create env duplicateSystemMessage
                (formatDuplicatePrompt env currentTitle currentSummary candidateNumber
                   candidateTitle candidateSummary) = Inr choices
              \<and> first_of choices = Inr content
              \<and> JSON_parse js (string_or content ''{}'') = Inl e)"
  then show "fst (classifyDuplicate env js currentTitle currentSummary candidateNumber
                 candidateTitle candidateSummary calls) =
             Inr \<lparr> classification = JStr ''distinct'', confidence = JNum (num_zero js),
                   canonical_item = JNull, reasoning = JStr ''Classification failed'' \<rparr>"
  proof (elim disjE exE conjE)
    assume "chat_completions_create env duplicateSystemMessage
          (formatDuplicatePrompt env currentTitle currentSummary candidateNumber candidateTitle
             candidateSummary) = Inl e"
    then show ?thesis by (rule classifyDuplicate_call_fails)
  next
    fix choices content
    assume "chat_completions_create env duplicateSystemMessage
                (formatDuplicatePrompt env currentTitle currentSummary candidateNumber
                   candidateTitle candidateSummary) = Inr choices"
      and "first_of choices = Inr content"
      and "JSON_parse js (string_or content ''{}'') = Inl e"
    then show ?thesis by (rule classifyDuplicate_parse_fails)
  qed
qed

theorem classifyDuplicate_defaults_witness:
  "chat_completions_create unreachable_env duplicateSystemMessage
       (formatDuplicatePrompt unreachable_env ''Login fails'' (JStr ''Login fails'') 12
          ''Safari login broken'' (JStr ''Safari login broken'')) = Inl (ServiceError ''unreachable'')
   \<and> fst (classifyDuplicate unreachable_env example_js ''Login fails'' (JStr ''Login fails'') 12
          ''Safari login broken'' (JStr ''Safari login broken'') []) =
        Inr \<lparr> classification = JStr ''distinct'', confidence = JNum 0,
              canonical_item = JNull, reasoning = JStr ''Classification failed'' \<rparr>
   \<and> chat_completions_create garbled_env duplicateSystemMessage
       (formatDuplicatePrompt garbled_env ''Login fails'' (JStr ''Login fails'') 12
          ''Safari login broken'' (JStr ''Safari login broken'')) = Inr [Some ''not json'']
   \<and> JSON_parse example_js (string_or (Some ''not json'') ''{}'') = Inl SyntaxError
   \<and> fst (classifyDuplicate garbled_env example_js ''Login fails'' (JStr ''Login fails'') 12
          ''Safari login broken'' (JStr ''Safari login broken'') []) =
        Inr \<lparr> classification = JStr ''distinct'', confidence = JNum 0,
              canonical_item = JNull, reasoning = JStr ''Classification failed'' \<rparr>"
proof -
  have z: "num_zero example_js = 0" by (simp add: example_js_def)
  have f: "chat_completions_create unreachable_env duplicateSystemMessage
       (formatDuplicatePrompt unreachable_env ''Login fails'' (JStr ''Login fails'') 12
          ''Safari login broken'' (JStr ''Safari login broken'')) = Inl (ServiceError ''unreachable'')"
    by (simp add: unreachable_env_def)
  have g: "chat_completions_create garbled_env duplicateSystemMessage
       (formatDuplicatePrompt garbled_env ''Login fails'' (JStr ''Login fails'') 12
          ''Safari login broken'' (JStr ''Safari login broken'')) = Inr [Some ''not json'']"
    by (simp add: garbled_env_def)
  have c: "first_of [Some ''not json''] = Inr (Some ''not json'')"
    by (simp add: first_of_def)
  have p: "JSON_parse example_js (string_or (Some ''not json'') ''{}'') = Inl SyntaxError"
    by (simp add: example_js_def)
  from classifyDuplicate_defaults
    [where env = unreachable_env and js = example_js and currentTitle = "''Login fails''"
       and currentSummary = "JStr ''Login fails''" and candidateNumber = 12
       and candidateTitle = "''Safari login broken''"
       and candidateSummary = "JStr ''Safari login broken''" and calls = "[]"
       and e = "ServiceError ''unreachable''"] f z
  have 1: "fst (classifyDuplicate unreachable_env example_js ''Login fails'' (JStr ''Login fails'') 12
          ''Safari login broken'' (JStr ''Safari login broken'') []) =
        Inr \<lparr> classification = JStr ''distinct'', confidence = JNum 0,
              canonical_item = JNull, reasoning = JStr ''Classification failed'' \<rparr>"
    by simp
  from classifyDuplicate_defaults
    [where env = garbled_env and js = example_js and currentTitle = "''Login fails''"
       and currentSummary = "JStr ''Login fails''" and candidateNumber = 12
       and candidateTitle = "''Safari login broken''"
       and candidateSummary = "JStr ''Safari login broken''" and calls = "[]"
       and e = SyntaxError] g c p z
  have 2: "fst (classifyDuplicate garbled_env example_js ''Login fails'' (JStr ''Login fails'') 12
          ''Safari login broken'' (JStr ''Safari login broken'') []) =
        Inr \<lparr> classification = JStr ''distinct'', confidence = JNum 0,
              canonical_item = JNull, reasoning = JStr ''Classification failed'' \<rparr>"
    by simp
  from f g p 1 2 show ?thesis by blast
qed


text \<open>Every invocation of \<^verbatim>\<open>classifyDuplicate\<close> leaves its call of the chat endpoint in the
  log, whatever the endpoint answers.\<close>

lemma classifyDuplicate_logs:
  "snd (classifyDuplicate env js currentTitle currentSummary candidateNumber candidateTitle
          candidateSummary calls) =
     calls @ [ChatCompletion duplicateSystemMessage
                (formatDuplicatePrompt env currentTitle currentSummary candidateNumber
                   candidateTitle candidateSummary)]"
  by (cases "chat_completions_create env duplicateSystemMessage
               (formatDuplicatePrompt env currentTitle currentSummary candidateNumber
                  candidateTitle candidateSummary)")
     (auto simp: classifyDuplicate_def classifyDuplicate_try_def chat_def io_catch_apply io_bind_apply io_call_def Let_def
           split: sum.splits prod.splits)

lemma quiet_candidateSimilarity: "silent is_classify_call (candidateSimilarity env js currentEmbedding item)"
  unfolding candidateSimilarity_def Let_def
  by (intro silent_bind quiet_generateSummary quiet_generateEmbedding silent_lift silent_return)

lemma quiet_getRecentIssues: "silent is_classify_call (getRecentIssues env n)"
  unfolding getRecentIssues_def
  by (intro silent_catch silent_bind silent_lift silent_return silent_case_prod silent_call)
     (simp add: is_classify_call_def)

lemma quiet_getRecentPullRequests: "silent is_classify_call (getRecentPullRequests env n)"
  unfolding getRecentPullRequests_def
  by (intro silent_catch silent_bind silent_lift silent_return silent_case_prod silent_call)
     (simp add: is_classify_call_def)

lemma getRecentIssues_returns: "\<exists>items. fst (getRecentIssues env n calls) = Inr items"
  unfolding getRecentIssues_def by (rule io_catch_returns)

lemma getRecentPullRequests_returns: "\<exists>items. fst (getRecentPullRequests env n calls) = Inr items"
  unfolding getRecentPullRequests_def by (rule io_catch_returns)

lemma scanItems_below:
  assumes "scanItems env js itemNumber currentEmbedding threshold items candidates calls = (r, calls')"
    and "\<forall>item \<in> set items. \<not> num_eq js (item_number item) itemNumber \<longrightarrow>
           (\<forall>c s sim c'. candidateSimilarity env js currentEmbedding item c = (Inr (s, sim), c')
              \<longrightarrow> \<not> num_ge js sim threshold)"
  shows "(\<forall>x. r = Inr x \<longrightarrow> x = candidates)
       \<and> (\<forall>q \<in> set calls'. is_classify_call q \<longrightarrow> q \<in> set calls)"
  using assms
proof (induction items arbitrary: calls)
  case Nil
  then show ?case by auto
next
  case (Cons item items)
  have rest: "\<forall>item \<in> set items. \<not> num_eq js (item_number item) itemNumber \<longrightarrow>
           (\<forall>c s sim c'. candidateSimilarity env js currentEmbedding item c = (Inr (s, sim), c')
              \<longrightarrow> \<not> num_ge js sim threshold)"
    using Cons.prems(2) by simp
  show ?case
  proof (cases "num_eq js (item_number item) itemNumber")
    case True
    with Cons.prems have "scanItems env js itemNumber currentEmbedding threshold items candidates calls = (r, calls')"
      by simp
    then show ?thesis by (rule Cons.IH [OF _ rest])
  next
    case False
    obtain r1 c1 where cs: "candidateSimilarity env js currentEmbedding item calls = (r1, c1)"
      by (cases "candidateSimilarity env js currentEmbedding item calls")
    have q1: "\<forall>q \<in> set c1. is_classify_call q \<longrightarrow> q \<in> set calls"
      using silentD [OF quiet_candidateSimilarity cs] by blast
    show ?thesis
    proof (cases r1)
      case (Inl e)
      with Cons.prems(1) False cs have "r = Inl e" "calls' = c1"
        by (simp_all add: io_bind_apply)
      with q1 show ?thesis by simp
    next
      case (Inr p)
      obtain s sim where p: "p = (s, sim)" by (cases p)
      from Cons.prems(2) False cs Inr p have "\<not> num_ge js sim threshold" by fastforce
      with Cons.prems(1) False cs Inr p
      have "scanItems env js itemNumber currentEmbedding threshold items candidates c1 = (r, calls')"
        by (simp add: io_bind_apply)
      from Cons.IH [OF this rest] q1 show ?thesis by blast
    qed
  qed
qed

lemma sort_candidates_Nil [simp]: "sort_candidates js [] = []"
  by (simp add: sort_candidates_def)

lemma fetch_returns:
  "\<exists>items calls'. (case itemType of Issue \<Rightarrow> getRecentIssues env n | PR \<Rightarrow> getRecentPullRequests env n) calls
      = (Inr items, calls')"
proof (cases itemType)
  case Issue
  obtain r c where p: "getRecentIssues env n calls = (r, c)" by (cases "getRecentIssues env n calls")
  with getRecentIssues_returns [of env n calls] Issue show ?thesis by auto
next
  case PR
  obtain r c where p: "getRecentPullRequests env n calls = (r, c)"
    by (cases "getRecentPullRequests env n calls")
  with getRecentPullRequests_returns [of env n calls] PR show ?thesis by auto
qed

lemma quiet_fetch:
  "silent is_classify_call (case itemType of Issue \<Rightarrow> getRecentIssues env n | PR \<Rightarrow> getRecentPullRequests env n)"
  by (cases itemType) (simp_all add: quiet_getRecentIssues quiet_getRecentPullRequests)

text \<open>
  C7. In stateless mode (no connection string), if the similarity of every candidate to
  the current item is strictly below the threshold, \<^verbatim>\<open>detectDuplicates\<close> returns
  \<^verbatim>\<open>null\<close> and \<^verbatim>\<open>classifyDuplicate\<close> is not invoked: the log of the run holds no call
  of the classification beyond those it held before. The candidates are the items that
  the tracker lists, the current item left out; the similarity of one is what
  \<^verbatim>\<open>calculateCosineSimilarity\<close> returns for the embedding of the current item and its
  own. Strictly below is \<^verbatim>\<open><\<close>, and a number strictly below another is not
  \<^verbatim>\<open>>=\<close> it, which is the one law of the arithmetic that the proof uses.
\<close>

theorem detectDuplicates_stateless_below_threshold:
  assumes stateless: "\<not> string_truthy databaseUrl"
    and order: "\<forall>x y. num_lt js x y \<longrightarrow> \<not> num_ge js x y"
    and below:
      "\<forall>currentSummary calls1 currentEmbedding calls2 items calls3.
         generateSummary env js itemTitle itemBody (Some files) calls = (Inr currentSummary, calls1) \<longrightarrow>
         generateEmbedding env (itemTitle @ '' '' @ template js (problem_statement currentSummary)) calls1
           = (Inr currentEmbedding, calls2) \<longrightarrow>
         (case itemType of
            Issue \<Rightarrow> getRecentIssues env maxCandidates
          | PR \<Rightarrow> getRecentPullRequests env maxCandidates) calls2 = (Inr items, calls3) \<longrightarrow>
         (\<forall>item \<in> set items. \<not> num_eq js (item_number item) itemNumber \<longrightarrow>
            (\<forall>c s sim c'. candidateSimilarity env js currentEmbedding item c = (Inr (s, sim), c')
               \<longrightarrow> num_lt js sim similarityThreshold))"
  shows "fst (detectDuplicates env js itemNumber itemTitle itemBody itemType files maxCandidates
                similarityThreshold databaseUrl calls) = Inr None
       \<and> (\<forall>request \<in> set (snd (detectDuplicates env js itemNumber itemTitle itemBody itemType files
                                    maxCandidates similarityThreshold databaseUrl calls)).
            is_classify_call request \<longrightarrow> request \<in> set calls)"
proof -
  let ?text = "\<lambda>s. itemTitle @ '' '' @ template js (problem_statement s)"
  let ?fetch = "case itemType of
                  Issue \<Rightarrow> getRecentIssues env maxCandidates
                | PR \<Rightarrow> getRecentPullRequests env maxCandidates"
  obtain s c1 where s: "generateSummary env js itemTitle itemBody (Some files) calls = (Inr s, c1)"
    using generateSummary_returns [of env js itemTitle itemBody "Some files" calls]
    by (cases "generateSummary env js itemTitle itemBody (Some files) calls") auto
  have q1: "q \<in> set calls" if "is_classify_call q" "q \<in> set c1" for q
    using silentD [OF quiet_generateSummary s that] by blast
  obtain r2 c2 where e: "generateEmbedding env (?text s) c1 = (r2, c2)"
    by (cases "generateEmbedding env (?text s) c1")
  have q2: "q \<in> set calls" if "is_classify_call q" "q \<in> set c2" for q
    using silentD [OF quiet_generateEmbedding e that] q1 [OF that(1)] by blast
  have "detectDuplicates env js itemNumber itemTitle itemBody itemType files maxCandidates
          similarityThreshold databaseUrl calls = (Inr None, c2)
        \<or> (\<exists>c4. detectDuplicates env js itemNumber itemTitle itemBody itemType files maxCandidates
          similarityThreshold databaseUrl calls = (Inr None, c4)
             \<and> (\<forall>q \<in> set c4. is_classify_call q \<longrightarrow> q \<in> set c2))"
  proof (cases r2)
    case (Inl err)
    with e s have "detectDuplicates env js itemNumber itemTitle itemBody itemType files maxCandidates
          similarityThreshold databaseUrl calls = (Inr None, c2)"
      unfolding detectDuplicates_def detectDuplicates_try_def by (simp add: io_catch_apply io_bind_apply Let_def)
    then show ?thesis by simp
  next
    case (Inr currentEmbedding)
    obtain items c3 where f: "?fetch c2 = (Inr items, c3)"
      using fetch_returns [where itemType = itemType and env = env and n = maxCandidates and calls = c2]
      by blast
    have q3: "q \<in> set c2" if "is_classify_call q" "q \<in> set c3" for q
      using silentD [OF quiet_fetch f that] by blast
    obtain r4 c4 where sc: "scanItems env js itemNumber currentEmbedding similarityThreshold items [] c3
        = (r4, c4)"
      by (cases "scanItems env js itemNumber currentEmbedding similarityThreshold items [] c3")
    have "\<forall>item \<in> set items. \<not> num_eq js (item_number item) itemNumber \<longrightarrow>
            (\<forall>c s sim c'. candidateSimilarity env js currentEmbedding item c = (Inr (s, sim), c')
               \<longrightarrow> \<not> num_ge js sim similarityThreshold)"
      using below s e Inr f order by blast
    from scanItems_below [OF sc this]
    have none: "\<forall>x. r4 = Inr x \<longrightarrow> x = []"
      and q4: "\<forall>q \<in> set c4. is_classify_call q \<longrightarrow> q \<in> set c3"
      by blast+
    have st: "statelessCandidates env js itemNumber itemType currentEmbedding maxCandidates
                similarityThreshold c2 = (r4, c4)"
      unfolding statelessCandidates_def using f sc by (simp add: io_bind_apply)
    have "detectDuplicates env js itemNumber itemTitle itemBody itemType files maxCandidates
          similarityThreshold databaseUrl calls = (Inr None, c4)"
    proof (cases r4)
      case (Inl err)
      with s e Inr st stateless show ?thesis
        unfolding detectDuplicates_def detectDuplicates_try_def by (simp add: io_catch_apply io_bind_apply Let_def)
    next
      case (Inr candidates)
      with none have "candidates = []" by simp
      with s e \<open>r2 = Inr currentEmbedding\<close> st Inr stateless show ?thesis
        unfolding detectDuplicates_def detectDuplicates_try_def by (simp add: io_catch_apply io_bind_apply Let_def)
    qed
    moreover have "\<forall>q \<in> set c4. is_classify_call q \<longrightarrow> q \<in> set c2"
      using q4 q3 by blast
    ultimately show ?thesis by blast
  qed
  then show ?thesis using q2 by auto
qed

theorem detectDuplicates_stateless_below_threshold_witness:
  "\<not> string_truthy None
   \<and> fst (candidateSimilarity example_env example_js [1]
            \<lparr> item_number = 12, item_title = ''Dark mode'', item_body = None,
              item_is_pull_request = False \<rparr> []) =
        Inr (\<lparr> problem_statement = JStr ''Dark mode'', scope = JStr ''Unknown'',
               key_entities = [], affected_files = [] \<rparr>, - 1)
   \<and> num_lt example_js (- 1) 0.85
   \<and> fst (detectDuplicates example_env example_js 13 ''Login fails'' ''Cannot log in'' Issue []
            20 0.85 None []) = Inr None
   \<and> filter is_classify_call
         (snd (detectDuplicates example_env example_js 13 ''Login fails'' ''Cannot log in'' Issue
                 [] 20 0.85 None [])) = []"
proof -
  have stateless: "\<not> string_truthy None"
    by (simp add: string_truthy_def)
  have order: "\<forall>x y. num_lt example_js x y \<longrightarrow> \<not> num_ge example_js x y"
    by (simp add: example_js_def)
  have sim: "candidateSimilarity example_env example_js [1]
            \<lparr> item_number = 12, item_title = ''Dark mode'', item_body = None,
              item_is_pull_request = False \<rparr> c =
        (Inr (\<lparr> problem_statement = JStr ''Dark mode'', scope = JStr ''Unknown'',
               key_entities = [], affected_files = [] \<rparr>, - 1),
         c @ [ChatCompletion summarySystemMessage ''Dark mode'',
              EmbeddingsCreate ''Dark mode Dark mode''])" for c
    by (simp add: candidateSimilarity_def generateSummary_def generateSummary_try_def generateEmbedding_def chat_def
        calculateCosineSimilarity_def io_catch_apply io_bind_apply io_call_def Let_def
        example_env_def unreachable_env_def example_js_def template_def string_or_def
        first_of_def)
  have lt: "num_lt example_js (- 1) 0.85"
    by (simp add: example_js_def)
  have below:
    "\<forall>currentSummary calls1 currentEmbedding calls2 items calls3.
       generateSummary example_env example_js ''Login fails'' ''Cannot log in'' (Some []) []
         = (Inr currentSummary, calls1) \<longrightarrow>
       generateEmbedding example_env
           (''Login fails'' @ '' '' @ template example_js (problem_statement currentSummary)) calls1
         = (Inr currentEmbedding, calls2) \<longrightarrow>
       (case Issue of
          Issue \<Rightarrow> getRecentIssues example_env 20
        | PR \<Rightarrow> getRecentPullRequests example_env 20) calls2 = (Inr items, calls3) \<longrightarrow>
       (\<forall>item \<in> set items. \<not> num_eq example_js (item_number item) 13 \<longrightarrow>
          (\<forall>c s sim c'. candidateSimilarity example_env example_js currentEmbedding item c
                            = (Inr (s, sim), c')
             \<longrightarrow> num_lt example_js sim 0.85))"
  proof (intro allI impI ballI)
    fix currentSummary calls1 currentEmbedding calls2 items calls3 item c s sim c'
    assume s: "generateSummary example_env example_js ''Login fails'' ''Cannot log in'' (Some []) []
         = (Inr currentSummary, calls1)"
      and e: "generateEmbedding example_env
           (''Login fails'' @ '' '' @ template example_js (problem_statement currentSummary)) calls1
         = (Inr currentEmbedding, calls2)"
      and f: "(case Issue of
          Issue \<Rightarrow> getRecentIssues example_env 20
        | PR \<Rightarrow> getRecentPullRequests example_env 20) calls2 = (Inr items, calls3)"
      and i: "item \<in> set items"
      and c: "candidateSimilarity example_env example_js currentEmbedding item c = (Inr (s, sim), c')"
    from s have "currentSummary = \<lparr> problem_statement = JStr ''Login fails'', scope = JStr ''Unknown'',
               key_entities = [], affected_files = [] \<rparr>"
      by (simp add: generateSummary_def generateSummary_try_def chat_def io_catch_apply io_bind_apply io_call_def
          Let_def example_env_def unreachable_env_def)
    with e have "currentEmbedding = [1]"
      by (simp add: generateEmbedding_def io_catch_apply io_bind_apply io_call_def
          example_env_def unreachable_env_def template_def first_of_def)
    moreover from f i have "item = \<lparr> item_number = 12, item_title = ''Dark mode'',
        item_body = None, item_is_pull_request = False \<rparr>"
      by (auto simp: getRecentIssues_def io_catch_apply io_bind_apply io_call_def
          example_env_def unreachable_env_def)
    ultimately have "sim = - 1" using c sim [of c] by simp
    with lt show "num_lt example_js sim 0.85" by simp
  qed
  note w = detectDuplicates_stateless_below_threshold
    [where databaseUrl = None and js = example_js and env = example_env
       and itemTitle = "''Login fails''" and itemBody = "''Cannot log in''" and files = "[]"
       and calls = "[]" and itemType = Issue and maxCandidates = 20 and itemNumber = 13
       and similarityThreshold = "0.85", OF stateless order below]
  from w have r: "fst (detectDuplicates example_env example_js 13 ''Login fails'' ''Cannot log in''
                         Issue [] 20 0.85 None []) = Inr None"
    by blast
  from w have q: "filter is_classify_call
         (snd (detectDuplicates example_env example_js 13 ''Login fails'' ''Cannot log in'' Issue
                 [] 20 0.85 None [])) = []"
    by (simp add: filter_empty_conv)
  from stateless sim [of "[]"] lt r q show ?thesis by simp
qed

subsection \<open>detectDuplicates\<close>

lemma detectDuplicates_returns:
  "\<exists>result. fst (detectDuplicates env js itemNumber itemTitle itemBody itemType files
                   maxCandidates similarityThreshold databaseUrl calls) = Inr result"
  unfolding detectDuplicates_def detectDuplicates_try_def by (rule io_catch_returns)

lemma detectDuplicates_embedding_fails:
  assumes "fst (generateSummary env js itemTitle itemBody (Some files) calls) = Inr s"
    and "embeddings_create env (itemTitle @ '' '' @ template js (problem_statement s)) = Inl e"
  shows "fst (detectDuplicates env js itemNumber itemTitle itemBody itemType files maxCandidates
       similarityThreshold databaseUrl calls) = Inr None"
proof -
  obtain calls1 where s:
    "generateSummary env js itemTitle itemBody (Some files) calls = (Inr s, calls1)"
    using assms(1) by (cases "generateSummary env js itemTitle itemBody (Some files) calls") auto
  have g: "generateEmbedding env (itemTitle @ '' '' @ template js (problem_statement s)) calls1
      = (Inl e, calls1 @ [EmbeddingsCreate (itemTitle @ '' '' @ template js (problem_statement s))])"
    by (rule generateEmbedding_fails [OF assms(2)])
  show ?thesis
    unfolding detectDuplicates_def detectDuplicates_try_def using g
    by (simp add: io_catch_apply io_bind_apply s Let_def)
qed

subsection \<open>Failed embedding calls\<close>

lemma no_embedding_failed [simp]:
  "\<not> embedding_failed env (ChatCompletion system user)"
  "\<not> embedding_failed env (IssuesListForRepo owner repo_name n)"
  "\<not> embedding_failed env (PullsList owner repo_name n)"
  "\<not> embedding_failed env (DbUpsert item embeddingStr)"
  "\<not> embedding_failed env (DbSelect embeddingStr repo_name itemType n)"
  by (simp_all add: embedding_failed_def)

lemma silent_if: "silent P a \<Longrightarrow> silent P b \<Longrightarrow> silent P (if c then a else b)"
  by simp

lemma silent_on_return_if:
  "silent_on_return P a \<Longrightarrow> silent_on_return P b \<Longrightarrow> silent_on_return P (if c then a else b)"
  by simp

lemma silent_on_return_case_prod:
  "(\<And>a b. silent_on_return P (f a b)) \<Longrightarrow> silent_on_return P (case p of (a, b) \<Rightarrow> f a b)"
  by (cases p) simp

lemma silent_on_return_case_list:
  "silent_on_return P a \<Longrightarrow> (\<And>x xs. silent_on_return P (f x xs))
   \<Longrightarrow> silent_on_return P (case l of [] \<Rightarrow> a | x # xs \<Rightarrow> f x xs)"
  by (cases l) simp_all

lemma hush_generateSummary:
  "silent (embedding_failed env') (generateSummary env js title body files)"
  unfolding generateSummary_def generateSummary_try_def chat_def Let_def
  by (intro silent_catch silent_bind silent_call silent_lift silent_return no_embedding_failed)

lemma hush_classifyDuplicate:
  "silent (embedding_failed env') (classifyDuplicate env js currentTitle currentSummary
     candidateNumber candidateTitle candidateSummary)"
  unfolding classifyDuplicate_def classifyDuplicate_try_def chat_def Let_def
  by (intro silent_catch silent_bind silent_call silent_lift silent_return no_embedding_failed)

lemma hush_getRecentIssues: "silent (embedding_failed env') (getRecentIssues env n)"
  unfolding getRecentIssues_def
  by (intro silent_catch silent_bind silent_lift silent_return silent_case_prod silent_call
      no_embedding_failed)

lemma hush_getRecentPullRequests: "silent (embedding_failed env') (getRecentPullRequests env n)"
  unfolding getRecentPullRequests_def
  by (intro silent_catch silent_bind silent_lift silent_return silent_case_prod silent_call
      no_embedding_failed)

lemma hush_storeSimilarityItem: "silent (embedding_failed env') (storeSimilarityItem env js item)"
  unfolding storeSimilarityItem_def
  by (intro silent_catch silent_bind silent_lift silent_return silent_call no_embedding_failed)

lemma hush_findSimilarItems:
  "silent (embedding_failed env') (findSimilarItems env js embedding repo_name itemType limit)"
  unfolding findSimilarItems_def
  by (intro silent_catch silent_bind silent_lift silent_return silent_call no_embedding_failed)

lemma hush_statefulCandidates:
  "silent (embedding_failed env') (statefulCandidates env js itemNumber itemTitle itemType
     currentSummary currentEmbedding maxCandidates)"
  unfolding statefulCandidates_def
  by (intro silent_bind silent_lift silent_return silent_case_prod hush_storeSimilarityItem
      hush_findSimilarItems)

text \<open>When \<^verbatim>\<open>generateEmbedding\<close> returns, its call of the endpoint has succeeded.\<close>

lemma strict_generateEmbedding:
  "silent_on_return (embedding_failed env) (generateEmbedding env input)"
  unfolding silent_on_return_def
proof (intro allI impI ballI)
  fix calls x calls' q
  assume r: "generateEmbedding env input calls = (Inr x, calls')"
    and q: "q \<in> set calls'" "embedding_failed env q"
  show "q \<in> set calls"
  proof (cases "embeddings_create env input")
    case (Inl e)
    with r show ?thesis by (simp add: generateEmbedding_fails)
  next
    case (Inr data)
    with r have "calls' = calls @ [EmbeddingsCreate input]"
      by (auto simp: generateEmbedding_def io_catch_apply io_bind_apply io_call_def
            split: sum.splits)
    moreover have "\<not> embedding_failed env (EmbeddingsCreate input)"
      using Inr by (simp add: embedding_failed_def)
    ultimately show ?thesis using q by auto
  qed
qed

lemma strict_candidateSimilarity:
  "silent_on_return (embedding_failed env) (candidateSimilarity env js currentEmbedding item)"
  unfolding candidateSimilarity_def Let_def
  by (intro silent_on_return_bind strict_generateEmbedding
      silent_on_return_silent [OF hush_generateSummary]
      silent_on_return_silent [OF silent_lift] silent_on_return_silent [OF silent_return])

lemma strict_scanItems:
  "silent_on_return (embedding_failed env)
     (scanItems env js itemNumber currentEmbedding similarityThreshold items candidates)"
proof (induction items arbitrary: candidates)
  case Nil
  show ?case
    unfolding scanItems.simps by (rule silent_on_return_silent [OF silent_return])
next
  case (Cons item items)
  show ?case
    unfolding scanItems.simps
    by (intro silent_on_return_if Cons.IH silent_on_return_bind strict_candidateSimilarity
        silent_on_return_case_prod)
qed

lemma strict_statelessCandidates:
  "silent_on_return (embedding_failed env)
     (statelessCandidates env js itemNumber itemType currentEmbedding maxCandidates
        similarityThreshold)"
  unfolding statelessCandidates_def
  by (cases itemType)
     (auto intro!: silent_on_return_bind strict_scanItems
        silent_on_return_silent [OF hush_getRecentIssues]
        silent_on_return_silent [OF hush_getRecentPullRequests])

lemma strict_detectDuplicates_try:
  "silent_on_return (embedding_failed env)
     (detectDuplicates_try env js itemNumber itemTitle itemBody itemType files maxCandidates
        similarityThreshold databaseUrl)"
  unfolding detectDuplicates_try_def Let_def
  by (intro silent_on_return_bind silent_on_return_if silent_on_return_case_list
      strict_generateEmbedding strict_statelessCandidates
      silent_on_return_silent [OF hush_generateSummary]
      silent_on_return_silent [OF hush_statefulCandidates]
      silent_on_return_silent [OF hush_classifyDuplicate]
      silent_on_return_silent [OF silent_return])

lemma detectDuplicates_failed_call:
  assumes "request \<in> set (snd (detectDuplicates env js itemNumber itemTitle itemBody itemType files
                                 maxCandidates similarityThreshold databaseUrl calls))"
    and "request \<notin> set calls" and "embedding_failed env request"
  shows "fst (detectDuplicates env js itemNumber itemTitle itemBody itemType files maxCandidates
                similarityThreshold databaseUrl calls) = Inr None"
proof -
  obtain r c where t: "detectDuplicates_try env js itemNumber itemTitle itemBody itemType files
                         maxCandidates similarityThreshold databaseUrl calls = (r, c)"
    by (cases "detectDuplicates_try env js itemNumber itemTitle itemBody itemType files
                 maxCandidates similarityThreshold databaseUrl calls")
  show ?thesis
  proof (cases r)
    case (Inl e)
    with t show ?thesis by (simp add: detectDuplicates_def io_catch_apply)
  next
    case (Inr x)
    with t assms(1) have "request \<in> set c" by (simp add: detectDuplicates_def io_catch_apply)
    with silent_on_returnD [OF strict_detectDuplicates_try _ assms(3)] t Inr
    have "request \<in> set calls" by blast
    with assms(2) show ?thesis by simp
  qed
qed

text \<open>
  C1. The claim says that \<^verbatim>\<open>detectDuplicates\<close> propagates the error of a failed
  embedding call. With every service unreachable, \<^verbatim>\<open>generateEmbedding\<close> raises the
  error of the endpoint, and \<^verbatim>\<open>detectDuplicates\<close> returns \<^verbatim>\<open>null\<close>: its own
  \<^verbatim>\<open>try\<close> catches the error.
\<close>

theorem detectDuplicates_embedding_failure_counterexample:
  "fst (generateEmbedding unreachable_env ''Title Title'' []) = Inl (ServiceError ''unreachable'')
   \<and> detectDuplicates unreachable_env example_js 13 ''Title'' ''Body'' Issue [] 20 0.85 None []
     = (Inr None, [ChatCompletion summarySystemMessage ''Title'', EmbeddingsCreate ''Title Title''])"
  by (simp add: detectDuplicates_def detectDuplicates_try_def generateSummary_def generateSummary_try_def generateEmbedding_def chat_def
      io_catch_apply io_bind_apply io_call_def Let_def unreachable_env_def template_def)

text \<open>
  C1, amended. When the embedding call fails, \<^verbatim>\<open>generateEmbedding\<close> re-raises the error.
  \<^verbatim>\<open>detectDuplicates\<close> does not propagate it: it never raises, and it returns \<^verbatim>\<open>null\<close>
  when the embedding of the current item fails, as whenever a call of the embedding
  endpoint made in the run fails, so the run goes on without a duplicate result.
\<close>

theorem detectDuplicates_catches_embedding_failure:
  "(embeddings_create env input = Inl e \<longrightarrow> fst (generateEmbedding env input calls) = Inl e)
   \<and> (\<exists>result. fst (detectDuplicates env js itemNumber itemTitle itemBody itemType files
                      maxCandidates similarityThreshold databaseUrl calls) = Inr result)
   \<and> (\<forall>currentSummary.
         fst (generateSummary env js itemTitle itemBody (Some files) calls) = Inr currentSummary
         \<longrightarrow> embeddings_create env
               (itemTitle @ '' '' @ template js (problem_statement currentSummary)) = Inl e
         \<longrightarrow> fst (detectDuplicates env js itemNumber itemTitle itemBody itemType files
                    maxCandidates similarityThreshold databaseUrl calls) = Inr None)
   \<and> (\<forall>request \<in> set (snd (detectDuplicates env js itemNumber itemTitle itemBody itemType files
                                   maxCandidates similarityThreshold databaseUrl calls)).
         request \<notin> set calls \<longrightarrow> embedding_failed env request
         \<longrightarrow> fst (detectDuplicates env js itemNumber itemTitle itemBody itemType files
                    maxCandidates similarityThreshold databaseUrl calls) = Inr None)"
proof (intro conjI allI impI ballI)
  assume "embeddings_create env input = Inl e"
  then show "fst (generateEmbedding env input calls) = Inl e"
    by (simp add: generateEmbedding_fails)
next
  show "\<exists>result. fst (detectDuplicates env js itemNumber itemTitle itemBody itemType files
                      maxCandidates similarityThreshold databaseUrl calls) = Inr result"
    by (rule detectDuplicates_returns)
next
  fix currentSummary
  assume "fst (generateSummary env js itemTitle itemBody (Some files) calls) = Inr currentSummary"
    and "embeddings_create env
               (itemTitle @ '' '' @ template js (problem_statement currentSummary)) = Inl e"
  then show "fst (detectDuplicates env js itemNumber itemTitle itemBody itemType files
                    maxCandidates similarityThreshold databaseUrl calls) = Inr None"
    by (rule detectDuplicates_embedding_fails)
next
  fix request
  assume "request \<in> set (snd (detectDuplicates env js itemNumber itemTitle itemBody itemType files
                                   maxCandidates similarityThreshold databaseUrl calls))"
    and "request \<notin> set calls" and "embedding_failed env request"
  then show "fst (detectDuplicates env js itemNumber itemTitle itemBody itemType files
                    maxCandidates similarityThreshold databaseUrl calls) = Inr None"
    by (rule detectDuplicates_failed_call)
qed

theorem detectDuplicates_catches_embedding_failure_witness:
  "embeddings_create unreachable_env ''Title Title'' = Inl (ServiceError ''unreachable'')
   \<and> fst (generateEmbedding unreachable_env ''Title Title'' []) = Inl (ServiceError ''unreachable'')
   \<and> fst (generateSummary unreachable_env example_js ''Title'' ''Body'' (Some []) []) =
        Inr \<lparr> problem_statement = JStr ''Title'', scope = JStr ''Unknown'', key_entities = [],
              affected_files = [] \<rparr>
   \<and> fst (detectDuplicates unreachable_env example_js 13 ''Title'' ''Body'' Issue [] 20 0.85 None [])
       = Inr None
   \<and> snd (detectDuplicates flaky_env example_js 13 ''Login fails'' ''Cannot log in'' Issue [] 20
            0.85 None []) =
        [ChatCompletion summarySystemMessage ''Login fails'',
         EmbeddingsCreate ''Login fails Login fails'',
         IssuesListForRepo ''owner'' ''repo'' 20,
         ChatCompletion summarySystemMessage ''Dark mode'',
         EmbeddingsCreate ''Dark mode Dark mode'']
   \<and> embedding_failed flaky_env (EmbeddingsCreate ''Dark mode Dark mode'')
   \<and> fst (detectDuplicates flaky_env example_js 13 ''Login fails'' ''Cannot log in'' Issue [] 20
            0.85 None []) = Inr None"
proof -
  note w = detectDuplicates_catches_embedding_failure
    [where env = unreachable_env and js = example_js and input = "''Title Title''"
       and e = "ServiceError ''unreachable''" and calls = "[]" and itemNumber = 13
       and itemTitle = "''Title''" and itemBody = "''Body''" and itemType = Issue
       and files = "[]" and maxCandidates = 20 and similarityThreshold = "0.85"
       and databaseUrl = None]
  have f: "embeddings_create unreachable_env ''Title Title'' = Inl (ServiceError ''unreachable'')"
    by (simp add: unreachable_env_def)
  have s: "fst (generateSummary unreachable_env example_js ''Title'' ''Body'' (Some []) []) =
        Inr \<lparr> problem_statement = JStr ''Title'', scope = JStr ''Unknown'', key_entities = [],
              affected_files = [] \<rparr>"
    by (simp add: generateSummary_def generateSummary_try_def chat_def io_catch_def Let_def unreachable_env_def)
  have t: "''Title'' @ '' '' @ template example_js (problem_statement
             \<lparr> problem_statement = JStr ''Title'', scope = JStr ''Unknown'', key_entities = [],
               affected_files = [] \<rparr>) = ''Title Title''"
    by (simp add: template_def)
  from w f have 1: "fst (generateEmbedding unreachable_env ''Title Title'' []) = Inl (ServiceError ''unreachable'')"
    by blast
  from w [THEN conjunct2, THEN conjunct2, THEN conjunct1, rule_format, OF s] f t
  have 2: "fst (detectDuplicates unreachable_env example_js 13 ''Title'' ''Body'' Issue [] 20 0.85 None [])
       = Inr None"
    by simp
  have l: "snd (detectDuplicates flaky_env example_js 13 ''Login fails'' ''Cannot log in'' Issue [] 20
            0.85 None []) =
        [ChatCompletion summarySystemMessage ''Login fails'',
         EmbeddingsCreate ''Login fails Login fails'',
         IssuesListForRepo ''owner'' ''repo'' 20,
         ChatCompletion summarySystemMessage ''Dark mode'',
         EmbeddingsCreate ''Dark mode Dark mode'']"
    by (simp add: detectDuplicates_def detectDuplicates_try_def statelessCandidates_def
        getRecentIssues_def candidateSimilarity_def generateSummary_def generateSummary_try_def generateEmbedding_def
        chat_def io_catch_apply io_bind_apply io_call_def Let_def flaky_env_def example_env_def
        unreachable_env_def example_js_def template_def string_truthy_def string_or_def
        first_of_def)
  have b: "embedding_failed flaky_env (EmbeddingsCreate ''Dark mode Dark mode'')"
    by (simp add: embedding_failed_def flaky_env_def example_env_def unreachable_env_def)
  have m: "EmbeddingsCreate ''Dark mode Dark mode''
      \<in> set (snd (detectDuplicates flaky_env example_js 13 ''Login fails'' ''Cannot log in'' Issue []
                    20 0.85 None []))"
    unfolding l by simp
  have n: "EmbeddingsCreate ''Dark mode Dark mode'' \<notin> set ([] :: real request list)"
    by simp
  from detectDuplicates_catches_embedding_failure
    [where env = flaky_env and js = example_js and calls = "[]" and itemNumber = 13
       and itemTitle = "''Login fails''" and itemBody = "''Cannot log in''" and itemType = Issue
       and files = "[]" and maxCandidates = 20 and similarityThreshold = "0.85"
       and databaseUrl = None,
     THEN conjunct2, THEN conjunct2, THEN conjunct2, rule_format, OF m n b]
  have 3: "fst (detectDuplicates flaky_env example_js 13 ''Login fails'' ''Cannot log in'' Issue [] 20
            0.85 None []) = Inr None" .
  from f 1 s 2 l b 3 show ?thesis by blast
qed


end
